(* ===== verification/Prelude.thy ===== *)
theory Prelude
  imports
    Main
    "HOL-Library.Char_ord"
    "HOL-Library.List_Lexorder"
    "HOL-Library.Product_Lexorder"
    "HOL-Library.Multiset"
begin

text \<open>
  Shared vocabulary of the development: the model's time line, result values, the
  relational tables the SQL statements of \<^verbatim>\<open>src/internal/persistence\<close> read and write, and the
  pieces of Go's standard library (\<^verbatim>\<open>strings.TrimSpace\<close>, string order, \<^verbatim>\<open>sort.Slice\<close>) that the
  sources use.
\<close>

named_theorems table_simps \<open>rewriting of table updates, counts and selections\<close>
named_theorems result_elims \<open>inversion of successful results\<close>

section \<open>Time and durations\<close>

text \<open>
  A point of time is a number of nanoseconds, Go's \<^verbatim>\<open>time.Duration\<close> granularity. PostgreSQL's
  \<^verbatim>\<open>timestamptz\<close> values are such points (multiples of a microsecond).
\<close>

type_synonym time = int
type_synonym duration = int

definition seconds :: "int \<Rightarrow> duration" where
  "seconds n = n * 1000000000"

definition milliseconds :: "int \<Rightarrow> duration" where
  "milliseconds n = n * 1000000"

lemma seconds_mono [simp]: "seconds a \<le> seconds b \<longleftrightarrow> a \<le> b"
  by (simp add: seconds_def)

lemma seconds_less [simp]: "seconds a < seconds b \<longleftrightarrow> a < b"
  by (simp add: seconds_def)

lemma seconds_pos_iff [simp]: "0 < seconds n \<longleftrightarrow> 0 < n" "0 \<le> seconds n \<longleftrightarrow> 0 \<le> n"
  by (simp_all add: seconds_def)

section \<open>Results\<close>

text \<open>
  A fallible operation returns \<open>Inl e\<close> or \<open>Inr v\<close>. A database transaction maps the committed state
  to an error, which rolls back, or to a value and the new state; \<open>committed\<close> is what is stored
  after the transaction ended either way.
\<close>

type_synonym ('e, 'a) result = "'e + 'a"

definition bind_result :: "('e, 'a) result \<Rightarrow> ('a \<Rightarrow> ('e, 'b) result) \<Rightarrow> ('e, 'b) result" where
  "bind_result r f = (case r of Inl e \<Rightarrow> Inl e | Inr v \<Rightarrow> f v)"

lemma bind_result_simps [simp]:
  "bind_result (Inl e) f = Inl e"
  "bind_result (Inr v) f = f v"
  by (simp_all add: bind_result_def)

lemma bind_result_Inr [result_elims]:
  "bind_result r f = Inr w \<longleftrightarrow> (\<exists>v. r = Inr v \<and> f v = Inr w)"
  by (cases r) auto

lemma bind_result_assoc:
  "bind_result (bind_result r f) g = bind_result r (\<lambda>v. bind_result (f v) g)"
  by (cases r) auto

text \<open>Wrapping an error, as \<^verbatim>\<open>fmt.Errorf("...: %w", err)\<close> does.\<close>

definition map_error :: "('e \<Rightarrow> 'f) \<Rightarrow> ('e, 'a) result \<Rightarrow> ('f, 'a) result" where
  "map_error f r = (case r of Inl e \<Rightarrow> Inl (f e) | Inr v \<Rightarrow> Inr v)"

lemma map_error_simps [simp]:
  "map_error f (Inl e) = Inl (f e)"
  "map_error f (Inr v) = Inr v"
  by (simp_all add: map_error_def)

lemma map_error_Inr [simp]: "map_error f r = Inr v \<longleftrightarrow> r = Inr v"
  by (cases r) auto

definition committed :: "('e, 'a \<times> 's) result \<Rightarrow> 's \<Rightarrow> 's" where
  "committed r s = (case r of Inl _ \<Rightarrow> s | Inr (_, s') \<Rightarrow> s')"

lemma committed_simps [simp]:
  "committed (Inl e) s = s"
  "committed (Inr (v, t)) s = t"
  by (simp_all add: committed_def)

text \<open>Running a step for every element of a list, stopping at the first error (a Go \<^verbatim>\<open>for\<close> loop
  whose body returns on error).\<close>

fun fold_result :: "('a \<Rightarrow> 's \<Rightarrow> ('e, 's) result) \<Rightarrow> 'a list \<Rightarrow> 's \<Rightarrow> ('e, 's) result" where
  "fold_result f [] s = Inr s"
| "fold_result f (x # xs) s = bind_result (f x s) (fold_result f xs)"

lemma fold_result_invariant:
  assumes "fold_result f xs s = Inr t" and "I s"
    and "\<And>x s t. x \<in> set xs \<Longrightarrow> I s \<Longrightarrow> f x s = Inr t \<Longrightarrow> I t"
  shows "I t"
  using assms
proof (induction xs arbitrary: s)
  case (Cons x xs)
  from Cons.prems(1) obtain s' where s': "f x s = Inr s'" "fold_result f xs s' = Inr t"
    by (auto simp: bind_result_Inr)
  then have "I s'" using Cons.prems(2) Cons.prems(3)[of x s s'] by simp
  with s'(2) show ?case using Cons.prems(3) by (intro Cons.IH) auto
qed simp

section \<open>Tables\<close>

text \<open>
  A table is the list of its rows. \<open>update_where p f\<close> is \<^verbatim>\<open>UPDATE ... SET f WHERE p\<close>, whose row count
  is \<open>count_where p\<close>, and \<open>order_limit1 k\<close> is \<^verbatim>\<open>ORDER BY k LIMIT 1\<close>.
\<close>

definition update_where :: "('a \<Rightarrow> bool) \<Rightarrow> ('a \<Rightarrow> 'a) \<Rightarrow> 'a list \<Rightarrow> 'a list" where
  "update_where p f rows = map (\<lambda>r. if p r then f r else r) rows"

definition count_where :: "('a \<Rightarrow> bool) \<Rightarrow> 'a list \<Rightarrow> nat" where
  "count_where p rows = length (filter p rows)"

fun order_limit1 :: "('a \<Rightarrow> 'k::linorder) \<Rightarrow> 'a list \<Rightarrow> 'a option" where
  "order_limit1 k [] = None"
| "order_limit1 k (x # xs) =
     (case order_limit1 k xs of None \<Rightarrow> Some x | Some y \<Rightarrow> if k x \<le> k y then Some x else Some y)"

lemma update_where_Nil [simp]: "update_where p f [] = []"
  by (simp add: update_where_def)

lemma update_where_Cons [simp]:
  "update_where p f (x # xs) = (if p x then f x else x) # update_where p f xs"
  by (simp add: update_where_def)

lemma update_where_append [simp]:
  "update_where p f (xs @ ys) = update_where p f xs @ update_where p f ys"
  by (simp add: update_where_def)

lemma length_update_where [simp]: "length (update_where p f xs) = length xs"
  by (simp add: update_where_def)

lemma set_update_where: "set (update_where p f xs) = (\<lambda>r. if p r then f r else r) ` set xs"
  by (simp add: update_where_def)

lemma update_where_cong:
  "(\<And>r. r \<in> set xs \<Longrightarrow> p r = q r) \<Longrightarrow> (\<And>r. r \<in> set xs \<Longrightarrow> q r \<Longrightarrow> f r = g r) \<Longrightarrow>
   update_where p f xs = update_where q g xs"
  by (simp add: update_where_def)

lemma update_where_idle: "(\<And>r. r \<in> set xs \<Longrightarrow> \<not> p r) \<Longrightarrow> update_where p f xs = xs"
  by (induction xs) auto

lemma map_update_where [table_simps]:
  "(\<And>r. p r \<Longrightarrow> k (f r) = k r) \<Longrightarrow> map k (update_where p f xs) = map k xs"
  by (simp add: update_where_def)

lemma in_update_whereE:
  assumes "r \<in> set (update_where p f xs)"
  obtains (kept) "r \<in> set xs" "\<not> p r" | (changed) q where "q \<in> set xs" "p q" "r = f q"
  using assms by (auto simp: set_update_where split: if_splits)

lemma in_update_whereI: "r \<in> set xs \<Longrightarrow> p r \<Longrightarrow> f r \<in> set (update_where p f xs)"
  unfolding set_update_where by (intro image_eqI[of _ _ r]) simp_all

lemma in_update_where_keep: "r \<in> set xs \<Longrightarrow> \<not> p r \<Longrightarrow> r \<in> set (update_where p f xs)"
  unfolding set_update_where by (intro image_eqI[of _ _ r]) simp_all

lemma count_where_Nil [simp]: "count_where p [] = 0"
  by (simp add: count_where_def)

lemma count_where_Cons [simp]:
  "count_where p (x # xs) = (if p x then 1 else 0) + count_where p xs"
  by (simp add: count_where_def)

lemma count_where_append [simp]: "count_where p (xs @ ys) = count_where p xs + count_where p ys"
  by (simp add: count_where_def)

lemma count_where_0_iff [simp]: "count_where p xs = 0 \<longleftrightarrow> (\<forall>r \<in> set xs. \<not> p r)"
  by (induction xs) auto

lemma count_where_mono:
  "(\<And>r. r \<in> set xs \<Longrightarrow> p r \<Longrightarrow> q r) \<Longrightarrow> count_where p xs \<le> count_where q xs"
  by (induction xs) auto

lemma count_where_cong:
  "(\<And>r. r \<in> set xs \<Longrightarrow> p r = q r) \<Longrightarrow> count_where p xs = count_where q xs"
  by (induction xs) auto

lemma count_where_update:
  "count_where p (update_where q f xs) = count_where (\<lambda>r. p (if q r then f r else r)) xs"
  by (induction xs) auto

lemma count_where_pos: "0 < count_where p xs \<longleftrightarrow> (\<exists>r \<in> set xs. p r)"
  by (induction xs) auto

lemma count_where_disj:
  "(\<And>r. r \<in> set xs \<Longrightarrow> \<not> (p r \<and> q r)) \<Longrightarrow>
   count_where (\<lambda>r. p r \<or> q r) xs = count_where p xs + count_where q xs"
  by (induction xs) auto

lemma count_where_filter: "count_where q (filter p xs) = count_where (\<lambda>r. p r \<and> q r) xs"
  by (induction xs) auto

lemma order_limit1_None [simp]: "order_limit1 k xs = None \<longleftrightarrow> xs = []"
  by (cases xs) (auto split: option.splits)

lemma order_limit1_in: "order_limit1 k xs = Some x \<Longrightarrow> x \<in> set xs"
  by (induction xs arbitrary: x) (auto split: option.splits if_splits)

lemma order_limit1_min: "order_limit1 k xs = Some x \<Longrightarrow> y \<in> set xs \<Longrightarrow> k x \<le> k y"
proof (induction xs arbitrary: x)
  case (Cons z zs)
  show ?case
  proof (cases "order_limit1 k zs")
    case None
    with Cons.prems show ?thesis by auto
  next
    case (Some w)
    then have w: "y \<in> set zs \<Longrightarrow> k w \<le> k y" using Cons.IH by simp
    from Some Cons.prems(1) have "x = (if k z \<le> k w then z else w)"
      by (simp split: if_splits)
    with w Cons.prems(2) show ?thesis by (auto intro: order_trans split: if_splits)
  qed
qed simp

lemma order_limit1_ex: "x \<in> set xs \<Longrightarrow> \<exists>y. order_limit1 k xs = Some y"
  by (cases "order_limit1 k xs") auto

text \<open>Rows with unique keys: a lookup by primary key finds at most one row.\<close>

definition lookup_by :: "('a \<Rightarrow> 'k) \<Rightarrow> 'k \<Rightarrow> 'a list \<Rightarrow> 'a option" where
  "lookup_by key k rows = find (\<lambda>r. key r = k) rows"

lemma lookup_by_simps [simp]:
  "lookup_by key k [] = None"
  "lookup_by key k (x # xs) = (if key x = k then Some x else lookup_by key k xs)"
  by (simp_all add: lookup_by_def)

lemma lookup_by_Some: "lookup_by key k rows = Some r \<Longrightarrow> r \<in> set rows \<and> key r = k"
  by (auto simp: lookup_by_def find_Some_iff)

lemma lookup_by_None: "lookup_by key k rows = None \<longleftrightarrow> k \<notin> key ` set rows"
  by (auto simp: lookup_by_def find_None_iff)

lemma lookup_by_distinct:
  "distinct (map key rows) \<Longrightarrow> r \<in> set rows \<Longrightarrow> lookup_by key (key r) rows = Some r"
  by (induction rows) (auto simp: image_iff)

lemma lookup_by_update:
  assumes "\<And>r. key (f r) = key r"
  shows "lookup_by key k (update_where p f rows) =
    map_option (\<lambda>r. if p r then f r else r) (lookup_by key k rows)"
  using assms by (induction rows) auto

lemma distinct_key_eq:
  "distinct (map key rows) \<Longrightarrow> r \<in> set rows \<Longrightarrow> q \<in> set rows \<Longrightarrow> key r = key q \<Longrightarrow> r = q"
  by (simp add: distinct_map inj_on_def)

lemma count_where_key:
  assumes "distinct (map key rows)"
  shows "count_where (\<lambda>r. key r = k \<and> p r) rows \<le> 1"
proof -
  have "length (filter (\<lambda>r. key r = k) rows) \<le> 1"
    using assms
  proof (induction rows)
    case (Cons x xs)
    then show ?case
      by (cases "key x = k") (auto simp: filter_empty_conv image_iff)
  qed simp
  moreover have "count_where (\<lambda>r. key r = k \<and> p r) rows \<le> count_where (\<lambda>r. key r = k) rows"
    by (rule count_where_mono) simp
  ultimately show ?thesis by (simp add: count_where_def)
qed

lemma count_where_key_1:
  assumes "distinct (map key rows)"
  shows "count_where (\<lambda>r. key r = k \<and> p r) rows = 1 \<longleftrightarrow>
    (\<exists>r. lookup_by key k rows = Some r \<and> p r)"
proof
  assume "count_where (\<lambda>r. key r = k \<and> p r) rows = 1"
  then have "0 < count_where (\<lambda>r. key r = k \<and> p r) rows" by simp
  then obtain r where "r \<in> set rows" "key r = k" "p r"
    by (auto simp: count_where_pos)
  then show "\<exists>r. lookup_by key k rows = Some r \<and> p r"
    using lookup_by_distinct[OF assms, of r] by simp
next
  assume "\<exists>r. lookup_by key k rows = Some r \<and> p r"
  then have "0 < count_where (\<lambda>r. key r = k \<and> p r) rows"
    by (auto simp: count_where_pos dest: lookup_by_Some)
  with count_where_key[OF assms, of k p]
  show "count_where (\<lambda>r. key r = k \<and> p r) rows = 1" by linarith
qed

text \<open>At most one row of a group satisfies a predicate: a partial unique index.\<close>

definition unique_where :: "('a \<Rightarrow> bool) \<Rightarrow> ('a \<Rightarrow> 'k) \<Rightarrow> 'a list \<Rightarrow> bool" where
  "unique_where p key rows = distinct (map key (filter p rows))"

lemma unique_where_Nil [simp]: "unique_where p key []"
  by (simp add: unique_where_def)

lemma unique_where_snoc [simp]:
  "unique_where p key (rows @ [r]) \<longleftrightarrow>
    unique_where p key rows \<and> (p r \<longrightarrow> key r \<notin> key ` set (filter p rows))"
  by (auto simp: unique_where_def)

lemma keys_update_keep:
  assumes "\<And>r. r \<in> set rows \<Longrightarrow> q r \<Longrightarrow> key (f r) = key r \<and> (p (f r) \<longrightarrow> p r)"
  shows "key ` set (filter p (update_where q f rows)) \<subseteq> key ` set (filter p rows)"
  using assms by (fastforce simp: set_update_where)

lemma unique_where_update_keep:
  assumes "unique_where p key rows"
    and "\<And>r. r \<in> set rows \<Longrightarrow> q r \<Longrightarrow> key (f r) = key r \<and> (p (f r) \<longrightarrow> p r)"
  shows "unique_where p key (update_where q f rows)"
  using assms
proof (induction rows)
  case (Cons x xs)
  have "key ` set (filter p (update_where q f xs)) \<subseteq> key ` set (filter p xs)"
    by (rule keys_update_keep) (simp add: Cons.prems(2))
  moreover have "unique_where p key (update_where q f xs)"
    using Cons.IH Cons.prems by (simp add: unique_where_def split: if_splits)
  ultimately show ?case
    using Cons.prems(1) Cons.prems(2)[of x] unfolding unique_where_def
    by (auto simp: subset_iff image_iff split: if_splits)
qed simp

lemma unique_whereD:
  assumes "unique_where p key rows" "r \<in> set rows" "q \<in> set rows" "p r" "p q" "key r = key q"
  shows "r = q"
  using assms by (auto simp: unique_where_def distinct_map inj_on_def)

lemma unique_where_count:
  assumes "unique_where p key rows"
  shows "count_where (\<lambda>r. p r \<and> key r = k) rows \<le> 1"
  using count_where_key[of key "filter p rows" k "\<lambda>_. True"] assms
  by (simp add: unique_where_def count_where_filter)

section \<open>Sorting\<close>

text \<open>
  \<^verbatim>\<open>sort.Slice\<close> with a comparator that is a strict linear order given by a key: the result is the
  list sorted by that key (\<^const>\<open>sort_key\<close>), \<^verbatim>\<open>sort.Strings\<close> is \<^const>\<open>sort\<close> on strings, whose order is
  the byte order of Go.
\<close>

section \<open>Strings\<close>

text \<open>
  The UTF-8 encodings of the code points \<^verbatim>\<open>unicode.IsSpace\<close> accepts; \<^verbatim>\<open>strings.TrimSpace\<close> removes
  them at both ends.
\<close>

definition go_spaces :: "string list" where
  "go_spaces =
     [[CHR 0x09], [CHR 0x0A], [CHR 0x0B], [CHR 0x0C], [CHR 0x0D], [CHR 0x20],
      [CHR 0xC2, CHR 0x85], [CHR 0xC2, CHR 0xA0], [CHR 0xE1, CHR 0x9A, CHR 0x80],
      [CHR 0xE2, CHR 0x80, CHR 0x80], [CHR 0xE2, CHR 0x80, CHR 0x81],
      [CHR 0xE2, CHR 0x80, CHR 0x82], [CHR 0xE2, CHR 0x80, CHR 0x83],
      [CHR 0xE2, CHR 0x80, CHR 0x84], [CHR 0xE2, CHR 0x80, CHR 0x85],
      [CHR 0xE2, CHR 0x80, CHR 0x86], [CHR 0xE2, CHR 0x80, CHR 0x87],
      [CHR 0xE2, CHR 0x80, CHR 0x88], [CHR 0xE2, CHR 0x80, CHR 0x89],
      [CHR 0xE2, CHR 0x80, CHR 0x8A], [CHR 0xE2, CHR 0x80, CHR 0xA8],
      [CHR 0xE2, CHR 0x80, CHR 0xA9], [CHR 0xE2, CHR 0x80, CHR 0xAF],
      [CHR 0xE2, CHR 0x81, CHR 0x9F], [CHR 0xE3, CHR 0x80, CHR 0x80]]"

function strip_prefixes :: "string list \<Rightarrow> string \<Rightarrow> string" where
  "strip_prefixes ws s =
     (case find (\<lambda>w. w \<noteq> [] \<and> take (length w) s = w) ws of
        None \<Rightarrow> s
      | Some w \<Rightarrow> strip_prefixes ws (drop (length w) s))"
  by pat_completeness auto
termination
proof (relation "measure (\<lambda>(ws, s). length s)", simp)
  fix ws :: "string list" and s w :: string
  assume "find (\<lambda>w. w \<noteq> [] \<and> take (length w) s = w) ws = Some w"
  then have "w \<noteq> []" "take (length w) s = w" by (auto simp: find_Some_iff)
  then have "s \<noteq> []" by auto
  with \<open>w \<noteq> []\<close> show "((ws, drop (length w) s), (ws, s)) \<in> measure (\<lambda>(ws, s). length s)"
    by simp
qed

declare strip_prefixes.simps [simp del]

definition TrimSpace :: "string \<Rightarrow> string" where
  "TrimSpace s = rev (strip_prefixes (map rev go_spaces) (rev (strip_prefixes go_spaces s)))"

lemma strip_prefixes_Nil [simp]: "strip_prefixes ws [] = []"
proof -
  have "find (\<lambda>w. w \<noteq> [] \<and> take (length w) [] = w) ws = None"
    by (auto simp: find_None_iff)
  then show ?thesis by (subst strip_prefixes.simps) simp
qed

lemma TrimSpace_Nil [simp]: "TrimSpace [] = []"
  by (simp add: TrimSpace_def)

text \<open>A string that starts and ends with printable ASCII characters is its own trimming.\<close>

definition printable :: "char \<Rightarrow> bool" where
  "printable c \<longleftrightarrow> (0x20 :: nat) < of_char c \<and> of_char c < (0x7F :: nat)"

lemma strip_prefixes_printable:
  assumes "printable c" and "\<And>w. w \<in> set ws \<Longrightarrow> w = [] \<or> \<not> printable (hd w)"
  shows "strip_prefixes ws (c # s) = c # s"
proof -
  have "find (\<lambda>w. w \<noteq> [] \<and> take (length w) (c # s) = w) ws = None"
  proof -
    have "\<not> (w \<noteq> [] \<and> take (length w) (c # s) = w)" if "w \<in> set ws" for w
      using assms(2)[OF that] assms(1) by (cases w) auto
    then show ?thesis by (simp add: find_None_iff)
  qed
  then show ?thesis by (subst strip_prefixes.simps) simp
qed

lemma go_spaces_heads: "w \<in> set go_spaces \<Longrightarrow> w = [] \<or> \<not> printable (hd w)"
proof -
  have "\<forall>w \<in> set go_spaces. \<not> printable (hd w)"
    by (simp add: go_spaces_def printable_def)
  then show "w \<in> set go_spaces \<Longrightarrow> w = [] \<or> \<not> printable (hd w)" by simp
qed

lemma go_spaces_lasts: "w \<in> set (map rev go_spaces) \<Longrightarrow> w = [] \<or> \<not> printable (hd w)"
proof -
  have "\<forall>w \<in> set (map rev go_spaces). \<not> printable (hd w)"
    by (simp add: go_spaces_def printable_def)
  then show "w \<in> set (map rev go_spaces) \<Longrightarrow> w = [] \<or> \<not> printable (hd w)" by blast
qed

lemma TrimSpace_id:
  assumes "s \<noteq> []" "printable (hd s)" "printable (last s)"
  shows "TrimSpace s = s"
proof -
  obtain c t where "s = c # t" using assms(1) by (cases s) auto
  then have l: "strip_prefixes go_spaces s = s"
    using assms(2) by (simp add: strip_prefixes_printable go_spaces_heads)
  obtain d u where du: "rev s = d # u" using assms(1) by (cases "rev s") auto
  then have "d = last s" by (metis hd_rev list.sel(1))
  then have "strip_prefixes (map rev go_spaces) (rev s) = rev s"
    using assms(3) strip_prefixes_printable[of d "map rev go_spaces" u] go_spaces_lasts
    unfolding du by blast
  with l show ?thesis by (simp add: TrimSpace_def)
qed

text \<open>Truncation of a Go string to at most \<open>n\<close> bytes, \<^verbatim>\<open>s[:n]\<close> behind a length test.\<close>

definition truncate_bytes :: "nat \<Rightarrow> string \<Rightarrow> string" where
  "truncate_bytes n s = (if length s > n then take n s else s)"

lemma length_truncate_bytes [simp]: "length (truncate_bytes n s) \<le> n"
  by (simp add: truncate_bytes_def)

lemma truncate_bytes_short [simp]: "length s \<le> n \<Longrightarrow> truncate_bytes n s = s"
  by (simp add: truncate_bytes_def)

end
