(* ===== verification/Database.thy ===== *)
theory Database
  imports Prelude
begin

text \<open>
  The PostgreSQL state the control plane shares: one record per table row
  (\<^verbatim>\<open>src/internal/migrations/sql\<close>) with the columns the modelled statements read or write, and the
  database as the record of its tables. A SQL \<^verbatim>\<open>NULL\<close> is \<^const>\<open>None\<close>; a comparison with it is not
  true. Columns that only feed displays (payloads of job events, JSON documents nobody reads back) are
  left out. Text columns with a \<^verbatim>\<open>CHECK\<close> over a fixed set of words are datatypes, the job and attempt
  states, which the schema leaves open, are strings.
\<close>

section \<open>Executors and leases\<close>

record worker =
  w_id :: string
  w_name :: string
  w_active :: bool \<comment> \<open>\<^verbatim>\<open>desired_state = 'active'\<close>; the other value is \<^verbatim>\<open>'draining'\<close>\<close>
  w_role :: string
  w_labels :: "string list"
  w_pressure :: "int option"
  w_protocol :: int
  w_last_seen :: "time option"
  w_generation :: int

datatype lease_kind = AttemptLease | AdmissionLease

record worker_lease =
  wl_id :: string
  wl_worker :: string
  wl_attempt :: string
  wl_fence :: int
  wl_kind :: lease_kind
  wl_expires :: time

section \<open>Build requests, jobs and attempts\<close>

record resolved_context =
  rc_provider :: string
  rc_zone :: string
  rc_arch :: string
  rc_build_mode :: string
  rc_profile :: string
  rc_image :: string
  rc_image_generation :: string
  rc_machine_spec :: "(string \<times> string) list"
  rc_max_runtime_minutes :: int
  rc_cost_per_minute :: int
  rc_egress_id :: string
  rc_egress_digest :: string
  rc_resolved_at :: time

text \<open>A configuration bundle is its Portage configuration, package set and metadata, of which only the
  creation stamp is treated apart from the rest.\<close>

record config_bundle =
  cb_content :: string
  cb_created_at :: string

record build_request =
  br_project :: string
  br_requested_by :: string
  br_package :: string
  br_version :: string
  br_arch :: string
  br_use_flags :: "string list"
  br_provider :: string
  br_profile :: string
  br_repositories :: "string list"
  br_resource_class :: string
  br_machine_spec :: "(string \<times> string) list"
  br_resolved :: "resolved_context option"
  br_bundle :: "config_bundle option"
  br_idempotency_key :: string

record build_status =
  bs_job :: string
  bs_project :: string
  bs_requested_by :: string
  bs_status :: string
  bs_error :: string
  bs_failed_stage :: string
  bs_created_at :: time
  bs_updated_at :: time
  bs_attempt :: string
  bs_fence :: int
  bs_lease_owner :: string

record build_job =
  bj_id :: string
  bj_project :: string
  bj_requested_by :: string
  bj_idempotency_key :: "string option"
  bj_state :: string
  bj_priority :: int
  bj_request :: build_request
  bj_request_digest :: string
  bj_snapshot :: build_status
  bj_status_digest :: string
  bj_max_attempts :: int
  bj_next_attempt_at :: time
  bj_created_at :: time
  bj_updated_at :: time
  bj_completed_at :: "time option"
  bj_cancel_requested_at :: "time option"
  bj_terminal_reason :: string
  bj_visible :: bool
  bj_min_protocol :: int
  bj_required :: "string list"
  bj_revision :: int

record build_attempt =
  ba_id :: string
  ba_job :: string
  ba_no :: int
  ba_state :: string
  ba_worker :: "string option"
  ba_fence :: int
  ba_failure_class :: string
  ba_failure_detail :: string
  ba_finished_at :: "time option"
  ba_created_at :: time
  ba_updated_at :: time

section \<open>Project accounting\<close>

record project_policy =
  pp_project :: string
  pp_suspended :: bool
  pp_abuse_until :: "time option"
  pp_abuse_reason :: string
  pp_abuse_generation :: int
  pp_max_active_jobs :: int
  pp_max_queued_jobs :: int
  pp_max_daily_submissions :: int
  pp_max_vcpus :: int
  pp_max_memory_mib :: int
  pp_max_disk_gib :: int
  pp_max_claimed :: int
  pp_max_provision :: int
  pp_max_build :: int
  pp_max_verify :: int
  pp_max_publish :: int
  pp_max_build_seconds :: int
  pp_max_cloud_cost :: int
  pp_max_failures :: int
  pp_abuse_cooldown :: int
  pp_weight :: int
  pp_starvation :: int

record reservation =
  rr_attempt :: string
  rr_project :: string
  rr_job :: string
  rr_vcpus :: int
  rr_memory_mib :: int
  rr_disk_gib :: int
  rr_phase :: string
  rr_active :: bool
  rr_released_at :: "time option"
  rr_release_reason :: string

record attempt_usage =
  au_attempt :: string
  au_project :: string
  au_job :: string
  au_day :: int
  au_max_runtime :: int
  au_rate :: int
  au_reserved_seconds :: int
  au_reserved_cost :: int
  au_charged_seconds :: int
  au_charged_cost :: int
  au_started :: time
  au_cloud_started :: "time option"
  au_active :: bool
  au_settled_at :: "time option"
  au_reason :: string

record fairness_row =
  sf_project :: string
  sf_admission_vruntime :: int
  sf_phase_vruntime :: int
  sf_admission_dispatches :: int
  sf_phase_dispatches :: int
  sf_admission_wait :: int
  sf_phase_wait :: int

record artifact_row =
  ar_attempt :: string
  ar_job :: string
  ar_active :: bool
  ar_bytes :: int
  ar_reason :: string

section \<open>Phase work\<close>

datatype phase_state = PBlocked | PReady | PClaimed | PCompleted | PFailed | PCanceled

record phase_item =
  pi_id :: string
  pi_project :: string
  pi_job :: string
  pi_attempt :: string
  pi_phase :: string
  pi_sequence :: int
  pi_active :: bool \<comment> \<open>\<^verbatim>\<open>execution_mode = 'active'\<close>; the other value is \<^verbatim>\<open>'shadow'\<close>\<close>
  pi_state :: phase_state
  pi_required :: "string list"
  pi_available_at :: time
  pi_ready_since :: "time option"
  pi_owner :: string
  pi_fence :: int
  pi_lease :: "time option"
  pi_started_at :: "time option"
  pi_finished_at :: "time option"
  pi_error :: string
  pi_created_at :: time
  pi_updated_at :: time

text \<open>\<^verbatim>\<open>PhaseInstanceContext\<close> and \<^verbatim>\<open>PhaseExecutionContext\<close> of \<^verbatim>\<open>src/internal/builder/manager.go\<close>: the hand-off
  document between the phases of an attempt. Go's nil and empty slices are both the empty list, which is
  what the \<^verbatim>\<open>omitempty\<close> tags make of them in the stored document.\<close>

record phase_instance =
  pn_id :: string
  pn_provider :: string
  pn_status :: string
  pn_ip_address :: string
  pn_public_ip :: string
  pn_private_ip :: string
  pn_arch :: string
  pn_metadata :: "(string \<times> string) list"
  pn_terraform_dir :: string
  pn_ssh_user :: string
  pn_builder_endpoint :: string
  pn_created_at :: time
  pn_ttl :: duration

record phase_context =
  px_instance :: "phase_instance option"
  px_worker :: string
  px_staging_root :: string
  px_verification_token :: string
  px_staged_artifacts :: "string list"
  px_staged_primary :: string
  px_signed :: bool
  px_signing_key :: string
  px_artifact_path :: string
  px_artifact_url :: string
  px_artifact_paths :: "string list"
  px_artifacts :: "string list"

record phase_context_row =
  pc_attempt :: string
  pc_project :: string
  pc_job :: string
  pc_fence :: int
  pc_sequence :: int
  pc_context :: phase_context
  pc_revision :: int

section \<open>The worker gateway\<close>

text \<open>
  \<^verbatim>\<open>00015_worker_gateway_spool.sql\<close> and \<^verbatim>\<open>00021_workload_issuer_lifecycle.sql\<close>: the sessions of disposable
  builders, the commands queued for them and the uploads they may make, and the public half of their
  certificates with the issuer generations that signed them. A \<^verbatim>\<open>jsonb\<close> value is represented by its text.
\<close>

datatype credential_state = CActive | CDraining | CRevoked
datatype command_state = CmdQueued | CmdDelivered | CmdCompleted | CmdFailed | CmdCanceled
datatype upload_state = UpReady | UpUploading | UpCompleted | UpCanceled

record issuer_generation =
  ig_fingerprint :: string
  ig_issuer :: string
  ig_provider :: string
  ig_subject :: string
  ig_serial :: string
  ig_not_before :: time
  ig_not_after :: time
  ig_state :: credential_state
  ig_last_issued :: time
  ig_revoked_at :: "time option"
  ig_reason :: string

record workload_certificate =
  wc_fingerprint :: string
  wc_serial :: string
  wc_issuer :: string
  wc_worker :: string
  wc_job :: string
  wc_attempt :: string
  wc_fence :: int
  wc_not_before :: time
  wc_not_after :: time
  wc_state :: credential_state
  wc_issued_at :: time
  wc_first_seen :: "time option"
  wc_last_seen :: "time option"
  wc_revoked_at :: "time option"
  wc_reason :: string

record gateway_session =
  gs_worker :: string
  gs_project :: string
  gs_job :: string
  gs_attempt :: string
  gs_fence :: int
  gs_state :: credential_state
  gs_certificate :: "string option"
  gs_connected :: "time option"
  gs_last_seen :: "time option"
  gs_revoked_at :: "time option"
  gs_reason :: string

record gateway_command =
  gc_id :: string
  gc_worker :: string
  gc_project :: string
  gc_job :: string
  gc_attempt :: string
  gc_action :: string
  gc_request :: string
  gc_state :: command_state
  gc_fence :: int
  gc_lease :: "time option"
  gc_response :: "string option"
  gc_error :: string
  gc_created_at :: time
  gc_delivered_at :: "time option"
  gc_completed_at :: "time option"

record gateway_upload =
  gu_id :: string
  gu_worker :: string
  gu_project :: string
  gu_job :: string
  gu_attempt :: string
  gu_destination :: string
  gu_max :: int
  gu_state :: upload_state
  gu_fence :: int
  gu_lease :: "time option"
  gu_digest :: string
  gu_size :: "int option"
  gu_completed_at :: "time option"

section \<open>Capacity ledger\<close>

datatype action_kind = ScaleUp | ScaleDown

datatype action_state =
  Requested | Claimed | WaitingForHeartbeat | WaitingForDrain | Completed | Failed | Canceled

datatype instance_state =
  Provisioning | Active | Draining | Deleting | Deleted | InstanceFailed

record pool_definition =
  pd_id :: string
  pd_provider :: string
  pd_zone :: string
  pd_arch :: string
  pd_build_mode :: string
  pd_profile :: string
  pd_image :: string
  pd_image_generation :: string
  pd_selector :: "string list"

record pool_row =
  pr_pool :: pool_definition
  pr_mode :: string
  pr_provider_max :: int
  pr_active :: int
  pr_busy :: int
  pr_backlog :: int
  pr_unschedulable :: int
  pr_desired :: int
  pr_recommendation :: string
  pr_reason :: string
  pr_under_target :: "time option"
  pr_last_changed :: "time option"
  pr_last_evaluated :: time

record capacity_action =
  ca_id :: string
  ca_pool :: string
  ca_kind :: action_kind
  ca_state :: action_state
  ca_requested_slots :: int
  ca_observed_slots :: int
  ca_delta_slots :: int
  ca_reason :: string
  ca_owner :: string
  ca_fence :: int
  ca_lease :: "time option"
  ca_attempts :: int
  ca_next_attempt :: time
  ca_detail :: string
  ca_requested_at :: time
  ca_claimed_at :: "time option"
  ca_completed_at :: "time option"

record capacity_instance =
  ci_id :: string
  ci_pool :: string
  ci_create :: string
  ci_delete :: "string option"
  ci_provider :: string
  ci_provider_id :: string
  ci_token :: string
  ci_generation :: int
  ci_state :: instance_state
  ci_remote_ref :: string
  ci_attributes :: "(string \<times> string) list"
  ci_heartbeat :: "time option"
  ci_drain_requested :: "time option"
  ci_deleted_at :: "time option"
  ci_created_at :: time

record autoscale_row =
  as_mode :: string
  as_active :: int
  as_busy :: int
  as_backlog :: int
  as_unschedulable :: int
  as_desired :: int
  as_recommendation :: string
  as_reason :: string
  as_under_target :: "time option"
  as_last_changed :: "time option"
  as_last_evaluated :: time

section \<open>Counters and journals\<close>

datatype expiry_kind = ExpAttempt | ExpAdmission | ExpPhase

datatype expiry_result = ResRequeued | ResFailed | ResCanceled | ResReclaimed

record expiry_counter =
  ec_kind :: expiry_kind
  ec_result :: expiry_result
  ec_total :: int

record worker_decision =
  wd_kind :: string
  wd_job :: string
  wd_phase :: string
  wd_worker :: string
  wd_candidates :: int
  wd_pressure :: int
  wd_failures :: int

section \<open>The database\<close>

record db =
  projects :: "(string \<times> string) list" \<comment> \<open>identifier and name\<close>
  workers :: "worker list"
  worker_leases :: "worker_lease list"
  build_jobs :: "build_job list"
  build_attempts :: "build_attempt list"
  project_policies :: "project_policy list"
  reservations :: "reservation list"
  attempt_usage :: "attempt_usage list"
  fairness :: "fairness_row list"
  artifact_generations :: "artifact_row list"
  artifact_budgets :: "artifact_row list"
  phase_items :: "phase_item list"
  phase_contexts :: "phase_context_row list"
  issuer_generations :: "issuer_generation list"
  gateway_certificates :: "workload_certificate list"
  gateway_sessions :: "gateway_session list"
  gateway_commands :: "gateway_command list"
  gateway_uploads :: "gateway_upload list"
  pools :: "pool_row list"
  actions :: "capacity_action list"
  instances :: "capacity_instance list"
  autoscale_state :: "autoscale_row option"
  expiry_counters :: "expiry_counter list"
  worker_decisions :: "worker_decision list"
  job_events :: "(string \<times> string) list"
  audit_events :: "(string \<times> string) list"

definition empty_db :: db where
  "empty_db = \<lparr>projects = [], workers = [], worker_leases = [], build_jobs = [], build_attempts = [],
     project_policies = [], reservations = [], attempt_usage = [], fairness = [],
     artifact_generations = [], artifact_budgets = [], phase_items = [], phase_contexts = [],
     issuer_generations = [], gateway_certificates = [], gateway_sessions = [], gateway_commands = [],
     gateway_uploads = [], pools = [], actions = [], instances = [], autoscale_state = None,
     expiry_counters = [], worker_decisions = [], job_events = [], audit_events = []\<rparr>"

section \<open>Predicates the statements share\<close>

text \<open>
  \<^verbatim>\<open>desired_state = 'active' AND last_seen_at > clock_timestamp() - interval 'n seconds'\<close>, label
  containment (\<^verbatim>\<open>NOT EXISTS ... jsonb_array_elements_text ... WHERE NOT (labels ? label)\<close>) and the
  protocol floor.
\<close>

definition worker_fresh :: "time \<Rightarrow> int \<Rightarrow> worker \<Rightarrow> bool" where
  "worker_fresh now n w =
     (w_active w \<and> (case w_last_seen w of None \<Rightarrow> False | Some t \<Rightarrow> t > now - seconds n))"

definition has_label :: "worker \<Rightarrow> string \<Rightarrow> bool" where
  "has_label w l = (l \<in> set (w_labels w))"

definition has_labels :: "worker \<Rightarrow> string list \<Rightarrow> bool" where
  "has_labels w req = list_all (has_label w) req"

definition worker_serves :: "time \<Rightarrow> int \<Rightarrow> string list \<Rightarrow> worker \<Rightarrow> bool" where
  "worker_serves now proto req w =
     (worker_fresh now 45 w \<and> w_protocol w \<ge> proto \<and> has_labels w req)"

definition expires_after :: "time option \<Rightarrow> time \<Rightarrow> bool" where
  "expires_after e now = (case e of None \<Rightarrow> False | Some t \<Rightarrow> t > now)"

lemma expires_after_simps [simp]:
  "\<not> expires_after None now"
  "expires_after (Some t) now \<longleftrightarrow> now < t"
  by (simp_all add: expires_after_def)

lemma has_labels_mono: "set r \<subseteq> set q \<Longrightarrow> has_labels w q \<Longrightarrow> has_labels w r"
  by (auto simp: has_labels_def list_all_iff)

lemma worker_fresh_mono: "m \<le> n \<Longrightarrow> worker_fresh now m w \<Longrightarrow> worker_fresh now n w"
  unfolding worker_fresh_def using seconds_mono[of m n] by (auto split: option.splits simp del: seconds_mono)

end
