(* ===== verification/Capabilities.thy ===== *)
theory Capabilities
  imports Database
begin

text \<open>
  \<^verbatim>\<open>src/internal/builder/capabilities.go\<close>: executor capability labels, their normal form, the identity
  of a capacity pool and the labels a phase of a build requires. The SHA-256 digest behind a pool
  identity is the parameter \<open>sha256\<close> (the 32 bytes of \<^verbatim>\<open>crypto/sha256\<close>); nothing below depends on more
  than that it is a function.
\<close>

section \<open>The label grammar\<close>

definition in_range :: "char \<Rightarrow> char \<Rightarrow> char \<Rightarrow> bool" where
  "in_range lo hi c = (lo \<le> c \<and> c \<le> hi)"

definition lower :: "char \<Rightarrow> bool" where
  "lower c = in_range CHR ''a'' CHR ''z'' c"

definition digit :: "char \<Rightarrow> bool" where
  "digit c = in_range CHR ''0'' CHR ''9'' c"

definition alnum :: "char \<Rightarrow> bool" where
  "alnum c = (lower c \<or> in_range CHR ''A'' CHR ''Z'' c \<or> digit c)"

text \<open>
  \<^verbatim>\<open>^[a-z][a-z0-9-]{0,31}:[a-zA-Z0-9][a-zA-Z0-9+._/@:-]{0,479}$\<close>. The first class has no colon, so
  the colon the expression matches is the first one of the string.
\<close>

definition executorCapabilityPattern :: "string \<Rightarrow> bool" where
  "executorCapabilityPattern s =
     (case (takeWhile (\<lambda>c. c \<noteq> CHR '':'') s, dropWhile (\<lambda>c. c \<noteq> CHR '':'') s) of
        (p # ps, _ # v # vs) \<Rightarrow>
          lower p \<and> length ps \<le> 31 \<and>
          list_all (\<lambda>c. lower c \<or> digit c \<or> c = CHR ''-'') ps \<and>
          alnum v \<and> length vs \<le> 479 \<and>
          list_all (\<lambda>c. alnum c \<or> c \<in> set ''+._/@:-'') vs
      | _ \<Rightarrow> False)"

section \<open>Normal form of a label set\<close>

datatype capability_error =
    LabelCount \<comment> \<open>not 1..4096 labels\<close>
  | InvalidLabel string
  | UnsupportedPhase string
  | PoolDimensionsIncomplete
  | RequestRequired

definition maxExecutorCapabilities :: nat where
  "maxExecutorCapabilities = 4096"

fun normalize_labels :: "string list \<Rightarrow> string list \<Rightarrow> (capability_error, string list) result" where
  "normalize_labels [] normalized = Inr normalized"
| "normalize_labels (label # labels) normalized =
     (let l = TrimSpace label in
      if \<not> executorCapabilityPattern l then Inl (InvalidLabel l)
      else if l \<in> set normalized then normalize_labels labels normalized
      else normalize_labels labels (normalized @ [l]))"

definition NormalizeExecutorCapabilities ::
    "string list \<Rightarrow> (capability_error, string list) result" where
  "NormalizeExecutorCapabilities labels =
     (if labels = [] \<or> length labels > maxExecutorCapabilities then Inl LabelCount
      else bind_result (normalize_labels labels []) (\<lambda>ls. Inr (sort ls)))"

section \<open>Capacity pools and phase requirements\<close>

definition hex_digits :: string where
  "hex_digits = ''0123456789abcdef''"

fun hex_encode :: "string \<Rightarrow> string" where
  "hex_encode [] = []"
| "hex_encode (b # bs) =
     hex_digits ! (of_char b div 16) # hex_digits ! (of_char b mod 16) # hex_encode bs"

fun join :: "string \<Rightarrow> string list \<Rightarrow> string" where
  "join sep [] = []"
| "join sep [s] = s"
| "join sep (s # t # ts) = s @ sep @ join sep (t # ts)"

definition defaultExecutionZone :: string where
  "defaultExecutionZone = ''default''"

definition effective_zone :: "resolved_context \<Rightarrow> string" where
  "effective_zone r =
     (let z = TrimSpace (rc_zone r) in if z = [] then defaultExecutionZone else z)"

definition pool_dimensions :: "resolved_context \<Rightarrow> string list" where
  "pool_dimensions r =
     [TrimSpace (rc_provider r), effective_zone r, TrimSpace (rc_arch r),
      TrimSpace (rc_build_mode r), TrimSpace (rc_profile r), TrimSpace (rc_image r),
      TrimSpace (rc_image_generation r)]"

definition CapacityPoolID ::
    "(string \<Rightarrow> string) \<Rightarrow> resolved_context \<Rightarrow> (capability_error, string) result" where
  "CapacityPoolID sha256 r =
     (let parts = pool_dimensions r in
      if [] \<in> set parts then Inl PoolDimensionsIncomplete
      else Inr (join ''-'' (take 3 parts) @ ''-'' @
                hex_encode (take 12 (sha256 (join [CHR 0x00] parts)))))"

definition capacityPoolDefinition ::
    "(string \<Rightarrow> string) \<Rightarrow> resolved_context \<Rightarrow> (capability_error, pool_definition) result" where
  "capacityPoolDefinition sha256 r =
     bind_result (CapacityPoolID sha256 r) (\<lambda>i.
     bind_result (NormalizeExecutorCapabilities
       [''capacity-pool:'' @ i, ''provider:'' @ rc_provider r, ''zone:'' @ effective_zone r,
        ''arch:'' @ rc_arch r, ''build-mode:'' @ rc_build_mode r, ''profile:'' @ rc_profile r,
        ''image:'' @ rc_image r @ ''@'' @ rc_image_generation r]) (\<lambda>sel.
     Inr \<lparr>pd_id = i, pd_provider = rc_provider r, pd_zone = effective_zone r,
          pd_arch = rc_arch r, pd_build_mode = rc_build_mode r, pd_profile = rc_profile r,
          pd_image = rc_image r, pd_image_generation = rc_image_generation r,
          pd_selector = sel\<rparr>))"

text \<open>A nil \<^verbatim>\<open>*BuildRequest\<close> is \<^const>\<open>None\<close>.\<close>

definition PhaseCapabilityRequirements ::
    "(string \<Rightarrow> string) \<Rightarrow> build_request option \<Rightarrow> string \<Rightarrow> (capability_error, string list) result" where
  "PhaseCapabilityRequirements sha256 request phase =
     (if phase \<notin> {''provision'', ''build'', ''verify'', ''publish''} then Inl (UnsupportedPhase phase)
      else case request of
        None \<Rightarrow> Inl RequestRequired
      | Some q \<Rightarrow>
        (case br_resolved q of
           None \<Rightarrow> NormalizeExecutorCapabilities [''phase:'' @ phase, ''context:legacy'']
         | Some r \<Rightarrow>
           bind_result (CapacityPoolID sha256 r) (\<lambda>i.
             NormalizeExecutorCapabilities
               ([''phase:'' @ phase, ''capacity-pool:'' @ i, ''zone:'' @ effective_zone r,
                 ''provider:'' @ rc_provider r, ''arch:'' @ rc_arch r,
                 ''build-mode:'' @ rc_build_mode r, ''profile:'' @ rc_profile r,
                 ''image:'' @ rc_image r @ ''@'' @ rc_image_generation r] @
                (if rc_egress_id r \<noteq> [] \<and> rc_egress_digest r \<noteq> []
                 then [''egress:'' @ rc_egress_id r @ ''@'' @ rc_egress_digest r] else [])))))"

text \<open>\<^verbatim>\<open>workerKindCapabilities\<close> falls back to the labels it was given when they do not normalise.\<close>

definition workerKindCapabilities :: "string list \<Rightarrow> string \<Rightarrow> string list" where
  "workerKindCapabilities labels kind =
     (case NormalizeExecutorCapabilities (labels @ [''worker-kind:'' @ kind]) of
        Inl _ \<Rightarrow> labels
      | Inr normalized \<Rightarrow> normalized)"

text \<open>\<^verbatim>\<open>bindCapacityInstance\<close> with the configured \<^verbatim>\<open>ExecutorCapacityInstanceID\<close>.\<close>

definition bindCapacityInstance ::
    "string \<Rightarrow> string list \<Rightarrow> (capability_error, string list) result" where
  "bindCapacityInstance configured labels =
     (let i = TrimSpace configured in
      NormalizeExecutorCapabilities
        (if i \<noteq> [] then labels @ [''capacity-instance:'' @ i] else labels))"

section \<open>Properties of the normal form\<close>

lemma pattern_shape:
  assumes "executorCapabilityPattern s"
  obtains p ps v vs where "s = p # ps @ CHR '':'' # v # vs" "lower p"
    "list_all (\<lambda>c. lower c \<or> digit c \<or> c = CHR ''-'') ps" "alnum v"
    "list_all (\<lambda>c. alnum c \<or> c \<in> set ''+._/@:-'') vs"
    "length ps \<le> 31" "length vs \<le> 479"
proof -
  obtain p ps x v vs where
    tw: "takeWhile (\<lambda>c. c \<noteq> CHR '':'') s = p # ps" and
    dw: "dropWhile (\<lambda>c. c \<noteq> CHR '':'') s = x # v # vs" and
    rest: "lower p" "list_all (\<lambda>c. lower c \<or> digit c \<or> c = CHR ''-'') ps" "alnum v"
      "list_all (\<lambda>c. alnum c \<or> c \<in> set ''+._/@:-'') vs" "length ps \<le> 31" "length vs \<le> 479"
    using assms unfolding executorCapabilityPattern_def by (auto split: list.splits)
  have "x = CHR '':''" using dw hd_dropWhile[of "\<lambda>c. c \<noteq> CHR '':''" s] by auto
  moreover have "s = (p # ps) @ x # v # vs"
    using tw dw takeWhile_dropWhile_id[of "\<lambda>c. c \<noteq> CHR '':''" s] by simp
  ultimately show thesis using that rest by simp
qed

lemma printable_lower: "lower c \<Longrightarrow> printable c"
  by (simp add: lower_def in_range_def printable_def less_eq_char_def)

lemma printable_alnum: "alnum c \<Longrightarrow> printable c"
  by (auto simp: alnum_def lower_def digit_def in_range_def printable_def less_eq_char_def)

lemma printable_tail: "alnum c \<or> c \<in> set ''+._/@:-'' \<Longrightarrow> printable c"
  using printable_alnum by (auto simp: printable_def)

lemma pattern_TrimSpace:
  assumes "executorCapabilityPattern s" shows "TrimSpace s = s"
proof -
  obtain p ps v vs where s: "s = p # ps @ CHR '':'' # v # vs" and "lower p" "alnum v"
    and vs: "list_all (\<lambda>c. alnum c \<or> c \<in> set ''+._/@:-'') vs"
    by (rule pattern_shape[OF assms])
  have "printable (last s)"
  proof (cases vs rule: rev_cases)
    case Nil
    then show ?thesis using s \<open>alnum v\<close> printable_alnum by simp
  next
    case (snoc ys y)
    then have "alnum y \<or> y \<in> set ''+._/@:-''" using vs by (simp add: list_all_iff)
    with snoc s show ?thesis using printable_tail by simp
  qed
  with s \<open>lower p\<close> show ?thesis by (intro TrimSpace_id) (auto intro: printable_lower)
qed

lemma normalize_labels_error:
  "normalize_labels labels acc = Inl e \<longleftrightarrow>
    (\<exists>l. find (\<lambda>l. \<not> executorCapabilityPattern (TrimSpace l)) labels = Some l \<and>
         e = InvalidLabel (TrimSpace l))"
  by (induction labels arbitrary: acc) (auto simp: Let_def)

lemma normalize_labels_ok:
  assumes "normalize_labels labels acc = Inr ls" "distinct acc"
  shows "distinct ls \<and> set ls = set acc \<union> TrimSpace ` set labels \<and>
    length ls \<le> length acc + length labels"
  using assms
proof (induction labels arbitrary: acc)
  case (Cons l labels)
  show ?case
  proof (cases "TrimSpace l \<in> set acc")
    case True
    then have "normalize_labels labels acc = Inr ls"
      using Cons.prems(1) by (auto simp: Let_def split: if_splits)
    from Cons.IH[OF this Cons.prems(2)] True show ?thesis by auto
  next
    case False
    then have "normalize_labels labels (acc @ [TrimSpace l]) = Inr ls"
      using Cons.prems(1) by (auto simp: Let_def split: if_splits)
    from Cons.IH[OF this] Cons.prems(2) False show ?thesis by auto
  qed
qed simp

lemma sort_distinct_set: "distinct xs \<Longrightarrow> sort xs = sorted_list_of_set (set xs)"
  by (simp add: sorted_list_of_set_sort_remdups distinct_remdups_id)

text \<open>The normal form as a specification: the sorted list of the distinct trimmed labels, or the
  first label outside the grammar.\<close>

definition normal_form :: "string list \<Rightarrow> (capability_error, string list) result" where
  "normal_form labels =
     (if labels = [] \<or> length labels > 4096 then Inl LabelCount
      else case find (\<lambda>l. \<not> executorCapabilityPattern (TrimSpace l)) labels of
             Some l \<Rightarrow> Inl (InvalidLabel (TrimSpace l))
           | None \<Rightarrow> Inr (sorted_list_of_set (TrimSpace ` set labels)))"

lemma Normalize_normal_form: "NormalizeExecutorCapabilities labels = normal_form labels"
proof (cases "normalize_labels labels []")
  case (Inl e)
  then obtain l where "find (\<lambda>l. \<not> executorCapabilityPattern (TrimSpace l)) labels = Some l"
    and "e = InvalidLabel (TrimSpace l)" using normalize_labels_error by blast
  then show ?thesis
    by (simp add: NormalizeExecutorCapabilities_def normal_form_def Inl maxExecutorCapabilities_def)
next
  case (Inr ls)
  then have "find (\<lambda>l. \<not> executorCapabilityPattern (TrimSpace l)) labels = None"
    using normalize_labels_error[of labels "[]"] by (cases "find (\<lambda>l. \<not> executorCapabilityPattern (TrimSpace l)) labels") auto
  moreover have "sort ls = sorted_list_of_set (TrimSpace ` set labels)"
    using normalize_labels_ok[OF Inr] by (simp add: sort_distinct_set)
  ultimately show ?thesis
    by (simp add: NormalizeExecutorCapabilities_def normal_form_def Inr maxExecutorCapabilities_def)
qed

lemma Normalize_InrD:
  assumes "NormalizeExecutorCapabilities labels = Inr ls"
  shows "sorted ls" "distinct ls" "set ls = TrimSpace ` set labels" "ls \<noteq> []"
    "length ls \<le> 4096" "\<And>l. l \<in> set ls \<Longrightarrow> executorCapabilityPattern l"
proof -
  have ne: "labels \<noteq> []" "length labels \<le> 4096"
    and f: "find (\<lambda>l. \<not> executorCapabilityPattern (TrimSpace l)) labels = None"
    and ls: "ls = sorted_list_of_set (TrimSpace ` set labels)"
    using assms by (auto simp: Normalize_normal_form normal_form_def split: if_splits option.splits)
  show "sorted ls" "distinct ls" "set ls = TrimSpace ` set labels" using ls by auto
  then show "ls \<noteq> []" using ne by auto
  have "length ls = card (TrimSpace ` set labels)" using ls by simp
  also have "\<dots> \<le> length labels" by (metis card_image_le card_length le_trans List.finite_set)
  finally show "length ls \<le> 4096" using ne by simp
  show "executorCapabilityPattern l" if "l \<in> set ls" for l
    using that \<open>set ls = TrimSpace ` set labels\<close> f by (auto simp: find_None_iff)
qed

lemma Normalize_fixpoint:
  assumes "NormalizeExecutorCapabilities labels = Inr ls"
  shows "NormalizeExecutorCapabilities ls = Inr ls"
proof -
  note N = Normalize_InrD[OF assms]
  have id: "TrimSpace l = l" if "l \<in> set ls" for l using N(6)[OF that] by (rule pattern_TrimSpace)
  then have "TrimSpace ` set ls = set ls" by (simp cong: image_cong)
  moreover have "find (\<lambda>l. \<not> executorCapabilityPattern (TrimSpace l)) ls = None"
    using N(6) id by (auto simp: find_None_iff)
  moreover have "sorted_list_of_set (set ls) = ls"
    using N(1,2) by (rule sorted_list_of_set.idem_if_sorted_distinct)
  ultimately show ?thesis
    using N(4,5) by (simp add: Normalize_normal_form normal_form_def)
qed

lemma requirements_resolved:
  assumes "PhaseCapabilityRequirements sha256 (Some q) phase = Inr req" "br_resolved q = Some r"
  obtains i where "CapacityPoolID sha256 r = Inr i"
    "NormalizeExecutorCapabilities
       ([''phase:'' @ phase, ''capacity-pool:'' @ i, ''zone:'' @ effective_zone r,
         ''provider:'' @ rc_provider r, ''arch:'' @ rc_arch r,
         ''build-mode:'' @ rc_build_mode r, ''profile:'' @ rc_profile r,
         ''image:'' @ rc_image r @ ''@'' @ rc_image_generation r] @
        (if rc_egress_id r \<noteq> [] \<and> rc_egress_digest r \<noteq> []
         then [''egress:'' @ rc_egress_id r @ ''@'' @ rc_egress_digest r] else [])) = Inr req"
  using assms by (auto simp: PhaseCapabilityRequirements_def bind_result_Inr split: if_splits)

lemma pool_definitionE:
  assumes "capacityPoolDefinition sha256 r = Inr p"
  obtains i where "CapacityPoolID sha256 r = Inr i" "pd_id p = i" "pd_provider p = rc_provider r"
    "NormalizeExecutorCapabilities
       [''capacity-pool:'' @ i, ''provider:'' @ rc_provider r, ''zone:'' @ effective_zone r,
        ''arch:'' @ rc_arch r, ''build-mode:'' @ rc_build_mode r, ''profile:'' @ rc_profile r,
        ''image:'' @ rc_image r @ ''@'' @ rc_image_generation r] = Inr (pd_selector p)"
  using assms by (auto simp: capacityPoolDefinition_def bind_result_Inr)

lemma selector_subset_requirements:
  assumes "capacityPoolDefinition sha256 r = Inr p"
    and "PhaseCapabilityRequirements sha256 (Some q) phase = Inr req" and "br_resolved q = Some r"
  shows "set (pd_selector p) \<subseteq> set req"
proof -
  obtain i where i: "CapacityPoolID sha256 r = Inr i" and
    sel: "NormalizeExecutorCapabilities
       [''capacity-pool:'' @ i, ''provider:'' @ rc_provider r, ''zone:'' @ effective_zone r,
        ''arch:'' @ rc_arch r, ''build-mode:'' @ rc_build_mode r, ''profile:'' @ rc_profile r,
        ''image:'' @ rc_image r @ ''@'' @ rc_image_generation r] = Inr (pd_selector p)"
    by (rule pool_definitionE[OF assms(1)])
  obtain j where "CapacityPoolID sha256 r = Inr j" and
    req: "NormalizeExecutorCapabilities
       ([''phase:'' @ phase, ''capacity-pool:'' @ j, ''zone:'' @ effective_zone r,
         ''provider:'' @ rc_provider r, ''arch:'' @ rc_arch r,
         ''build-mode:'' @ rc_build_mode r, ''profile:'' @ rc_profile r,
         ''image:'' @ rc_image r @ ''@'' @ rc_image_generation r] @
        (if rc_egress_id r \<noteq> [] \<and> rc_egress_digest r \<noteq> []
         then [''egress:'' @ rc_egress_id r @ ''@'' @ rc_egress_digest r] else [])) = Inr req"
    by (rule requirements_resolved[OF assms(2,3)])
  then have "i = j" using i by simp
  show ?thesis
    unfolding Normalize_InrD(3)[OF sel] Normalize_InrD(3)[OF req] \<open>i = j\<close> by auto
qed

lemma hex_encode_chars: "set (hex_encode bs) \<subseteq> set hex_digits"
proof (induction bs)
  case (Cons b bs)
  have len: "length hex_digits = 16" by (simp add: hex_digits_def)
  have "of_char b < (256 :: nat)" by simp
  then have "of_char b div 16 < (16 :: nat)" by presburger
  then have "of_char b div 16 < length hex_digits" "of_char b mod 16 < length hex_digits"
    unfolding len by simp_all
  then show ?case using Cons.IH by (auto intro: nth_mem)
qed simp

lemma pool_id_last:
  assumes "CapacityPoolID sha256 r = Inr i" shows "printable (last i)"
proof -
  obtain pre bs where i: "i = pre @ ''-'' @ hex_encode bs"
    using assms by (auto simp: CapacityPoolID_def Let_def split: if_splits)
  have hex: "\<forall>c \<in> set hex_digits. printable c"
    by (simp add: hex_digits_def printable_def)
  show ?thesis
  proof (cases "hex_encode bs = []")
    case True
    then show ?thesis using i by (simp add: printable_def)
  next
    case False
    then have "last i = last (hex_encode bs)" using i by simp
    moreover have "last (hex_encode bs) \<in> set hex_digits"
      using False hex_encode_chars last_in_set by blast
    ultimately show ?thesis using hex by simp
  qed
qed

lemma selector_pool_label:
  assumes "capacityPoolDefinition sha256 r = Inr p"
  shows "''capacity-pool:'' @ pd_id p \<in> set (pd_selector p)"
proof -
  obtain i where id: "CapacityPoolID sha256 r = Inr i" and i: "pd_id p = i" and
    sel: "NormalizeExecutorCapabilities
       [''capacity-pool:'' @ i, ''provider:'' @ rc_provider r, ''zone:'' @ effective_zone r,
        ''arch:'' @ rc_arch r, ''build-mode:'' @ rc_build_mode r, ''profile:'' @ rc_profile r,
        ''image:'' @ rc_image r @ ''@'' @ rc_image_generation r] = Inr (pd_selector p)"
    by (rule pool_definitionE[OF assms])
  have t: "TrimSpace (''capacity-pool:'' @ i) \<in> set (pd_selector p)"
    unfolding Normalize_InrD(3)[OF sel] by simp
  have "printable (last (''capacity-pool:'' @ i))"
    using pool_id_last[OF id] by (cases "i = []") (auto simp: printable_def)
  then have "TrimSpace (''capacity-pool:'' @ i) = ''capacity-pool:'' @ i"
    by (intro TrimSpace_id) (auto simp: printable_def)
  with t i show ?thesis by simp
qed

section \<open>Routing\<close>

text \<open>C37: Normalising executor capability labels returns exactly the sorted duplicate-free list of the
  trimmed labels when there are between one and 4096 of them and all match the label grammar, and
  otherwise names the first offending label.\<close>

theorem capabilities_normal_form:
  "NormalizeExecutorCapabilities labels = normal_form labels"
  by (rule Normalize_normal_form)

text \<open>C36: Routing and pool accounting agree: every worker that satisfies a phase's requirements of a
  resolved request carries the whole selector of the request's capacity pool, the pool's own label
  included, so it is counted as capacity of that pool and of no executor outside it.\<close>

theorem phase_workers_belong_to_pool:
  assumes "capacityPoolDefinition sha256 r = Inr p" "br_resolved q = Some r"
    and "PhaseCapabilityRequirements sha256 (Some q) phase = Inr req" "worker_serves now proto req w"
  shows "has_labels w (pd_selector p) \<and> has_label w (''capacity-pool:'' @ pd_id p)"
proof -
  have "has_labels w (pd_selector p)"
    using has_labels_mono[OF selector_subset_requirements[OF assms(1,3,2)]] assms(4)
    by (simp add: worker_serves_def)
  moreover from this have "has_label w (''capacity-pool:'' @ pd_id p)"
    using selector_pool_label[OF assms(1)] by (simp add: has_labels_def list_all_iff)
  ultimately show ?thesis by simp
qed

definition example_context :: resolved_context where
  "example_context = \<lparr>rc_provider = ''pve'', rc_zone = [], rc_arch = ''amd64'', rc_build_mode = ''vm'',
     rc_profile = ''base'', rc_image = ''img'', rc_image_generation = ''7'', rc_machine_spec = [],
     rc_max_runtime_minutes = 60, rc_cost_per_minute = 2, rc_egress_id = [], rc_egress_digest = [],
     rc_resolved_at = 0\<rparr>"

definition example_request :: build_request where
  "example_request = \<lparr>br_project = ''p'', br_requested_by = ''u'', br_package = ''app-misc/jq'',
     br_version = ''1.7'', br_arch = ''amd64'', br_use_flags = [], br_provider = ''pve'', br_profile = ''base'',
     br_repositories = [], br_resource_class = [], br_machine_spec = [],
     br_resolved = Some example_context, br_bundle = None, br_idempotency_key = []\<rparr>"

definition example_labels :: "string list" where
  "example_labels = [''arch:amd64'', ''build-mode:vm'', ''capacity-pool:pve-default-amd64-4142'', ''image:img@7'',
     ''phase:build'', ''profile:base'', ''provider:pve'', ''zone:default'']"

definition example_worker :: worker where
  "example_worker = \<lparr>w_id = ''w'', w_name = ''w'', w_active = True, w_role = ''phase-executor'',
     w_labels = example_labels, w_pressure = None, w_protocol = 5, w_last_seen = Some 0, w_generation = 1\<rparr>"

theorem phase_workers_belong_to_pool_witness:
  "has_label example_worker ''capacity-pool:pve-default-amd64-4142''"
proof -
  have "case capacityPoolDefinition (\<lambda>_. ''AB'') example_context of
      Inl e \<Rightarrow> False | Inr p \<Rightarrow> pd_id p = ''pve-default-amd64-4142''"
    by code_simp
  then obtain p where p: "capacityPoolDefinition (\<lambda>_. ''AB'') example_context = Inr p"
    "pd_id p = ''pve-default-amd64-4142''"
    by (cases "capacityPoolDefinition (\<lambda>_. ''AB'') example_context") auto
  have r: "PhaseCapabilityRequirements (\<lambda>_. ''AB'') (Some example_request) ''build'' = Inr example_labels"
    by code_simp
  have w: "worker_serves 0 5 example_labels example_worker"
    by code_simp
  have q: "br_resolved example_request = Some example_context" by (simp add: example_request_def)
  from phase_workers_belong_to_pool[OF p(1) q r w] p(2) show ?thesis by simp
qed

end
