(* ===== verification/Autoscale.thy ===== *)
theory Autoscale
  imports Capabilities
begin

text \<open>
  The decision half of \<^verbatim>\<open>src/internal/persistence/autoscale.go\<close>: the demand a reconcile pass observes,
  the validation of the operator's policy, and \<^verbatim>\<open>decideAutoscale\<close>, the pure step from an observation
  and the durable decision state to the next desired slot count. A Go \<^verbatim>\<open>int\<close> is an unbounded integer
  here: slot counts and backlogs are bounded by table sizes far below \<^verbatim>\<open>2^63\<close>.
\<close>

section \<open>Number formatting and division of Go\<close>

fun show_nat :: "nat \<Rightarrow> string" where
  "show_nat n = (if n < 10 then [char_of (48 + n)] else show_nat (n div 10) @ [char_of (48 + n mod 10)])"

declare show_nat.simps [simp del]

definition show_int :: "int \<Rightarrow> string" where
  "show_int i = (if i < 0 then CHR ''-'' # show_nat (nat (- i)) else show_nat (nat i))"

text \<open>Integer division of Go truncates towards zero.\<close>

definition go_div :: "int \<Rightarrow> int \<Rightarrow> int" where
  "go_div a b = sgn a * sgn b * (\<bar>a\<bar> div \<bar>b\<bar>)"

lemma go_div_nonneg [simp]: "0 \<le> a \<Longrightarrow> 0 < b \<Longrightarrow> go_div a b = a div b"
  by (cases "a = 0") (simp_all add: go_div_def)

section \<open>Policies\<close>

record autoscale_policy =
  ap_mode :: string
  ap_min :: int
  ap_max :: int
  ap_target :: int
  ap_cooldown :: duration
  ap_delay :: duration
  ap_pools :: "pool_definition list"
  ap_provider_max :: "string \<rightharpoonup> int"

definition provider_limit :: "autoscale_policy \<Rightarrow> string \<Rightarrow> int" where
  "provider_limit policy provider =
     (case ap_provider_max policy provider of None \<Rightarrow> 0 | Some n \<Rightarrow> n)"

datatype policy_error =
    ModeUnknown
  | PolicyInvalid
  | TooManyPools
  | DimensionsIncomplete
  | DuplicatePool string
  | SelectorInvalid string capability_error
  | SelectorOmitsPool string
  | ProviderLimitMissing string

fun validate_pools ::
    "autoscale_policy \<Rightarrow> pool_definition list \<Rightarrow> string list \<Rightarrow> (policy_error, unit) result" where
  "validate_pools policy [] seen = Inr ()"
| "validate_pools policy (pool # rest) seen =
     (if [] \<in> set (map TrimSpace [pd_id pool, pd_provider pool, pd_zone pool, pd_arch pool,
            pd_profile pool, pd_image pool, pd_image_generation pool])
      then Inl DimensionsIncomplete
      else if pd_id pool \<in> set seen then Inl (DuplicatePool (pd_id pool))
      else case NormalizeExecutorCapabilities (pd_selector pool) of
             Inl e \<Rightarrow> Inl (SelectorInvalid (pd_id pool) e)
           | Inr selector \<Rightarrow>
             if ''capacity-pool:'' @ pd_id pool \<notin> set selector
             then Inl (SelectorOmitsPool (pd_id pool))
             else if ap_mode policy = ''actuate'' \<and>
                     (provider_limit policy (pd_provider pool) \<le> 0 \<or>
                      provider_limit policy (pd_provider pool) > 10000)
             then Inl (ProviderLimitMissing (pd_provider pool))
             else validate_pools policy rest (pd_id pool # seen))"

definition validateAutoscalePolicy :: "autoscale_policy \<Rightarrow> (policy_error, unit) result" where
  "validateAutoscalePolicy policy =
     (if ap_mode policy \<noteq> ''off'' \<and> ap_mode policy \<noteq> ''observe'' \<and> ap_mode policy \<noteq> ''actuate''
      then Inl ModeUnknown
      else if ap_min policy < 0 \<or> ap_max policy < ap_min policy \<or> ap_target policy \<le> 0 \<or>
              ap_cooldown policy < 0 \<or> ap_delay policy < 0
      then Inl PolicyInvalid
      else if length (ap_pools policy) > 1024 then Inl TooManyPools
      else validate_pools policy (ap_pools policy) [])"

section \<open>Observed demand\<close>

record autoscale_observation =
  ob_active :: int
  ob_busy :: int
  ob_backlog :: int
  ob_unschedulable :: int

definition job_queued :: "build_job \<Rightarrow> bool" where
  "job_queued j = (bj_visible j \<and> bj_state j = ''queued'')"

definition item_ready :: "phase_item \<Rightarrow> bool" where
  "item_ready w = (pi_active w \<and> pi_state w = PReady)"

definition item_busy :: "phase_item \<Rightarrow> bool" where
  "item_busy w = (pi_active w \<and> pi_state w = PClaimed)"

definition phase_executor :: "time \<Rightarrow> worker \<Rightarrow> bool" where
  "phase_executor now w = (worker_fresh now 45 w \<and> w_role w = ''phase-executor'')"

definition job_unschedulable :: "time \<Rightarrow> db \<Rightarrow> build_job \<Rightarrow> bool" where
  "job_unschedulable now s j =
     (\<not> list_ex (worker_serves now (bj_min_protocol j) (bj_required j)) (workers s))"

text \<open>The join with \<^verbatim>\<open>build_jobs\<close> is on its primary key.\<close>

definition item_unschedulable :: "time \<Rightarrow> db \<Rightarrow> phase_item \<Rightarrow> bool" where
  "item_unschedulable now s w =
     (case lookup_by bj_id (pi_job w) (build_jobs s) of
        None \<Rightarrow> False
      | Some j \<Rightarrow> \<not> list_ex (worker_serves now (bj_min_protocol j) (pi_required w)) (workers s))"

definition readAutoscaleObservation :: "time \<Rightarrow> db \<Rightarrow> autoscale_observation" where
  "readAutoscaleObservation now s =
     \<lparr>ob_active = int (count_where (phase_executor now) (workers s)),
      ob_busy = int (count_where item_busy (phase_items s)),
      ob_backlog = int (count_where job_queued (build_jobs s)) +
                   int (count_where item_ready (phase_items s)),
      ob_unschedulable =
        int (count_where (\<lambda>j. job_queued j \<and> job_unschedulable now s j) (build_jobs s)) +
        int (count_where (\<lambda>w. item_ready w \<and> item_unschedulable now s w) (phase_items s))\<rparr>"

definition readCapacityPoolObservation :: "time \<Rightarrow> db \<Rightarrow> string \<Rightarrow> autoscale_observation" where
  "readCapacityPoolObservation now s label =
     \<lparr>ob_active = int (count_where (\<lambda>w. phase_executor now w \<and> has_label w label) (workers s)),
      ob_busy = int (count_where (\<lambda>w. item_busy w \<and> label \<in> set (pi_required w)) (phase_items s)),
      ob_backlog =
        int (count_where (\<lambda>j. job_queued j \<and> label \<in> set (bj_required j)) (build_jobs s)) +
        int (count_where (\<lambda>w. item_ready w \<and> label \<in> set (pi_required w)) (phase_items s)),
      ob_unschedulable =
        int (count_where (\<lambda>j. job_queued j \<and> label \<in> set (bj_required j) \<and>
               job_unschedulable now s j) (build_jobs s)) +
        int (count_where (\<lambda>w. item_ready w \<and> label \<in> set (pi_required w) \<and>
               item_unschedulable now s w) (phase_items s))\<rparr>"

section \<open>The decision\<close>

record decision_state =
  ds_desired :: int
  ds_under_target :: "time option"
  ds_last_changed :: "time option"

record autoscale_decision = decision_state +
  ad_recommendation :: string
  ad_reason :: string

definition clampSlots :: "int \<Rightarrow> int \<Rightarrow> int \<Rightarrow> int" where
  "clampSlots v lo hi = (if v < lo then lo else if v > hi then hi else v)"

definition schedulable_backlog :: "autoscale_observation \<Rightarrow> int" where
  "schedulable_backlog ob =
     (let n = ob_backlog ob - ob_unschedulable ob in if n < 0 then 0 else n)"

definition raw_desired :: "autoscale_observation \<Rightarrow> autoscale_policy \<Rightarrow> int" where
  "raw_desired ob policy =
     clampSlots (ob_busy ob + go_div (schedulable_backlog ob + ap_target policy - 1) (ap_target policy))
       (ap_min policy) (ap_max policy)"

definition cooldown_ready :: "autoscale_policy \<Rightarrow> time \<Rightarrow> 'a decision_state_scheme \<Rightarrow> bool" where
  "cooldown_ready policy now st =
     (case ds_last_changed st of None \<Rightarrow> True | Some t \<Rightarrow> now - t \<ge> ap_cooldown policy)"

definition base_reason :: "autoscale_observation \<Rightarrow> autoscale_policy \<Rightarrow> string" where
  "base_reason ob policy =
     ''busy='' @ show_int (ob_busy ob) @ '' schedulable_backlog='' @
     show_int (schedulable_backlog ob) @ '' target_ready_per_slot='' @ show_int (ap_target policy)"

text \<open>The \<^verbatim>\<open>switch\<close> of \<^verbatim>\<open>decideAutoscale\<close>: the new state, whether the desired count was rewritten, and the
  suffix of the reason.\<close>

definition decide_switch ::
    "autoscale_observation \<Rightarrow> autoscale_policy \<Rightarrow> time \<Rightarrow> decision_state \<Rightarrow>
     decision_state \<times> bool \<times> string" where
  "decide_switch ob policy now st =
     (let raw = raw_desired ob policy; ready = cooldown_ready policy now st in
      if ap_mode policy = ''off'' then
        (st\<lparr>ds_desired := ob_active ob, ds_under_target := None\<rparr>, False, [])
      else if raw > ds_desired st then
        (if ready then (st\<lparr>ds_desired := raw, ds_under_target := None\<rparr>, True, [])
         else (st\<lparr>ds_under_target := None\<rparr>, False, ''; scale-up cooldown active''))
      else if raw < ds_desired st then
        (let since = (case ds_under_target st of None \<Rightarrow> now | Some t \<Rightarrow> t) in
         if ready \<and> now - since \<ge> ap_delay policy
         then (st\<lparr>ds_desired := raw, ds_under_target := None\<rparr>, True, [])
         else (st\<lparr>ds_under_target := Some since\<rparr>, False, ''; scale-down dwell active''))
      else (st\<lparr>ds_under_target := None\<rparr>, False, []))"

definition decideAutoscale ::
    "autoscale_observation \<Rightarrow> autoscale_policy \<Rightarrow> time \<Rightarrow> decision_state \<Rightarrow> autoscale_decision" where
  "decideAutoscale ob policy now st =
     (case decide_switch ob policy now st of (st', changed, suffix) \<Rightarrow>
        \<lparr>ds_desired = ds_desired st', ds_under_target = ds_under_target st',
         ds_last_changed = (if changed then Some now else ds_last_changed st'),
         ad_recommendation =
           (if ap_mode policy = ''off'' then ''off''
            else if ds_desired st' > ob_active ob then ''scale-up''
            else if ds_desired st' < ob_active ob then ''scale-down''
            else ''hold''),
         ad_reason = base_reason ob policy @ suffix\<rparr>)"

definition state_of :: "autoscale_decision \<Rightarrow> decision_state" where
  "state_of d = decision_state.truncate d"

section \<open>Facts about policies and observations\<close>

lemma validate_pools_ok:
  assumes "validate_pools policy ps seen = Inr ()" "p \<in> set ps"
  shows "pd_id p \<notin> set seen \<and>
    (\<exists>sel. NormalizeExecutorCapabilities (pd_selector p) = Inr sel \<and>
       ''capacity-pool:'' @ pd_id p \<in> set sel) \<and>
    (ap_mode policy = ''actuate'' \<longrightarrow>
       0 < provider_limit policy (pd_provider p) \<and> provider_limit policy (pd_provider p) \<le> 10000)"
  using assms
proof (induction ps arbitrary: seen)
  case (Cons q qs)
  then show ?case by (force split: if_splits sum.splits)
qed simp

lemma validate_pools_distinct:
  assumes "validate_pools policy ps seen = Inr ()"
  shows "distinct (map pd_id ps)"
  using assms
proof (induction ps arbitrary: seen)
  case (Cons q qs)
  then have rest: "validate_pools policy qs (pd_id q # seen) = Inr ()"
    by (auto split: if_splits sum.splits)
  have "pd_id p \<noteq> pd_id q" if "p \<in> set qs" for p
    using validate_pools_ok[OF rest that] by simp
  then have "pd_id q \<notin> pd_id ` set qs" by force
  with Cons.IH[OF rest] show ?case by simp
qed simp

lemma valid_policyD:
  assumes "validateAutoscalePolicy policy = Inr ()"
  shows "ap_mode policy \<in> {''off'', ''observe'', ''actuate''}" "0 \<le> ap_min policy"
    "ap_min policy \<le> ap_max policy" "0 < ap_target policy" "0 \<le> ap_cooldown policy"
    "0 \<le> ap_delay policy" "validate_pools policy (ap_pools policy) [] = Inr ()"
  using assms by (auto simp: validateAutoscalePolicy_def split: if_splits)

lemma clampSlots_bounds: "lo \<le> hi \<Longrightarrow> lo \<le> clampSlots v lo hi \<and> clampSlots v lo hi \<le> hi"
  by (simp add: clampSlots_def)

lemma clampSlots_id: "lo \<le> v \<Longrightarrow> v \<le> hi \<Longrightarrow> clampSlots v lo hi = v"
  by (simp add: clampSlots_def)

lemma raw_desired_bounds:
  assumes "validateAutoscalePolicy policy = Inr ()"
  shows "ap_min policy \<le> raw_desired ob policy" "raw_desired ob policy \<le> ap_max policy"
  using clampSlots_bounds[OF valid_policyD(3)[OF assms]] by (auto simp: raw_desired_def)

lemma observation_sane:
  "0 \<le> ob_unschedulable (readCapacityPoolObservation now s l)"
  "ob_unschedulable (readCapacityPoolObservation now s l) \<le> ob_backlog (readCapacityPoolObservation now s l)"
  "ob_unschedulable (readAutoscaleObservation now s) \<le> ob_backlog (readAutoscaleObservation now s)"
  unfolding readCapacityPoolObservation_def readAutoscaleObservation_def
  by (auto intro!: add_mono count_where_mono)

text \<open>The ceiling of the division: enough slots for the schedulable backlog, and not one more.\<close>

lemma ceiling_slots:
  fixes n t :: int
  assumes "0 \<le> n" "0 < t"
  defines "k \<equiv> go_div (n + t - 1) t"
  shows "n \<le> k * t" "(k - 1) * t < n \<or> n = 0" "0 \<le> k"
proof -
  have k: "k = (n + t - 1) div t" using assms by (simp add: k_def)
  have e: "k * t + (n + t - 1) mod t = n + t - 1" unfolding k by simp
  have m: "0 \<le> (n + t - 1) mod t" "(n + t - 1) mod t < t" using assms by simp_all
  from e m show "n \<le> k * t" by linarith
  from e m have "k * t \<le> n + t - 1" by linarith
  then have "(k - 1) * t \<le> n - 1" by (simp add: left_diff_distrib)
  then show "(k - 1) * t < n \<or> n = 0" by linarith
  show "0 \<le> k" unfolding k using assms by (simp add: pos_imp_zdiv_nonneg_iff)
qed

section \<open>One decision\<close>

lemmas decide_defs = decideAutoscale_def decide_switch_def state_of_def decision_state.defs Let_def

lemma decide_desired:
  assumes "ap_mode policy \<noteq> ''off''"
  shows "ds_desired (decideAutoscale ob policy now st) = ds_desired st \<or>
    ds_desired (decideAutoscale ob policy now st) = raw_desired ob policy"
  using assms by (simp add: decide_defs)

lemma decide_change:
  assumes "ap_mode policy \<noteq> ''off''"
    and "ds_desired (decideAutoscale ob policy now st) \<noteq> ds_desired st"
  shows "ds_last_changed (decideAutoscale ob policy now st) = Some now"
    "ds_desired (decideAutoscale ob policy now st) = raw_desired ob policy"
    "cooldown_ready policy now st"
    "ds_under_target (decideAutoscale ob policy now st) = None"
  using assms by (auto simp: decide_defs split: if_splits)

lemma decide_no_change:
  assumes "ap_mode policy \<noteq> ''off''"
    and "ds_desired (decideAutoscale ob policy now st) = ds_desired st"
  shows "ds_last_changed (decideAutoscale ob policy now st) = ds_last_changed st"
  using assms by (auto simp: decide_defs split: if_splits)

lemma decide_scale_down:
  assumes "ap_mode policy \<noteq> ''off''"
    and "ds_desired (decideAutoscale ob policy now st) < ds_desired st"
  shows "(case ds_under_target st of None \<Rightarrow> ap_delay policy \<le> 0 | Some t \<Rightarrow> now - t \<ge> ap_delay policy)"
  using assms by (auto simp: decide_defs split: if_splits option.splits)

lemma decide_recommendation:
  fixes ob policy now st
  defines "d \<equiv> decideAutoscale ob policy now st"
  assumes "ap_mode policy \<noteq> ''off''"
  shows "ad_recommendation d = ''scale-up'' \<longleftrightarrow> ob_active ob < ds_desired d"
    "ad_recommendation d = ''scale-down'' \<longleftrightarrow> ds_desired d < ob_active ob"
    "ad_recommendation d = ''hold'' \<longleftrightarrow> ds_desired d = ob_active ob"
  using assms(2) by (auto simp: d_def decideAutoscale_def split: prod.splits)

lemma truncate_fields [simp]:
  "ds_desired (state_of d) = ds_desired d"
  "ds_under_target (state_of d) = ds_under_target d"
  "ds_last_changed (state_of d) = ds_last_changed d"
  by (simp_all add: state_of_def decision_state.defs)

section \<open>Runs of the reconcile loop\<close>

text \<open>
  The loop evaluates the same scope again and again; the durable row hands each decision's state to
  the next evaluation.
\<close>

fun decide_run ::
    "autoscale_policy \<Rightarrow> (time \<times> autoscale_observation) list \<Rightarrow> decision_state \<Rightarrow> decision_state" where
  "decide_run policy [] st = st"
| "decide_run policy ((now, ob) # rest) st =
     decide_run policy rest (state_of (decideAutoscale ob policy now st))"

fun change_times ::
    "autoscale_policy \<Rightarrow> (time \<times> autoscale_observation) list \<Rightarrow> decision_state \<Rightarrow> time list" where
  "change_times policy [] st = []"
| "change_times policy ((now, ob) # rest) st =
     (let d = decideAutoscale ob policy now st in
      (if ds_desired d \<noteq> ds_desired st then [now] else []) @ change_times policy rest (state_of d))"

lemma change_times_after:
  assumes "ap_mode policy \<noteq> ''off''" "ds_last_changed st = Some t0" "t \<in> set (change_times policy obs st)"
    and "0 \<le> ap_cooldown policy"
  shows "t - t0 \<ge> ap_cooldown policy"
  using assms(2,3)
proof (induction obs arbitrary: st t0)
  case (Cons x obs)
  obtain now ob where x: "x = (now, ob)" by (cases x) auto
  define d where "d = decideAutoscale ob policy now st"
  show ?case
  proof (cases "ds_desired d = ds_desired st")
    case True
    then have "ds_last_changed (state_of d) = Some t0"
      using decide_no_change[OF assms(1)] Cons.prems(1) by (simp add: d_def)
    moreover have "t \<in> set (change_times policy obs (state_of d))"
      using Cons.prems(2) True by (simp add: x d_def[symmetric])
    ultimately show ?thesis by (rule Cons.IH)
  next
    case False
    then have ch: "ds_last_changed (state_of d) = Some now" "cooldown_ready policy now st"
      using decide_change[OF assms(1)] by (auto simp: d_def)
    then have now: "now - t0 \<ge> ap_cooldown policy"
      using Cons.prems(1) by (simp add: cooldown_ready_def)
    have "t = now \<or> t \<in> set (change_times policy obs (state_of d))"
      using Cons.prems(2) False by (auto simp: x d_def[symmetric])
    then show ?thesis
    proof
      assume "t \<in> set (change_times policy obs (state_of d))"
      from Cons.IH[OF ch(1) this] now assms(4) show ?thesis by linarith
    qed (use now in simp)
  qed
qed simp


definition example_policy :: autoscale_policy where
  "example_policy = \<lparr>ap_mode = ''observe'', ap_min = 1, ap_max = 4, ap_target = 2, ap_cooldown = 10,
     ap_delay = 20, ap_pools = [], ap_provider_max = Map.empty\<rparr>"

definition example_demand :: "int \<Rightarrow> autoscale_observation" where
  "example_demand n = \<lparr>ob_active = 1, ob_busy = 0, ob_backlog = n, ob_unschedulable = 0\<rparr>"

definition example_start :: decision_state where
  "example_start = \<lparr>ds_desired = 1, ds_under_target = None, ds_last_changed = None\<rparr>"

lemma example_policy_valid: "validateAutoscalePolicy example_policy = Inr ()"
  by (simp add: validateAutoscalePolicy_def example_policy_def)




text \<open>C30: The demand a decision aims at is tight: unless capped by the maximum the slots beyond the busy
  ones cover the schedulable backlog at the target ratio, and unless raised to the minimum one slot
  fewer would not.\<close>

theorem raw_desired_tight:
  assumes "validateAutoscalePolicy policy = Inr ()"
  shows "(raw_desired ob policy < ap_max policy \<longrightarrow>
      schedulable_backlog ob \<le> (raw_desired ob policy - ob_busy ob) * ap_target policy) \<and>
    (ap_min policy < raw_desired ob policy \<and> 0 < schedulable_backlog ob \<longrightarrow>
      (raw_desired ob policy - 1 - ob_busy ob) * ap_target policy < schedulable_backlog ob)"
proof -
  let ?n = "schedulable_backlog ob" and ?t = "ap_target policy"
  let ?k = "go_div (?n + ?t - 1) ?t"
  have t: "0 < ?t" "ap_min policy \<le> ap_max policy" using valid_policyD[OF assms] by auto
  have n: "0 \<le> ?n" by (simp add: schedulable_backlog_def Let_def)
  note c = ceiling_slots[OF n t(1)]
  have up: "?k \<le> x - ob_busy ob \<Longrightarrow> ?n \<le> (x - ob_busy ob) * ?t" for x
    using c(1) mult_right_mono[of ?k "x - ob_busy ob" ?t] t(1) by linarith
  have down: "x - 1 - ob_busy ob \<le> ?k - 1 \<Longrightarrow> 0 < ?n \<Longrightarrow> (x - 1 - ob_busy ob) * ?t < ?n" for x
    using c(2) mult_right_mono[of "x - 1 - ob_busy ob" "?k - 1" ?t] t(1) by linarith
  show ?thesis
    unfolding raw_desired_def clampSlots_def using t(2) c(1,2) by (auto intro!: up down)
qed

theorem raw_desired_tight_witness:
  "raw_desired (example_demand 5) example_policy = 3 \<and> 5 \<le> (3 - 0) * (2 :: int) \<and> (3 - 1 - 0) * 2 < (5 :: int)"
proof -
  have r: "raw_desired (example_demand 5) example_policy = 3" by code_simp
  show ?thesis
    using raw_desired_tight[OF example_policy_valid, of "example_demand 5"] unfolding r
    by (simp add: example_demand_def example_policy_def schedulable_backlog_def)
qed



section \<open>The scale-down dwell\<close>

lemma decide_run_snoc:
  "decide_run policy (obs @ [(now, ob)]) st = state_of (decideAutoscale ob policy now (decide_run policy obs st))"
  by (induction policy obs st rule: decide_run.induct) auto

lemma decide_under:
  assumes "ap_mode policy \<noteq> ''off''" "ds_under_target (decideAutoscale ob policy now st) = Some t"
  shows "raw_desired ob policy < ds_desired st" "ds_desired (decideAutoscale ob policy now st) = ds_desired st"
    "ds_under_target st = None \<and> t = now \<or> ds_under_target st = Some t"
  using assms by (auto simp: decide_defs split: if_splits option.splits)

text \<open>The dwell mark is the time of an evaluation since which demand was below the desired count.\<close>

lemma under_target_run:
  assumes "ap_mode policy \<noteq> ''off''" "ds_under_target st = None"
    and "ds_under_target (decide_run policy obs st) = Some t"
  shows "\<exists>pre post. obs = pre @ post \<and> post \<noteq> [] \<and> fst (hd post) = t \<and>
    (\<forall>x \<in> set post. raw_desired (snd x) policy < ds_desired (decide_run policy obs st))"
  using assms(3)
proof (induction obs arbitrary: t rule: rev_induct)
  case Nil
  with assms(2) show ?case by simp
next
  case (snoc x obs)
  obtain now ob where x: "x = (now, ob)" by (cases x) auto
  let ?s = "decide_run policy obs st"
  from snoc.prems have u: "ds_under_target (decideAutoscale ob policy now ?s) = Some t"
    by (simp add: x decide_run_snoc)
  note D = decide_under[OF assms(1) u]
  show ?case
  proof (cases "ds_under_target ?s")
    case None
    with D(3) have "t = now" by simp
    with D show ?thesis
      by (intro exI[of _ obs] exI[of _ "[x]"]) (simp add: x decide_run_snoc)
  next
    case (Some t')
    with D(3) have t: "t' = t" by simp
    from snoc.IH[OF Some] obtain pre post where "obs = pre @ post" "post \<noteq> []" "fst (hd post) = t"
      "\<forall>y \<in> set post. raw_desired (snd y) policy < ds_desired ?s" unfolding t by blast
    moreover have "ds_desired (decide_run policy (obs @ [x]) st) = ds_desired ?s"
      using D(2) by (simp add: x decide_run_snoc)
    moreover have "raw_desired (snd x) policy < ds_desired ?s" using D(1) by (simp add: x)
    ultimately have "obs @ [x] = pre @ (post @ [x]) \<and> post @ [x] \<noteq> [] \<and> fst (hd (post @ [x])) = t \<and>
        (\<forall>y \<in> set (post @ [x]). raw_desired (snd y) policy < ds_desired (decide_run policy (obs @ [x]) st))"
      by auto
    then show ?thesis by blast
  qed
qed



end
