(* ===== verification/Capacity_Ledger.thy ===== *)
theory Capacity_Ledger
  imports Capabilities
begin

text \<open>
  The durable capacity ledger, \<^verbatim>\<open>src/internal/persistence/capacity_actuator.go\<close>: fenced actions (at
  most one open action per pool) and the provider instances they own. Every operation is one
  transaction from the committed database to an error (roll back) or a value and the next database.
  \<^verbatim>\<open>clock_timestamp()\<close> is the argument \<open>now\<close>, fresh UUIDs are arguments, and \<open>locked\<close> says which rows
  another open transaction has locked where the statement says \<^verbatim>\<open>SKIP LOCKED\<close>. Claims and instances
  that callers pass in are values, not rows: they may be stale.
\<close>

section \<open>Values\<close>

datatype ledger_error =
    PoolRequired
  | KindInvalid
  | TransitionInvalid
  | OwnerAndLeaseRequired
  | ClaimIncomplete
  | ActionMissing
  | StaleFence
  | StaleOwnership
  | ScaleUpClaimRequired
  | ScaleDownClaimRequired
  | AttributesTooLarge
  | StillOwnsLiveWork
  | UniqueViolation
  | ForeignKeyViolation

record capacity_claim =
  cc_id :: string
  cc_pool :: pool_definition
  cc_kind :: string
  cc_requested :: int
  cc_observed :: int
  cc_delta :: int
  cc_reason :: string
  cc_owner :: string
  cc_fence :: int
  cc_lease :: "time option"

fun kind_name :: "action_kind \<Rightarrow> string" where
  "kind_name ScaleUp = ''scale-up''"
| "kind_name ScaleDown = ''scale-down''"

definition validateCapacityActionKind :: "string \<Rightarrow> (ledger_error, action_kind) result" where
  "validateCapacityActionKind kind =
     (if kind \<noteq> ''scale-up'' \<and> kind \<noteq> ''scale-down'' then Inl KindInvalid
      else Inr (if kind = ''scale-up'' then ScaleUp else ScaleDown))"

definition capacityActionMaxDetail :: nat where
  "capacityActionMaxDetail = 4096"

fun open_state :: "action_state \<Rightarrow> bool" where
  "open_state Requested = True"
| "open_state Claimed = True"
| "open_state WaitingForHeartbeat = True"
| "open_state WaitingForDrain = True"
| "open_state _ = False"

definition open_action :: "capacity_action \<Rightarrow> bool" where
  "open_action a = open_state (ca_state a)"

definition live_instance :: "capacity_instance \<Rightarrow> bool" where
  "live_instance i = (ci_state i \<noteq> Deleted \<and> ci_state i \<noteq> InstanceFailed)"

definition owned_by :: "capacity_action \<Rightarrow> capacity_instance \<Rightarrow> bool" where
  "owned_by a i = (ci_create i = ca_id a \<or> ci_delete i = Some (ca_id a))"

text \<open>A live provider instance is bound to the action.\<close>

definition bound_action :: "db \<Rightarrow> capacity_action \<Rightarrow> bool" where
  "bound_action s a = list_ex (\<lambda>i. owned_by a i \<and> live_instance i) (instances s)"

definition pool_exists :: "db \<Rightarrow> string \<Rightarrow> bool" where
  "pool_exists s p = list_ex (\<lambda>r. pd_id (pr_pool r) = p) (pools s)"

text \<open>The join of an action with its pool that every claim query returns.\<close>

definition scanCapacityAction :: "db \<Rightarrow> capacity_action \<Rightarrow> capacity_claim option" where
  "scanCapacityAction s a =
     (case lookup_by (\<lambda>r. pd_id (pr_pool r)) (ca_pool a) (pools s) of
        None \<Rightarrow> None
      | Some r \<Rightarrow> Some \<lparr>cc_id = ca_id a, cc_pool = pr_pool r, cc_kind = kind_name (ca_kind a),
          cc_requested = ca_requested_slots a, cc_observed = ca_observed_slots a,
          cc_delta = ca_delta_slots a, cc_reason = ca_reason a, cc_owner = ca_owner a,
          cc_fence = ca_fence a, cc_lease = ca_lease a\<rparr>)"

section \<open>Actions\<close>

text \<open>The row an \<^verbatim>\<open>INSERT\<close> of a requested one-slot action creates (column defaults included).\<close>

definition new_action ::
    "time \<Rightarrow> string \<Rightarrow> string \<Rightarrow> action_kind \<Rightarrow> int \<Rightarrow> int \<Rightarrow> string \<Rightarrow> capacity_action" where
  "new_action now aid pool kind req obs reason =
     \<lparr>ca_id = aid, ca_pool = pool, ca_kind = kind, ca_state = Requested,
      ca_requested_slots = req, ca_observed_slots = obs, ca_delta_slots = 1, ca_reason = reason,
      ca_owner = [], ca_fence = 0, ca_lease = None, ca_attempts = 0, ca_next_attempt = now,
      ca_detail = [], ca_requested_at = now, ca_claimed_at = None, ca_completed_at = None\<rparr>"

definition open_in_pool :: "string \<Rightarrow> capacity_action \<Rightarrow> bool" where
  "open_in_pool pool a = (ca_pool a = pool \<and> open_action a)"

definition insert_action :: "capacity_action \<Rightarrow> db \<Rightarrow> (ledger_error, db) result" where
  "insert_action a s =
     (if ca_id a \<in> ca_id ` set (actions s) then Inl UniqueViolation
      else if \<not> pool_exists s (ca_pool a) then Inl ForeignKeyViolation
      else Inr (s\<lparr>actions := actions s @ [a]\<rparr>))"

definition RequestCapacityAction ::
    "time \<Rightarrow> string \<Rightarrow> string \<Rightarrow> string \<Rightarrow> int \<Rightarrow> int \<Rightarrow> string \<Rightarrow> db \<Rightarrow>
     (ledger_error, capacity_claim \<times> db) result" where
  "RequestCapacityAction now aid pool kind req obs reason s =
     (if TrimSpace pool = [] then Inl PoolRequired
      else bind_result (validateCapacityActionKind kind) (\<lambda>k.
        if req < 0 \<or> obs < 0 \<or> k = ScaleUp \<and> req \<le> obs \<or> k = ScaleDown \<and> req \<ge> obs
        then Inl TransitionInvalid
        else
          let reason' = truncate_bytes capacityActionMaxDetail reason;
              row = new_action now aid pool k req obs reason' in
          bind_result
            (case find (open_in_pool pool) (actions s) of
               Some a \<Rightarrow> Inr (a, s)
             | None \<Rightarrow> bind_result (insert_action row s) (\<lambda>s'. Inr (row, s')))
            (\<lambda>(a, s'). case scanCapacityAction s' a of
                 None \<Rightarrow> Inl ActionMissing
               | Some c \<Rightarrow> Inr (c, s'))))"

definition claimable :: "time \<Rightarrow> capacity_action \<Rightarrow> bool" where
  "claimable now a =
     (ca_next_attempt a \<le> now \<and>
      (ca_state a = Requested \<or>
       ca_state a = Claimed \<and> (case ca_lease a of None \<Rightarrow> False | Some t \<Rightarrow> t \<le> now)))"

definition claim_action :: "time \<Rightarrow> string \<Rightarrow> duration \<Rightarrow> capacity_action \<Rightarrow> capacity_action" where
  "claim_action now owner lease a =
     a\<lparr>ca_state := Claimed, ca_owner := owner, ca_fence := ca_fence a + 1,
       ca_lease := Some (now + lease), ca_attempts := ca_attempts a + 1,
       ca_claimed_at := Some now\<rparr>"

definition claim_candidate :: "time \<Rightarrow> (string \<Rightarrow> bool) \<Rightarrow> db \<Rightarrow> capacity_action option" where
  "claim_candidate now locked s =
     order_limit1 (\<lambda>a. (ca_requested_at a, ca_id a))
       (filter (\<lambda>a. claimable now a \<and> \<not> locked (ca_id a)) (actions s))"

definition ClaimCapacityAction ::
    "time \<Rightarrow> (string \<Rightarrow> bool) \<Rightarrow> string \<Rightarrow> duration \<Rightarrow> db \<Rightarrow>
     (ledger_error, capacity_claim option \<times> db) result" where
  "ClaimCapacityAction now locked owner lease s =
     (let owner' = TrimSpace owner in
      if owner' = [] \<or> length owner' > 256 \<or> lease \<le> 0 then Inl OwnerAndLeaseRequired
      else case claim_candidate now locked s of
             None \<Rightarrow> Inr (None, s)
           | Some a \<Rightarrow>
               Inr (scanCapacityAction s (claim_action now owner' lease a),
                    s\<lparr>actions := update_where (\<lambda>b. ca_id b = ca_id a)
                                   (claim_action now owner' lease) (actions s)\<rparr>))"

text \<open>The row still carries this claim: owner, fence and an unexpired lease.\<close>

definition fence_current :: "time \<Rightarrow> capacity_claim \<Rightarrow> capacity_action \<Rightarrow> bool" where
  "fence_current now c a =
     (ca_state a = Claimed \<and> ca_owner a = cc_owner c \<and> ca_fence a = cc_fence c \<and>
      expires_after (ca_lease a) now)"

definition validateCapacityActionFence ::
    "time \<Rightarrow> capacity_claim \<Rightarrow> db \<Rightarrow> (ledger_error, unit) result" where
  "validateCapacityActionFence now c s =
     (if cc_id c = [] \<or> cc_owner c = [] \<or> cc_fence c \<le> 0 then Inl ClaimIncomplete
      else case lookup_by ca_id (cc_id c) (actions s) of
             None \<Rightarrow> Inl ActionMissing
           | Some a \<Rightarrow> if fence_current now c a then Inr () else Inl StaleFence)"

text \<open>An \<^verbatim>\<open>UPDATE\<close> of the claimed row under its fence that must hit exactly one row.\<close>

definition update_claimed ::
    "time \<Rightarrow> capacity_claim \<Rightarrow> (capacity_action \<Rightarrow> capacity_action) \<Rightarrow> db \<Rightarrow> (ledger_error, db) result" where
  "update_claimed now c f s =
     (let p = (\<lambda>a. ca_id a = cc_id c \<and> fence_current now c a) in
      if count_where p (actions s) \<noteq> 1 then Inl StaleFence
      else Inr (s\<lparr>actions := update_where p f (actions s)\<rparr>))"

definition RenewCapacityAction ::
    "time \<Rightarrow> capacity_claim \<Rightarrow> duration \<Rightarrow> db \<Rightarrow> (ledger_error, unit \<times> db) result" where
  "RenewCapacityAction now c lease s =
     (if lease \<le> 0 then Inl OwnerAndLeaseRequired
      else bind_result (update_claimed now c (ca_lease_update (\<lambda>_. Some (now + lease))) s)
             (\<lambda>s'. Inr ((), s')))"

definition completeCapacityActionTx ::
    "time \<Rightarrow> capacity_claim \<Rightarrow> db \<Rightarrow> (ledger_error, db) result" where
  "completeCapacityActionTx now c s =
     update_claimed now c
       (\<lambda>a. a\<lparr>ca_state := Completed, ca_owner := [], ca_lease := None, ca_detail := [],
              ca_completed_at := Some now\<rparr>) s"

text \<open>\<^verbatim>\<open>LEAST(300, power(2, LEAST(attempts, 8))::integer)\<close> seconds.\<close>

definition retry_backoff :: "int \<Rightarrow> duration" where
  "retry_backoff attempts = seconds (min 300 (2 ^ nat (min attempts 8)))"

definition RetryCapacityAction ::
    "time \<Rightarrow> capacity_claim \<Rightarrow> string \<Rightarrow> db \<Rightarrow> (ledger_error, unit \<times> db) result" where
  "RetryCapacityAction now c detail s =
     bind_result
       (update_claimed now c
          (\<lambda>a. a\<lparr>ca_state := Requested, ca_detail := truncate_bytes capacityActionMaxDetail detail,
                 ca_owner := [], ca_lease := None,
                 ca_next_attempt := now + retry_backoff (ca_attempts a)\<rparr>) s)
       (\<lambda>s'. Inr ((), s'))"

section \<open>JSON size of the provider attributes\<close>

text \<open>
  \<^verbatim>\<open>json.Marshal\<close> of a \<^verbatim>\<open>map[string]string\<close>: keys in byte order, strings with Go's HTML-safe escapes,
  bytes that are not UTF-8 as the replacement character.
\<close>

definition byte_range :: "nat \<Rightarrow> nat \<Rightarrow> char \<Rightarrow> bool" where
  "byte_range lo hi c = (lo \<le> of_char c \<and> of_char c \<le> hi)"

fun utf8_width :: "string \<Rightarrow> nat" where
  "utf8_width [] = 0"
| "utf8_width (c # r) =
     (if byte_range 0 0x7F c then 1
      else if byte_range 0xC2 0xDF c then
        (if r \<noteq> [] \<and> byte_range 0x80 0xBF (r ! 0) then 2 else 0)
      else if byte_range 0xE0 0xEF c then
        (if length r \<ge> 2 \<and>
            byte_range (if of_char c = (0xE0 :: nat) then 0xA0 else 0x80)
                     (if of_char c = (0xED :: nat) then 0x9F else 0xBF) (r ! 0) \<and>
            byte_range 0x80 0xBF (r ! 1) then 3 else 0)
      else if byte_range 0xF0 0xF4 c then
        (if length r \<ge> 3 \<and>
            byte_range (if of_char c = (0xF0 :: nat) then 0x90 else 0x80)
                     (if of_char c = (0xF4 :: nat) then 0x8F else 0xBF) (r ! 0) \<and>
            byte_range 0x80 0xBF (r ! 1) \<and> byte_range 0x80 0xBF (r ! 2) then 4 else 0)
      else 0)"

definition hex_escape :: "char \<Rightarrow> string" where
  "hex_escape c = CHR 0x5C # ''u00'' @ hex_encode [c]"

definition json_escape :: "char \<Rightarrow> string" where
  "json_escape c =
     (if c = CHR 0x22 \<or> c = CHR 0x5C then [CHR 0x5C, c]
      else if c = CHR 0x08 then CHR 0x5C # ''b''
      else if c = CHR 0x0C then CHR 0x5C # ''f''
      else if c = CHR 0x0A then CHR 0x5C # ''n''
      else if c = CHR 0x0D then CHR 0x5C # ''r''
      else if c = CHR 0x09 then CHR 0x5C # ''t''
      else if byte_range 0 0x1F c \<or> c \<in> set ''<>&'' then hex_escape c
      else [c])"

text \<open>The second argument counts the bytes of the current rune still to skip.\<close>

definition json_rune :: "string \<Rightarrow> string" where
  "json_rune s =
     (let w = utf8_width s in
      if w = 0 then CHR 0x5C # ''ufffd''
      else if w = 1 then json_escape (hd s)
      else if take 3 s = [CHR 0xE2, CHR 0x80, CHR 0xA8] then CHR 0x5C # ''u2028''
      else if take 3 s = [CHR 0xE2, CHR 0x80, CHR 0xA9] then CHR 0x5C # ''u2029''
      else take w s)"

primrec json_chars :: "string \<Rightarrow> nat \<Rightarrow> string" where
  "json_chars [] k = []"
| "json_chars (c # r) k =
     (case k of
        Suc k' \<Rightarrow> json_chars r k'
      | 0 \<Rightarrow> json_rune (c # r) @ json_chars r (utf8_width (c # r) - 1))"

definition json_string :: "string \<Rightarrow> string" where
  "json_string s = CHR 0x22 # json_chars s 0 @ [CHR 0x22]"

definition json_map :: "(string \<times> string) list \<Rightarrow> string" where
  "json_map kvs =
     ''{'' @ join '','' (map (\<lambda>(k, v). json_string k @ '':'' @ json_string v) (sort_key fst kvs)) @ ''}''"

definition encodeCapacityAttributes ::
    "(string \<times> string) list \<Rightarrow> (ledger_error, (string \<times> string) list) result" where
  "encodeCapacityAttributes kvs =
     (if length (json_map kvs) > 64 * 1024 then Inl AttributesTooLarge else Inr kvs)"

section \<open>Instances\<close>

definition capacityInstanceLabel :: "string \<Rightarrow> string" where
  "capacityInstanceLabel iid = ''capacity-instance:'' @ iid"

definition new_instance ::
    "time \<Rightarrow> string \<Rightarrow> string \<Rightarrow> capacity_claim \<Rightarrow> capacity_instance" where
  "new_instance now iid token c =
     \<lparr>ci_id = iid, ci_pool = pd_id (cc_pool c), ci_create = cc_id c, ci_delete = None,
      ci_provider = pd_provider (cc_pool c), ci_provider_id = ''portage-capacity-'' @ iid,
      ci_token = token, ci_generation = 1, ci_state = Provisioning, ci_remote_ref = [],
      ci_attributes = [], ci_heartbeat = None, ci_drain_requested = None, ci_deleted_at = None,
      ci_created_at = now\<rparr>"

definition insert_instance :: "capacity_instance \<Rightarrow> db \<Rightarrow> (ledger_error, db) result" where
  "insert_instance i s =
     (if ci_id i \<in> ci_id ` set (instances s) \<or> ci_token i \<in> ci_token ` set (instances s) \<or>
         (ci_provider i, ci_provider_id i) \<in> (\<lambda>j. (ci_provider j, ci_provider_id j)) ` set (instances s)
      then Inl UniqueViolation
      else if \<not> pool_exists s (ci_pool i) then Inl ForeignKeyViolation
      else Inr (s\<lparr>instances := instances s @ [i]\<rparr>))"

definition ReserveCapacityInstance ::
    "time \<Rightarrow> string \<Rightarrow> string \<Rightarrow> capacity_claim \<Rightarrow> db \<Rightarrow>
     (ledger_error, capacity_instance \<times> db) result" where
  "ReserveCapacityInstance now iid token c s =
     (if cc_kind c \<noteq> ''scale-up'' \<or> cc_delta c \<noteq> 1 then Inl ScaleUpClaimRequired
      else bind_result (validateCapacityActionFence now c s) (\<lambda>_.
        case lookup_by ci_create (cc_id c) (instances s) of
          Some i \<Rightarrow> Inr (i, s)
        | None \<Rightarrow> bind_result (insert_instance (new_instance now iid token c) s)
                   (\<lambda>s'. Inr (new_instance now iid token c, s'))))"

text \<open>\<^verbatim>\<open>WHERE id = $1 AND owner_token = $2 AND generation = $3 AND pool_id = ... AND state = ...\<close>\<close>

definition owned_row ::
    "capacity_claim \<Rightarrow> capacity_instance \<Rightarrow> instance_state \<Rightarrow> capacity_instance \<Rightarrow> bool" where
  "owned_row c i st r =
     (ci_id r = ci_id i \<and> ci_token r = ci_token i \<and> ci_generation r = ci_generation i \<and>
      ci_pool r = pd_id (cc_pool c) \<and> ci_state r = st)"

definition update_owned ::
    "capacity_claim \<Rightarrow> capacity_instance \<Rightarrow> instance_state \<Rightarrow>
     (capacity_instance \<Rightarrow> capacity_instance) \<Rightarrow> db \<Rightarrow> (ledger_error, db) result" where
  "update_owned c i st f s =
     (if count_where (owned_row c i st) (instances s) \<noteq> 1 then Inl StaleOwnership
      else Inr (s\<lparr>instances := update_where (owned_row c i st) f (instances s)\<rparr>))"

definition RecordCapacityInstanceProvisioned ::
    "time \<Rightarrow> capacity_claim \<Rightarrow> capacity_instance \<Rightarrow> string \<Rightarrow> (string \<times> string) list \<Rightarrow> db \<Rightarrow>
     (ledger_error, unit \<times> db) result" where
  "RecordCapacityInstanceProvisioned now c i ref attrs s =
     bind_result (encodeCapacityAttributes attrs) (\<lambda>data.
     bind_result (validateCapacityActionFence now c s) (\<lambda>_.
     bind_result
       (update_owned c i Provisioning (\<lambda>r. r\<lparr>ci_remote_ref := ref, ci_attributes := data\<rparr>) s)
       (\<lambda>s'. Inr ((), s'))))"

definition heartbeat_worker :: "time \<Rightarrow> capacity_claim \<Rightarrow> capacity_instance \<Rightarrow> worker \<Rightarrow> bool" where
  "heartbeat_worker now c i w =
     (worker_fresh now 45 w \<and> has_label w (capacityInstanceLabel (ci_id i)) \<and>
      has_labels w (pd_selector (cc_pool c)))"

definition ConfirmCapacityInstanceHeartbeat ::
    "time \<Rightarrow> capacity_claim \<Rightarrow> capacity_instance \<Rightarrow> db \<Rightarrow> (ledger_error, bool \<times> db) result" where
  "ConfirmCapacityInstanceHeartbeat now c i s =
     bind_result (validateCapacityActionFence now c s) (\<lambda>_.
     if count_where (heartbeat_worker now c i) (workers s) = 0 then Inr (False, s)
     else bind_result
            (update_owned c i Provisioning
               (\<lambda>r. r\<lparr>ci_state := Active, ci_heartbeat := Some now\<rparr>) s) (\<lambda>s1.
          bind_result (completeCapacityActionTx now c s1) (\<lambda>s2. Inr (True, s2))))"

text \<open>\<^verbatim>\<open>ORDER BY heartbeat_observed_at, created_at, id\<close>, where \<^verbatim>\<open>NULL\<close> sorts last.\<close>

definition drain_order :: "capacity_instance \<Rightarrow> (bool \<times> int) \<times> int \<times> string" where
  "drain_order i =
     ((case ci_heartbeat i of None \<Rightarrow> (True, 0) | Some t \<Rightarrow> (False, t)), ci_created_at i, ci_id i)"

definition drain_existing :: "capacity_claim \<Rightarrow> capacity_instance \<Rightarrow> bool" where
  "drain_existing c i =
     (ci_delete i = Some (cc_id c) \<and> ci_pool i = pd_id (cc_pool c) \<and>
      (ci_state i = Draining \<or> ci_state i = Deleting))"

definition drain_target :: "(string \<Rightarrow> bool) \<Rightarrow> capacity_claim \<Rightarrow> db \<Rightarrow> capacity_instance option" where
  "drain_target locked c s =
     (case find (drain_existing c) (instances s) of
        Some i \<Rightarrow> Some i
      | None \<Rightarrow> order_limit1 drain_order
          (filter (\<lambda>i. ci_pool i = pd_id (cc_pool c) \<and> ci_state i = Active \<and> \<not> locked (ci_id i))
             (instances s)))"

definition drain_instance :: "time \<Rightarrow> capacity_claim \<Rightarrow> capacity_instance \<Rightarrow> capacity_instance" where
  "drain_instance now c i =
     i\<lparr>ci_state := (if ci_state i = Deleting then Deleting else Draining),
       ci_delete := Some (cc_id c),
       ci_drain_requested := (case ci_drain_requested i of None \<Rightarrow> Some now | Some t \<Rightarrow> Some t)\<rparr>"

definition SelectCapacityInstanceForDrain ::
    "time \<Rightarrow> (string \<Rightarrow> bool) \<Rightarrow> capacity_claim \<Rightarrow> db \<Rightarrow>
     (ledger_error, capacity_instance option \<times> db) result" where
  "SelectCapacityInstanceForDrain now locked c s =
     (if cc_kind c \<noteq> ''scale-down'' \<or> cc_delta c \<noteq> 1 then Inl ScaleDownClaimRequired
      else bind_result (validateCapacityActionFence now c s) (\<lambda>_.
        case drain_target locked c s of
          None \<Rightarrow> Inr (None, s)
        | Some i \<Rightarrow>
            if list_ex (\<lambda>j. ci_delete j = Some (cc_id c) \<and> ci_id j \<noteq> ci_id i) (instances s)
            then Inl UniqueViolation
            else Inr (Some (drain_instance now c i),
              s\<lparr>instances := update_where (\<lambda>j. ci_id j = ci_id i) (drain_instance now c) (instances s),
                workers := update_where (\<lambda>w. has_label w (capacityInstanceLabel (ci_id i)))
                             (w_active_update (\<lambda>_. False)) (workers s)\<rparr>)))"

definition lease_blocks_drain :: "time \<Rightarrow> string \<Rightarrow> db \<Rightarrow> bool" where
  "lease_blocks_drain now label s =
     list_ex (\<lambda>w. has_label w label \<and>
       list_ex (\<lambda>l. wl_worker l = w_id w \<and> wl_expires l > now) (worker_leases s)) (workers s)"

definition phase_blocks_drain :: "time \<Rightarrow> string \<Rightarrow> db \<Rightarrow> bool" where
  "phase_blocks_drain now label s =
     list_ex (\<lambda>p. pi_state p = PClaimed \<and> expires_after (pi_lease p) now \<and>
       list_ex (\<lambda>w. w_name w = pi_owner p \<and> has_label w label) (workers s)) (phase_items s)"

definition capacityInstanceDrainedTx ::
    "time \<Rightarrow> capacity_claim \<Rightarrow> capacity_instance \<Rightarrow> db \<Rightarrow> bool" where
  "capacityInstanceDrainedTx now c i s =
     (\<not> lease_blocks_drain now (capacityInstanceLabel (ci_id i)) s \<and>
      \<not> phase_blocks_drain now (capacityInstanceLabel (ci_id i)) s \<and>
      list_ex (owned_row c i Draining) (instances s))"

definition CapacityInstanceDrained ::
    "time \<Rightarrow> capacity_claim \<Rightarrow> capacity_instance \<Rightarrow> db \<Rightarrow> (ledger_error, bool \<times> db) result" where
  "CapacityInstanceDrained now c i s =
     bind_result (validateCapacityActionFence now c s) (\<lambda>_.
       Inr (capacityInstanceDrainedTx now c i s, s))"

definition BeginCapacityInstanceDelete ::
    "time \<Rightarrow> capacity_claim \<Rightarrow> capacity_instance \<Rightarrow> db \<Rightarrow> (ledger_error, unit \<times> db) result" where
  "BeginCapacityInstanceDelete now c i s =
     bind_result (validateCapacityActionFence now c s) (\<lambda>_.
       if \<not> capacityInstanceDrainedTx now c i s then Inl StillOwnsLiveWork
       else bind_result (update_owned c i Draining (\<lambda>r. r\<lparr>ci_state := Deleting\<rparr>) s)
              (\<lambda>s'. Inr ((), s')))"

definition CompleteCapacityInstanceDelete ::
    "time \<Rightarrow> capacity_claim \<Rightarrow> capacity_instance \<Rightarrow> db \<Rightarrow> (ledger_error, unit \<times> db) result" where
  "CompleteCapacityInstanceDelete now c i s =
     bind_result (validateCapacityActionFence now c s) (\<lambda>_.
     bind_result
       (update_owned c i Deleting (\<lambda>r. r\<lparr>ci_state := Deleted, ci_deleted_at := Some now\<rparr>) s) (\<lambda>s1.
     bind_result (completeCapacityActionTx now c s1) (\<lambda>s2. Inr ((), s2))))"

end
