(* ===== verification/Capacity_Reconcile.thy ===== *)
theory Capacity_Reconcile
  imports Autoscale Capacity_Ledger
begin

text \<open>
  The writing half of \<^verbatim>\<open>src/internal/persistence/autoscale.go\<close>: one \<^verbatim>\<open>ReconcileAutoscaling\<close>
  transaction persists the global and the per-pool recommendation and turns pool demand into at most
  one requested action per pool, within the deployment-wide and the per-provider slot budgets.
  \<open>fresh\<close> supplies the UUID of the action a pool may get in this transaction.
\<close>

section \<open>Requesting, cancelling and reopening actions\<close>

definition refresh_action ::
    "time \<Rightarrow> action_kind \<Rightarrow> int \<Rightarrow> int \<Rightarrow> string \<Rightarrow> capacity_action \<Rightarrow> capacity_action" where
  "refresh_action now kind req obs reason a =
     a\<lparr>ca_kind := kind, ca_requested_slots := req, ca_observed_slots := obs, ca_reason := reason,
       ca_next_attempt := now, ca_detail := []\<rparr>"

definition requestCapacityActionTx ::
    "time \<Rightarrow> string \<Rightarrow> string \<Rightarrow> action_kind \<Rightarrow> int \<Rightarrow> int \<Rightarrow> string \<Rightarrow> db \<Rightarrow>
     (ledger_error, db) result" where
  "requestCapacityActionTx now aid pool kind req obs reason s =
     (let reason' = truncate_bytes capacityActionMaxDetail reason in
      if list_ex (open_in_pool pool) (actions s)
      then Inr (s\<lparr>actions := update_where
             (\<lambda>a. open_in_pool pool a \<and> ca_state a = Requested \<and> \<not> bound_action s a)
             (refresh_action now kind req obs reason') (actions s)\<rparr>)
      else insert_action (new_action now aid pool kind req obs reason') s)"

definition cancel_action :: "time \<Rightarrow> string \<Rightarrow> capacity_action \<Rightarrow> capacity_action" where
  "cancel_action now reason a =
     a\<lparr>ca_state := Canceled, ca_detail := reason, ca_completed_at := Some now\<rparr>"

definition cancelRequestedCapacityActionTx :: "time \<Rightarrow> string \<Rightarrow> string \<Rightarrow> db \<Rightarrow> db" where
  "cancelRequestedCapacityActionTx now pool reason s =
     s\<lparr>actions := update_where
         (\<lambda>a. ca_pool a = pool \<and> ca_state a = Requested \<and> \<not> bound_action s a)
         (cancel_action now (truncate_bytes capacityActionMaxDetail reason)) (actions s)\<rparr>"

definition reopen_candidate :: "db \<Rightarrow> capacity_action \<Rightarrow> bool" where
  "reopen_candidate s a =
     ((ca_state a = Canceled \<or> ca_state a = Failed) \<and>
      list_ex (\<lambda>i. (ci_create i = ca_id a \<and> ca_kind a = ScaleUp \<or>
                    ci_delete i = Some (ca_id a) \<and> ca_kind a = ScaleDown) \<and>
                   ci_state i \<in> {Provisioning, Draining, Deleting}) (instances s) \<and>
      \<not> list_ex (open_in_pool (ca_pool a)) (actions s))"

text \<open>\<^verbatim>\<open>SELECT DISTINCT ON (pool_id) ... ORDER BY pool_id, requested_at, id\<close>\<close>

definition reopened :: "db \<Rightarrow> capacity_action \<Rightarrow> bool" where
  "reopened s a =
     (reopen_candidate s a \<and>
      (case order_limit1 (\<lambda>b. (ca_requested_at b, ca_id b))
              (filter (\<lambda>b. reopen_candidate s b \<and> ca_pool b = ca_pool a) (actions s)) of
         None \<Rightarrow> False | Some b \<Rightarrow> ca_id b = ca_id a))"

text \<open>\<^verbatim>\<open>left(text, n)\<close> counts characters: the continuation bytes of UTF-8 ride along.\<close>

fun take_chars :: "nat \<Rightarrow> string \<Rightarrow> string" where
  "take_chars n [] = []"
| "take_chars n (c # cs) =
     (if byte_range 0x80 0xBF c then c # take_chars n cs
      else if n = 0 then [] else c # take_chars (n - 1) cs)"

definition reopen_action :: "time \<Rightarrow> capacity_action \<Rightarrow> capacity_action" where
  "reopen_action now a =
     a\<lparr>ca_state := Requested, ca_owner := [], ca_lease := None, ca_completed_at := None,
       ca_next_attempt := now + retry_backoff (ca_attempts a),
       ca_detail := take_chars capacityActionMaxDetail
         ((if ca_detail a = [] then [] else ca_detail a @ '' | '') @
          ''reopened: a live provider instance is bound to this action'')\<rparr>"

definition reopenBoundCapacityActionsTx :: "time \<Rightarrow> db \<Rightarrow> db" where
  "reopenBoundCapacityActionsTx now s =
     s\<lparr>actions := update_where (reopened s) (reopen_action now) (actions s)\<rparr>"

section \<open>Budgets\<close>

definition pending_scale_up :: "capacity_action \<Rightarrow> bool" where
  "pending_scale_up a =
     (ca_kind a = ScaleUp \<and> (ca_state a = Claimed \<or> ca_state a = WaitingForHeartbeat))"

definition scale_up_budget :: "autoscale_policy \<Rightarrow> int \<Rightarrow> db \<Rightarrow> int" where
  "scale_up_budget policy active s =
     (let b = ap_max policy - active - int (count_where pending_scale_up (actions s)) in
      if b < 0 then 0 else b)"

definition scale_down_budget :: "autoscale_policy \<Rightarrow> int \<Rightarrow> int" where
  "scale_down_budget policy active =
     (let b = active - ap_min policy in if b < 0 then 0 else b)"

definition pool_provider :: "db \<Rightarrow> string \<Rightarrow> string option" where
  "pool_provider s p =
     map_option (\<lambda>r. pd_provider (pr_pool r)) (lookup_by (\<lambda>r. pd_id (pr_pool r)) p (pools s))"

definition provider_active :: "time \<Rightarrow> string \<Rightarrow> db \<Rightarrow> int" where
  "provider_active now provider s =
     int (count_where (\<lambda>w. phase_executor now w \<and> has_label w (''provider:'' @ provider)) (workers s))"

definition provider_pending :: "string \<Rightarrow> db \<Rightarrow> int" where
  "provider_pending provider s =
     int (count_where (\<lambda>a. pending_scale_up a \<and> pool_provider s (ca_pool a) = Some provider) (actions s))"

text \<open>A provider without a limit has no entry, which Go reads as zero.\<close>

definition provider_budget :: "time \<Rightarrow> autoscale_policy \<Rightarrow> db \<Rightarrow> string \<Rightarrow> int" where
  "provider_budget now policy s provider =
     (case ap_provider_max policy provider of
        None \<Rightarrow> 0
      | Some limit \<Rightarrow>
          let b = limit - provider_active now provider s - provider_pending provider s in
          if b < 0 then 0 else b)"

definition pool_order :: "pool_row \<Rightarrow> int \<times> int \<times> string" where
  "pool_order r = (- pr_unschedulable r, - pr_backlog r, pd_id (pr_pool r))"

record budgets =
  bu_up :: int
  bu_down :: int
  bu_provider :: "string \<Rightarrow> int"

text \<open>One iteration of the loop over the ordered pools.\<close>

definition reconcile_pool_action ::
    "time \<Rightarrow> (string \<Rightarrow> string) \<Rightarrow> pool_row \<Rightarrow> budgets \<times> db \<Rightarrow> (ledger_error, budgets \<times> db) result" where
  "reconcile_pool_action now fresh r bs =
     (case bs of (b, s) \<Rightarrow>
      let pool = pd_id (pr_pool r); provider = pd_provider (pr_pool r) in
      if pr_recommendation r = ''scale-up'' \<and> bu_up b > 0 \<and> bu_provider b provider > 0 then
        bind_result (requestCapacityActionTx now (fresh pool) pool ScaleUp (pr_desired r) (pr_active r)
                       (pr_reason r) s)
          (\<lambda>s'. Inr (b\<lparr>bu_up := bu_up b - 1,
                      bu_provider := (bu_provider b)(provider := bu_provider b provider - 1)\<rparr>, s'))
      else if pr_recommendation r = ''scale-down'' \<and> bu_down b > 0 then
        bind_result (requestCapacityActionTx now (fresh pool) pool ScaleDown (pr_desired r) (pr_active r)
                       (pr_reason r) s)
          (\<lambda>s'. Inr (b\<lparr>bu_down := bu_down b - 1\<rparr>, s'))
      else
        Inr (b, cancelRequestedCapacityActionTx now pool
                  ''pool recommendation no longer has global capacity budget'' s))"

definition reconcileCapacityActionsTx ::
    "time \<Rightarrow> (string \<Rightarrow> string) \<Rightarrow> autoscale_policy \<Rightarrow> pool_row list \<Rightarrow> int \<Rightarrow> db \<Rightarrow>
     (ledger_error, db) result" where
  "reconcileCapacityActionsTx now fresh policy rows active s =
     (let s1 = reopenBoundCapacityActionsTx now s in
      if ap_mode policy \<noteq> ''actuate'' then
        Inr (fold (\<lambda>r. cancelRequestedCapacityActionTx now (pd_id (pr_pool r))
                          ''autoscale actuation is disabled'') rows s1)
      else
        bind_result
          (fold_result (reconcile_pool_action now fresh) (sort_key pool_order rows)
             (\<lparr>bu_up = scale_up_budget policy active s1,
               bu_down = scale_down_budget policy active,
               bu_provider = provider_budget now policy s1\<rparr>, s1))
          (\<lambda>(b, s2). Inr s2))"

section \<open>Persisting the recommendations\<close>

datatype reconcile_error =
    InvalidPolicy policy_error
  | CheckViolation string
  | ActionFailed ledger_error

definition pool_state :: "pool_row \<Rightarrow> decision_state" where
  "pool_state r = \<lparr>ds_desired = pr_desired r, ds_under_target = pr_under_target r,
     ds_last_changed = pr_last_changed r\<rparr>"

definition pool_status ::
    "pool_definition \<Rightarrow> autoscale_policy \<Rightarrow> autoscale_observation \<Rightarrow> time \<Rightarrow> autoscale_decision \<Rightarrow>
     pool_row" where
  "pool_status pool policy ob now d =
     \<lparr>pr_pool = pool, pr_mode = ap_mode policy,
      pr_provider_max = provider_limit policy (pd_provider pool),
      pr_active = ob_active ob, pr_busy = ob_busy ob, pr_backlog = ob_backlog ob,
      pr_unschedulable = ob_unschedulable ob, pr_desired = ds_desired d,
      pr_recommendation = ad_recommendation d, pr_reason = ad_reason d,
      pr_under_target = ds_under_target d, pr_last_changed = ds_last_changed d,
      pr_last_evaluated = now\<rparr>"

definition initial_decision :: "int \<Rightarrow> autoscale_decision" where
  "initial_decision desired =
     \<lparr>ds_desired = desired, ds_under_target = None, ds_last_changed = None,
      ad_recommendation = ''hold'', ad_reason = ''initial observation''\<rparr>"

definition reconcileCapacityPool ::
    "time \<Rightarrow> autoscale_policy \<Rightarrow> pool_definition \<Rightarrow> db \<Rightarrow> (reconcile_error, pool_row \<times> db) result" where
  "reconcileCapacityPool now policy pool s =
     (let ob = readCapacityPoolObservation now s (''capacity-pool:'' @ pd_id pool);
          poolPolicy = policy\<lparr>ap_min := 0\<rparr>;
          initial = pool_status pool policy ob now
                      (initial_decision (clampSlots (ob_active ob) 0 (ap_max policy)));
          key = (\<lambda>r. pd_id (pr_pool r)) in
      if provider_limit policy (pd_provider pool) < 0 then Inl (CheckViolation (pd_id pool))
      else
        let rows = (case lookup_by key (pd_id pool) (pools s) of
                      None \<Rightarrow> pools s @ [initial] | Some _ \<Rightarrow> pools s);
            current = (case lookup_by key (pd_id pool) (pools s) of None \<Rightarrow> initial | Some r \<Rightarrow> r);
            status = pool_status pool policy ob now
                       (decideAutoscale ob poolPolicy now (pool_state current)) in
        Inr (status, s\<lparr>pools := update_where (\<lambda>r. key r = pd_id pool) (\<lambda>_. status) rows\<rparr>))"

fun reconcile_pools ::
    "time \<Rightarrow> autoscale_policy \<Rightarrow> pool_definition list \<Rightarrow> db \<Rightarrow> (reconcile_error, pool_row list \<times> db) result" where
  "reconcile_pools now policy [] s = Inr ([], s)"
| "reconcile_pools now policy (pool # rest) s =
     bind_result (reconcileCapacityPool now policy pool s) (\<lambda>(r, s').
     bind_result (reconcile_pools now policy rest s') (\<lambda>(rs, s''). Inr (r # rs, s'')))"

definition autoscale_status ::
    "autoscale_policy \<Rightarrow> autoscale_observation \<Rightarrow> time \<Rightarrow> autoscale_decision \<Rightarrow> autoscale_row" where
  "autoscale_status policy ob now d =
     \<lparr>as_mode = ap_mode policy, as_active = ob_active ob, as_busy = ob_busy ob,
      as_backlog = ob_backlog ob, as_unschedulable = ob_unschedulable ob,
      as_desired = ds_desired d, as_recommendation = ad_recommendation d, as_reason = ad_reason d,
      as_under_target = ds_under_target d, as_last_changed = ds_last_changed d,
      as_last_evaluated = now\<rparr>"

definition ReconcileAutoscaling ::
    "time \<Rightarrow> (string \<Rightarrow> string) \<Rightarrow> autoscale_policy \<Rightarrow> db \<Rightarrow>
     (reconcile_error, (autoscale_row \<times> pool_row list) \<times> db) result" where
  "ReconcileAutoscaling now fresh policy s =
     bind_result (map_error InvalidPolicy (validateAutoscalePolicy policy)) (\<lambda>_.
     let ob = readAutoscaleObservation now s;
         st = (case autoscale_state s of
                 None \<Rightarrow> \<lparr>ds_desired = clampSlots (ob_active ob) (ap_min policy) (ap_max policy),
                          ds_under_target = None, ds_last_changed = None\<rparr>
               | Some r \<Rightarrow> \<lparr>ds_desired = as_desired r, ds_under_target = as_under_target r,
                            ds_last_changed = as_last_changed r\<rparr>);
         row = autoscale_status policy ob now (decideAutoscale ob policy now st) in
     bind_result (reconcile_pools now policy (ap_pools policy) (s\<lparr>autoscale_state := Some row\<rparr>))
       (\<lambda>(rows, s').
     bind_result (map_error ActionFailed
         (reconcileCapacityActionsTx now fresh policy rows (ob_active ob) s'))
       (\<lambda>s''. Inr ((row, rows), s''))))"

end
