(* ===== verification/Capacity_System.thy ===== *)
theory Capacity_System
  imports Capacity_Reconcile
begin

text \<open>
  The capacity ledger as a transition system: any interleaving of actuator calls, reconcile
  transactions and changes of the rest of the database, at any times. The state pairs the database
  with the claims handed out so far; an actuator may present any of them, however stale.
\<close>

type_synonym ledger_sys = "db \<times> capacity_claim list"

inductive ledger_step :: "ledger_sys \<Rightarrow> ledger_sys \<Rightarrow> bool" where
  request: "RequestCapacityAction now aid pool kind req obs reason s = Inr (c, s') \<Longrightarrow>
    ledger_step (s, C) (s', c # C)"
| claim: "ClaimCapacityAction now locked owner lease s = Inr (r, s') \<Longrightarrow>
    ledger_step (s, C) (s', (case r of None \<Rightarrow> C | Some c \<Rightarrow> c # C))"
| renew: "c \<in> set C \<Longrightarrow> RenewCapacityAction now c lease s = Inr (u, s') \<Longrightarrow> ledger_step (s, C) (s', C)"
| reserve: "c \<in> set C \<Longrightarrow> ReserveCapacityInstance now iid token c s = Inr (i, s') \<Longrightarrow>
    ledger_step (s, C) (s', C)"
| record_provisioned: "c \<in> set C \<Longrightarrow>
    RecordCapacityInstanceProvisioned now c i ref attrs s = Inr (u, s') \<Longrightarrow> ledger_step (s, C) (s', C)"
| confirm: "c \<in> set C \<Longrightarrow> ConfirmCapacityInstanceHeartbeat now c i s = Inr (b, s') \<Longrightarrow>
    ledger_step (s, C) (s', C)"
| select: "c \<in> set C \<Longrightarrow> SelectCapacityInstanceForDrain now locked c s = Inr (r, s') \<Longrightarrow>
    ledger_step (s, C) (s', C)"
| begin_delete: "c \<in> set C \<Longrightarrow> BeginCapacityInstanceDelete now c i s = Inr (u, s') \<Longrightarrow>
    ledger_step (s, C) (s', C)"
| complete_delete: "c \<in> set C \<Longrightarrow> CompleteCapacityInstanceDelete now c i s = Inr (u, s') \<Longrightarrow>
    ledger_step (s, C) (s', C)"
| retry: "c \<in> set C \<Longrightarrow> RetryCapacityAction now c detail s = Inr (u, s') \<Longrightarrow> ledger_step (s, C) (s', C)"
| reconcile: "ReconcileAutoscaling now fresh policy s = Inr (r, s') \<Longrightarrow> ledger_step (s, C) (s', C)"
| environment: "actions s' = actions s \<Longrightarrow> instances s' = instances s \<Longrightarrow> ledger_step (s, C) (s', C)"

inductive ledger_reachable :: "ledger_sys \<Rightarrow> bool" where
  start: "actions s = [] \<Longrightarrow> instances s = [] \<Longrightarrow> ledger_reachable (s, [])"
| step: "ledger_reachable x \<Longrightarrow> ledger_step x y \<Longrightarrow> ledger_reachable y"

section \<open>The invariant\<close>

definition action_shape :: "capacity_action \<Rightarrow> bool" where
  "action_shape a \<longleftrightarrow> 0 \<le> ca_fence a \<and> 0 \<le> ca_attempts a \<and>
     (ca_state a = Claimed \<longrightarrow> ca_owner a \<noteq> [] \<and> ca_lease a \<noteq> None \<and> 0 < ca_fence a)"

definition create_done :: "capacity_action list \<Rightarrow> capacity_instance \<Rightarrow> bool" where
  "create_done acts i \<longleftrightarrow> (\<exists>a \<in> set acts. ca_id a = ci_create i \<and> ca_state a = Completed)"

definition create_open :: "capacity_action list \<Rightarrow> capacity_instance \<Rightarrow> bool" where
  "create_open acts i \<longleftrightarrow> (\<exists>a \<in> set acts. ca_id a = ci_create i \<and> ca_pool a = ci_pool i \<and>
     ca_kind a = ScaleUp \<and> open_action a)"

definition delete_open :: "capacity_action list \<Rightarrow> capacity_instance \<Rightarrow> bool" where
  "delete_open acts i \<longleftrightarrow> (\<exists>a \<in> set acts. ci_delete i = Some (ca_id a) \<and> ca_pool a = ci_pool i \<and>
     ca_kind a = ScaleDown \<and> open_action a)"

definition delete_done :: "capacity_action list \<Rightarrow> capacity_instance \<Rightarrow> bool" where
  "delete_done acts i \<longleftrightarrow> (\<exists>a \<in> set acts. ci_delete i = Some (ca_id a) \<and> ca_state a = Completed)"

text \<open>The action an instance is owned by in each state of its life.\<close>

definition instance_ok :: "capacity_action list \<Rightarrow> capacity_instance \<Rightarrow> bool" where
  "instance_ok acts i =
     (case ci_state i of
        Provisioning \<Rightarrow> ci_delete i = None \<and> create_open acts i
      | Active \<Rightarrow> ci_delete i = None \<and> create_done acts i
      | Draining \<Rightarrow> create_done acts i \<and> delete_open acts i
      | Deleting \<Rightarrow> create_done acts i \<and> delete_open acts i
      | Deleted \<Rightarrow> create_done acts i \<and> delete_done acts i
      | InstanceFailed \<Rightarrow> False)"

text \<open>What a claim handed out earlier still says about its action.\<close>

definition claim_ok :: "capacity_action list \<Rightarrow> capacity_claim \<Rightarrow> bool" where
  "claim_ok acts c \<longleftrightarrow> (\<exists>a \<in> set acts. ca_id a = cc_id c \<and> ca_pool a = pd_id (cc_pool c) \<and>
     cc_fence c \<le> ca_fence a \<and>
     (ca_state a = Claimed \<and> ca_fence a = cc_fence c \<longrightarrow> kind_name (ca_kind a) = cc_kind c))"

definition ledger_inv :: "ledger_sys \<Rightarrow> bool" where
  "ledger_inv x = (case x of (s, C) \<Rightarrow>
     distinct (map ca_id (actions s)) \<and> unique_where open_action ca_pool (actions s) \<and>
     list_all action_shape (actions s) \<and>
     distinct (map ci_id (instances s)) \<and> distinct (map ci_create (instances s)) \<and>
     unique_where (\<lambda>i. ci_delete i \<noteq> None) ci_delete (instances s) \<and>
     list_all (instance_ok (actions s)) (instances s) \<and> list_all (claim_ok (actions s)) C)"

lemma ledger_invD:
  assumes "ledger_inv (s, C)"
  shows "distinct (map ca_id (actions s))" "unique_where open_action ca_pool (actions s)"
    "\<And>a. a \<in> set (actions s) \<Longrightarrow> action_shape a"
    "distinct (map ci_id (instances s))" "distinct (map ci_create (instances s))"
    "unique_where (\<lambda>i. ci_delete i \<noteq> None) ci_delete (instances s)"
    "\<And>i. i \<in> set (instances s) \<Longrightarrow> instance_ok (actions s) i"
    "\<And>c. c \<in> set C \<Longrightarrow> claim_ok (actions s) c"
  using assms by (auto simp: ledger_inv_def list_all_iff)

lemma ledger_inv_cong:
  "actions s' = actions s \<Longrightarrow> instances s' = instances s \<Longrightarrow> ledger_inv (s', C) = ledger_inv (s, C)"
  by (simp add: ledger_inv_def)

lemma ledger_inv_claim:
  "ledger_inv (s, c # C) \<longleftrightarrow> ledger_inv (s, C) \<and> claim_ok (actions s) c"
  by (auto simp: ledger_inv_def)

section \<open>Changes of actions\<close>

text \<open>
  How one action row may change without breaking the invariant; \<open>owner\<close> says whether a live instance
  depends on it.
\<close>

definition action_evolves :: "bool \<Rightarrow> capacity_action \<Rightarrow> capacity_action \<Rightarrow> bool" where
  "action_evolves owner a b \<longleftrightarrow> ca_id b = ca_id a \<and> ca_pool b = ca_pool a \<and>
     (open_action b \<longrightarrow> open_action a) \<and> (ca_state a = Completed \<longrightarrow> ca_state b = Completed) \<and>
     ca_fence a \<le> ca_fence b \<and>
     (ca_state b = Claimed \<and> ca_fence b = ca_fence a \<longrightarrow> ca_state a = Claimed \<and> ca_kind b = ca_kind a) \<and>
     (owner \<longrightarrow> ca_kind b = ca_kind a \<and> (open_action a \<longrightarrow> open_action b)) \<and>
     action_shape b"

lemma action_evolves_refl: "action_shape a \<Longrightarrow> action_evolves owner a a"
  by (simp add: action_evolves_def)

lemma action_evolves_weaken: "action_evolves o1 a b \<Longrightarrow> (o2 \<Longrightarrow> o1) \<Longrightarrow> action_evolves o2 a b"
  by (simp add: action_evolves_def)

lemma bound_actionI: "i \<in> set (instances s) \<Longrightarrow> owned_by a i \<Longrightarrow> live_instance i \<Longrightarrow> bound_action s a"
  by (auto simp: bound_action_def list_ex_iff)

definition acts_evolve :: "(capacity_action \<Rightarrow> bool) \<Rightarrow> capacity_action list \<Rightarrow> capacity_action list \<Rightarrow> bool" where
  "acts_evolve owner acts acts' \<longleftrightarrow> (\<forall>a \<in> set acts. \<exists>b \<in> set acts'. action_evolves (owner a) a b)"

lemma acts_evolveE:
  assumes "acts_evolve owner acts acts'" "a \<in> set acts"
  obtains b where "b \<in> set acts'" "action_evolves (owner a) a b"
  using assms by (auto simp: acts_evolve_def)

lemma create_done_evolves: "acts_evolve ow acts acts' \<Longrightarrow> create_done acts i \<Longrightarrow> create_done acts' i"
  unfolding create_done_def by (fastforce elim: acts_evolveE simp: action_evolves_def)

lemma delete_done_evolves:
  assumes ev: "acts_evolve ow acts acts'" and d: "delete_done acts i"
  shows "delete_done acts' i"
proof -
  from d obtain a where a: "a \<in> set acts" "ci_delete i = Some (ca_id a)" "ca_state a = Completed"
    by (auto simp: delete_done_def)
  moreover from ev a(1) obtain b where "b \<in> set acts'" "action_evolves (ow a) a b" by (rule acts_evolveE)
  ultimately show ?thesis unfolding delete_done_def
    by (intro bexI[of _ b]) (simp_all add: action_evolves_def)
qed

lemma create_open_evolves:
  assumes ev: "acts_evolve ow acts acts'" and ow: "\<And>a. owned_by a i \<Longrightarrow> ow a" and c: "create_open acts i"
  shows "create_open acts' i"
proof -
  from c obtain a where a: "a \<in> set acts" "ca_id a = ci_create i" "ca_pool a = ci_pool i"
    "ca_kind a = ScaleUp" "open_action a" by (auto simp: create_open_def)
  moreover from a(2) have "ow a" by (intro ow) (simp add: owned_by_def)
  moreover from ev a(1) obtain b where "b \<in> set acts'" "action_evolves (ow a) a b" by (rule acts_evolveE)
  ultimately show ?thesis unfolding create_open_def
    by (intro bexI[of _ b]) (simp_all add: action_evolves_def)
qed

lemma delete_open_evolves:
  assumes ev: "acts_evolve ow acts acts'" and ow: "\<And>a. owned_by a i \<Longrightarrow> ow a" and c: "delete_open acts i"
  shows "delete_open acts' i"
proof -
  from c obtain a where a: "a \<in> set acts" "ci_delete i = Some (ca_id a)" "ca_pool a = ci_pool i"
    "ca_kind a = ScaleDown" "open_action a" by (auto simp: delete_open_def)
  moreover from a(2) have "ow a" by (intro ow) (simp add: owned_by_def)
  moreover from ev a(1) obtain b where "b \<in> set acts'" "action_evolves (ow a) a b" by (rule acts_evolveE)
  ultimately show ?thesis unfolding delete_open_def
    by (intro bexI[of _ b]) (simp_all add: action_evolves_def)
qed

lemma instance_ok_evolves:
  assumes "acts_evolve ow acts acts'" "\<And>a. live_instance i \<Longrightarrow> owned_by a i \<Longrightarrow> ow a" "instance_ok acts i"
  shows "instance_ok acts' i"
  using assms(3) create_done_evolves[OF assms(1)] delete_done_evolves[OF assms(1)]
    create_open_evolves[OF assms(1), of i] delete_open_evolves[OF assms(1), of i] assms(2)
  by (cases "ci_state i") (auto simp: instance_ok_def live_instance_def)

lemma claim_ok_evolves:
  assumes "acts_evolve ow acts acts'" "claim_ok acts c"
  shows "claim_ok acts' c"
proof -
  from assms(2) obtain a where a: "a \<in> set acts" "ca_id a = cc_id c" "ca_pool a = pd_id (cc_pool c)"
    "cc_fence c \<le> ca_fence a"
    "ca_state a = Claimed \<and> ca_fence a = cc_fence c \<longrightarrow> kind_name (ca_kind a) = cc_kind c"
    by (auto simp: claim_ok_def)
  from assms(1) a(1) obtain b where b: "b \<in> set acts'" and e: "action_evolves (ow a) a b"
    by (rule acts_evolveE)
  have k: "kind_name (ca_kind b) = cc_kind c" if "ca_state b = Claimed" "ca_fence b = cc_fence c"
  proof -
    have "ca_fence b = ca_fence a" using that e a(4) by (auto simp: action_evolves_def)
    moreover from this have "ca_state a = Claimed" "ca_kind b = ca_kind a"
      using that e by (auto simp: action_evolves_def)
    ultimately show ?thesis using a(5) that by simp
  qed
  show ?thesis unfolding claim_ok_def
    by (rule bexI[OF _ b]) (use a e k in \<open>auto simp: action_evolves_def\<close>)
qed

lemma acts_evolve_update:
  assumes "\<And>a. a \<in> set acts \<Longrightarrow> action_shape a" "\<And>a. a \<in> set acts \<Longrightarrow> p a \<Longrightarrow> action_evolves (ow a) a (f a)"
  shows "acts_evolve ow acts (update_where p f acts)"
  unfolding acts_evolve_def
proof
  fix a assume "a \<in> set acts"
  then show "\<exists>b \<in> set (update_where p f acts). action_evolves (ow a) a b"
    using assms(2)[of a] action_evolves_refl[OF assms(1)[of a]]
    by (cases "p a") (auto simp: set_update_where)
qed

text \<open>The part of the invariant about actions alone.\<close>

lemma actions_inv_update:
  assumes inv: "ledger_inv (s, C)"
    and ev: "\<And>a. a \<in> set (actions s) \<Longrightarrow> p a \<Longrightarrow> action_evolves (ow a) a (f a)"
  shows "distinct (map ca_id (update_where p f (actions s)))"
    "unique_where open_action ca_pool (update_where p f (actions s))"
    "list_all action_shape (update_where p f (actions s))"
    "list_all (claim_ok (update_where p f (actions s))) C"
proof -
  note D = ledger_invD[OF inv]
  have "map ca_id (update_where p f (actions s)) = map ca_id (actions s)"
    unfolding update_where_def using ev by (auto simp: action_evolves_def)
  with D(1) show "distinct (map ca_id (update_where p f (actions s)))" by simp
  show "unique_where open_action ca_pool (update_where p f (actions s))"
    by (rule unique_where_update_keep[OF D(2)]) (use ev in \<open>auto simp: action_evolves_def\<close>)
  show "list_all action_shape (update_where p f (actions s))"
    using ev D(3) by (auto simp: list_all_iff set_update_where action_evolves_def)
  have "acts_evolve ow (actions s) (update_where p f (actions s))"
    by (rule acts_evolve_update[OF D(3)]) (use ev in auto)
  then show "list_all (claim_ok (update_where p f (actions s))) C"
    using D(8) by (auto simp: list_all_iff intro: claim_ok_evolves)
qed

lemma inv_update_actions:
  assumes inv: "ledger_inv (s, C)"
    and ev: "\<And>a. a \<in> set (actions s) \<Longrightarrow> p a \<Longrightarrow> action_evolves (bound_action s a) a (f a)"
    and s': "actions s' = update_where p f (actions s)" "instances s' = instances s"
  shows "ledger_inv (s', C)"
proof -
  note D = ledger_invD[OF inv]
  have e: "acts_evolve (bound_action s) (actions s) (actions s')"
    unfolding s' by (rule acts_evolve_update[OF D(3)]) (use ev in auto)
  have "instance_ok (actions s') i" if "i \<in> set (instances s)" for i
    by (rule instance_ok_evolves[OF e _ D(7)[OF that]]) (rule bound_actionI[OF that])
  then show ?thesis
    unfolding ledger_inv_def list_all_iff
    using D actions_inv_update[OF inv ev] s' by (auto simp: list_all_iff)
qed

lemma inv_insert_action:
  assumes inv: "ledger_inv (s, C)" and ins: "insert_action a s = Inr s'"
    and a: "action_shape a" "\<not> list_ex (open_in_pool (ca_pool a)) (actions s)"
  shows "ledger_inv (s', C)"
proof -
  note D = ledger_invD[OF inv]
  from ins have s': "actions s' = actions s @ [a]" "instances s' = instances s"
    "ca_id a \<notin> ca_id ` set (actions s)"
    by (auto simp: insert_action_def split: if_splits)
  have e: "acts_evolve (\<lambda>_. True) (actions s) (actions s')"
    unfolding acts_evolve_def s' using action_evolves_refl D(3) by auto
  have un: "unique_where open_action ca_pool (actions s')"
    using a(2) D(2) by (auto simp: s' open_in_pool_def list_ex_iff)
  show ?thesis
    unfolding ledger_inv_def list_all_iff
    using D a(1) un s'(3) instance_ok_evolves[OF e] claim_ok_evolves[OF e] by (auto simp: s'(1,2))
qed

section \<open>Changes of instances\<close>

lemma inv_update_instances:
  assumes inv: "ledger_inv (s, C)"
    and ok: "\<And>r. r \<in> set (instances s) \<Longrightarrow> p r \<Longrightarrow>
      ci_id (g r) = ci_id r \<and> ci_create (g r) = ci_create r \<and> instance_ok (actions s) (g r)"
    and un: "unique_where (\<lambda>i. ci_delete i \<noteq> None) ci_delete (instances s')"
    and s': "actions s' = actions s" "instances s' = update_where p g (instances s)"
  shows "ledger_inv (s', C)"
proof -
  note D = ledger_invD[OF inv]
  have k: "map ci_id (instances s') = map ci_id (instances s)"
    "map ci_create (instances s') = map ci_create (instances s)"
    unfolding s' update_where_def using ok by auto
  have "instance_ok (actions s') i" if "i \<in> set (instances s')" for i
    using that ok D(7) by (auto simp: s' set_update_where)
  then show ?thesis
    unfolding ledger_inv_def list_all_iff using D k un s'(1) by auto
qed

lemma inv_insert_instance:
  assumes inv: "ledger_inv (s, C)" and ins: "insert_instance i s = Inr s'"
    and i: "ci_create i \<notin> ci_create ` set (instances s)" "ci_delete i = None" "instance_ok (actions s) i"
  shows "ledger_inv (s', C)"
proof -
  from ins have "actions s' = actions s" "instances s' = instances s @ [i]"
    "ci_id i \<notin> ci_id ` set (instances s)"
    by (auto simp: insert_instance_def split: if_splits)
  with ledger_invD[OF inv] i show ?thesis
    unfolding ledger_inv_def list_all_iff by auto
qed

text \<open>
  At most one live instance hangs off an open action, and an instance between states hangs off the
  open action of its pool.
\<close>

lemma open_owner:
  assumes inv: "ledger_inv (s, C)" and a: "a \<in> set (actions s)" "open_action a"
    and r: "r \<in> set (instances s)" "ci_pool r = ca_pool a"
  shows "ci_state r = Provisioning \<Longrightarrow> ci_create r = ca_id a \<and> ca_kind a = ScaleUp"
    "ci_state r \<in> {Draining, Deleting} \<Longrightarrow> ci_delete r = Some (ca_id a) \<and> ca_kind a = ScaleDown"
proof -
  note D = ledger_invD[OF inv]
  have eq: "b = a" if "b \<in> set (actions s)" "open_action b" "ca_pool b = ci_pool r" for b
    using unique_whereD[OF D(2) that(1) a(1) that(2) a(2)] that(3) r(2) by simp
  show "ci_create r = ca_id a \<and> ca_kind a = ScaleUp" if "ci_state r = Provisioning"
  proof -
    from D(7)[OF r(1)] that have "create_open (actions s) r" by (simp add: instance_ok_def)
    then show ?thesis unfolding create_open_def using eq by fastforce
  qed
  show "ci_delete r = Some (ca_id a) \<and> ca_kind a = ScaleDown" if "ci_state r \<in> {Draining, Deleting}"
  proof -
    from D(7)[OF r(1)] that have "delete_open (actions s) r" by (auto simp: instance_ok_def)
    then show ?thesis unfolding delete_open_def using eq by fastforce
  qed
qed

lemma open_sole_owner:
  assumes inv: "ledger_inv (s, C)" and a: "a \<in> set (actions s)" "open_action a"
    and x: "x \<in> set (instances s)" "owned_by a x" "live_instance x"
  shows "ci_state x = Provisioning \<and> ci_create x = ca_id a \<and> ca_kind a = ScaleUp \<or>
    ci_state x \<in> {Draining, Deleting} \<and> ci_delete x = Some (ca_id a) \<and> ca_kind a = ScaleDown"
proof -
  note D = ledger_invD[OF inv]
  have same: "b = a" if "b \<in> set (actions s)" "ca_id b = ca_id a" for b
    using distinct_key_eq[OF D(1) that(1) a(1) that(2)] .
  have nc: "\<not> (create_done (actions s) x \<and> ci_create x = ca_id a)"
    using same a(2) by (force simp: create_done_def open_action_def)
  from D(7)[OF x(1)] x(2,3) nc show ?thesis
    unfolding owned_by_def instance_ok_def live_instance_def create_open_def delete_open_def
    by (cases "ci_state x") (use same in auto)
qed

text \<open>Closing the open action together with the state change of its instance.\<close>

lemma sole_live_instance:
  assumes inv: "ledger_inv (s, C)" and a: "a \<in> set (actions s)" "open_action a"
    and r: "r \<in> set (instances s)" "ci_pool r = ca_pool a" "ci_state r \<in> {Provisioning, Draining, Deleting}"
    and x: "x \<in> set (instances s)" "owned_by a x" "live_instance x"
  shows "x = r"
proof -
  note D = ledger_invD[OF inv]
  from open_sole_owner[OF inv a x] open_owner[OF inv a r(1,2)] r(3)
  have "ci_create x = ci_create r \<or> ci_delete x = ci_delete r \<and> ci_delete x \<noteq> None" by auto
  then show ?thesis
  proof
    assume "ci_create x = ci_create r"
    then show ?thesis by (rule distinct_key_eq[OF D(5) x(1) r(1)])
  next
    assume "ci_delete x = ci_delete r \<and> ci_delete x \<noteq> None"
    then obtain d where "ci_delete x = Some d" "ci_delete r = Some d" by (cases "ci_delete r") auto
    then show ?thesis by (intro unique_whereD[OF D(6) x(1) r(1)]) simp_all
  qed
qed

lemma inv_close:
  assumes inv: "ledger_inv (s, C)" and a: "a \<in> set (actions s)" "open_action a"
    and r: "r \<in> set (instances s)" "ci_pool r = ca_pool a"
    and p: "\<And>b. b \<in> set (actions s) \<Longrightarrow> p b \<longleftrightarrow> b = a" "action_evolves False a (f a)" "ca_state (f a) = Completed"
    and q: "\<And>x. x \<in> set (instances s) \<Longrightarrow> q x \<longleftrightarrow> x = r"
    and g: "ci_id (g r) = ci_id r" "ci_create (g r) = ci_create r" "ci_delete (g r) = ci_delete r"
      "ci_state r = Provisioning \<and> ci_state (g r) = Active \<or> ci_state r = Deleting \<and> ci_state (g r) = Deleted"
    and s': "actions s' = update_where p f (actions s)" "instances s' = update_where q g (instances s)"
  shows "ledger_inv (s', C)"
proof -
  note D = ledger_invD[OF inv]
  have ev: "action_evolves (b \<noteq> a) b (f b)" if "b \<in> set (actions s)" "p b" for b
    using that p by simp
  have e: "acts_evolve (\<lambda>b. b \<noteq> a) (actions s) (actions s')"
    unfolding s' by (rule acts_evolve_update[OF D(3)]) (use ev in auto)
  have fa: "f a \<in> set (actions s')" using a(1) p(1) by (force simp: s' set_update_where)
  have keys: "map ci_id (instances s') = map ci_id (instances s)"
    "map ci_create (instances s') = map ci_create (instances s)"
    "map ci_delete (instances s') = map ci_delete (instances s)"
    unfolding s' update_where_def using q g by auto
  have un: "unique_where (\<lambda>i. ci_delete i \<noteq> None) ci_delete (instances s')"
    unfolding s'(2) by (rule unique_where_update_keep[OF D(6)]) (use q g in auto)
  have other: "instance_ok (actions s') x" if x: "x \<in> set (instances s)" "x \<noteq> r" for x
    by (rule instance_ok_evolves[OF e _ D(7)[OF x(1)]])
      (use sole_live_instance[OF inv a r _ x(1)] x(2) g(4) in auto)
  have dd: "delete_done (actions s') (g r)" if "ci_state r = Deleting"
    unfolding delete_done_def
    by (rule bexI[OF _ fa]) (use that p(2,3) g(3) open_owner[OF inv a r] in \<open>simp add: action_evolves_def\<close>)
  have cd: "create_done (actions s') (g r)" if "ci_state r = Provisioning"
    unfolding create_done_def
    by (rule bexI[OF _ fa]) (use that p(2,3) g(2) open_owner[OF inv a r] in \<open>simp add: action_evolves_def\<close>)
  have ce: "create_done (actions s') (g r)" if "create_done (actions s) r"
    using create_done_evolves[OF e that] g(2) by (simp add: create_done_def)
  have "instance_ok (actions s') (g r)"
    using D(7)[OF r(1)] g dd cd ce by (auto simp: instance_ok_def)
  then have "instance_ok (actions s') i" if "i \<in> set (instances s')" for i
    using that other q by (auto simp: s'(2) set_update_where split: if_splits)
  then show ?thesis
    unfolding ledger_inv_def list_all_iff
    using keys D(4,5) un actions_inv_update[OF inv ev] s' by (auto simp: list_all_iff)
qed

section \<open>The operations keep the invariant\<close>

lemma validate_fenceD:
  assumes "validateCapacityActionFence now c s = Inr u"
  obtains a where "a \<in> set (actions s)" "ca_id a = cc_id c" "fence_current now c a" "open_action a"
  using assms lookup_by_Some[of ca_id "cc_id c" "actions s"]
  by (auto simp: validateCapacityActionFence_def fence_current_def open_action_def
      split: if_splits option.splits)

lemma current_action:
  assumes inv: "ledger_inv (s, C)" and c: "c \<in> set C"
    and a: "a \<in> set (actions s)" "ca_id a = cc_id c" "fence_current now c a"
  shows "ca_pool a = pd_id (cc_pool c)" "kind_name (ca_kind a) = cc_kind c"
proof -
  note D = ledger_invD[OF inv]
  from D(8)[OF c] obtain b where b: "b \<in> set (actions s)" "ca_id b = cc_id c" "ca_pool b = pd_id (cc_pool c)"
    "ca_state b = Claimed \<and> ca_fence b = cc_fence c \<longrightarrow> kind_name (ca_kind b) = cc_kind c"
    by (auto simp: claim_ok_def)
  have "b = a" using distinct_key_eq[OF D(1) b(1) a(1)] b(2) a(2) by simp
  with b a show "ca_pool a = pd_id (cc_pool c)" "kind_name (ca_kind a) = cc_kind c"
    by (auto simp: fence_current_def)
qed

lemma scan_claim_ok:
  assumes "scanCapacityAction s a = Some c" "a \<in> set acts"
  shows "claim_ok acts c"
  using assms lookup_by_Some[of "\<lambda>r. pd_id (pr_pool r)" "ca_pool a" "pools s"]
  by (auto simp: scanCapacityAction_def claim_ok_def split: option.splits)

lemma new_action_shape: "action_shape (new_action now aid pool k req obs reason)"
  by (simp add: action_shape_def new_action_def)

lemma request_cases:
  assumes r: "RequestCapacityAction now aid pool kind req obs reason s = Inr (c, s')"
  obtains (existing) a where "a \<in> set (actions s)" "s' = s" "scanCapacityAction s' a = Some c"
  | (inserted) a where "insert_action a s = Inr s'" "action_shape a" "ca_pool a = pool"
      "scanCapacityAction s' a = Some c" "\<not> list_ex (open_in_pool pool) (actions s)"
proof -
  from r obtain k a where k: "(case find (open_in_pool pool) (actions s) of
       Some a \<Rightarrow> Inr (a, s)
     | None \<Rightarrow> bind_result (insert_action (new_action now aid pool k req obs
                 (truncate_bytes capacityActionMaxDetail reason)) s)
         (\<lambda>s'. Inr (new_action now aid pool k req obs (truncate_bytes capacityActionMaxDetail reason), s')))
      = Inr (a, s')" and c: "scanCapacityAction s' a = Some c"
    by (auto simp: RequestCapacityAction_def bind_result_Inr Let_def split: if_splits option.splits)
  show ?thesis
  proof (cases "find (open_in_pool pool) (actions s)")
    case None
    with k have i: "insert_action a s = Inr s'" "a = new_action now aid pool k req obs
        (truncate_bytes capacityActionMaxDetail reason)"
      by (auto simp: bind_result_Inr)
    have "ca_pool a = pool" by (simp add: i(2) new_action_def)
    with None c i new_action_shape show ?thesis by (intro inserted) (auto simp: find_None_iff list_ex_iff)
  next
    case (Some b)
    with k have "s' = s" "a \<in> set (actions s)" by (auto simp: find_Some_iff)
    with c show ?thesis by (intro existing)
  qed
qed

lemma request_inv:
  assumes inv: "ledger_inv (s, C)" and r: "RequestCapacityAction now aid pool kind req obs reason s = Inr (c, s')"
  shows "ledger_inv (s', c # C)"
  using r
proof (cases rule: request_cases)
  case (existing a)
  with inv show ?thesis by (simp add: ledger_inv_claim scan_claim_ok)
next
  case (inserted a)
  then have "ledger_inv (s', C)" by (intro inv_insert_action[OF inv]) auto
  moreover have "a \<in> set (actions s')"
    using inserted(1) by (auto simp: insert_action_def split: if_splits)
  ultimately show ?thesis by (simp add: ledger_inv_claim scan_claim_ok[OF inserted(4)])
qed

lemma claim_inv:
  assumes inv: "ledger_inv (s, C)" and r: "ClaimCapacityAction now locked owner lease s = Inr (r, s')"
  shows "ledger_inv (s', (case r of None \<Rightarrow> C | Some c \<Rightarrow> c # C))"
proof (cases "claim_candidate now locked s")
  case None
  with r inv show ?thesis by (auto simp: ClaimCapacityAction_def Let_def split: if_splits)
next
  case (Some a)
  let ?f = "claim_action now (TrimSpace owner) lease"
  have a: "a \<in> set (actions s)" "claimable now a"
    using order_limit1_in[OF Some[unfolded claim_candidate_def]] by auto
  from r Some have s': "s' = s\<lparr>actions := update_where (\<lambda>b. ca_id b = ca_id a) ?f (actions s)\<rparr>"
    "r = scanCapacityAction s (?f a)" "TrimSpace owner \<noteq> []"
    by (auto simp: ClaimCapacityAction_def Let_def split: if_splits)
  have "b = a" if "b \<in> set (actions s)" "ca_id b = ca_id a" for b
    using distinct_key_eq[OF ledger_invD(1)[OF inv] that(1) a(1) that(2)] .
  moreover have "action_evolves (bound_action s a) a (?f a)"
    using a s'(3) ledger_invD(3)[OF inv a(1)]
    by (auto simp: action_evolves_def claim_action_def claimable_def open_action_def action_shape_def)
  ultimately have "ledger_inv (s', C)"
    by (intro inv_update_actions[OF inv, where p = "\<lambda>b. ca_id b = ca_id a" and f = ?f]) (auto simp: s'(1))
  moreover have "?f a \<in> set (actions s')"
    using a(1) by (force simp: s'(1) set_update_where)
  ultimately show ?thesis
    using scan_claim_ok[of s "?f a"] s'(2) by (auto simp: ledger_inv_claim split: option.splits)
qed

lemma update_claimed_inv:
  assumes inv: "ledger_inv (s, C)" and u: "update_claimed now c f s = Inr s'"
    and f: "\<And>a. a \<in> set (actions s) \<Longrightarrow> ca_id a = cc_id c \<Longrightarrow> fence_current now c a \<Longrightarrow>
      action_evolves (bound_action s a) a (f a)"
  shows "ledger_inv (s', C)"
proof (rule inv_update_actions[OF inv, where p = "\<lambda>a. ca_id a = cc_id c \<and> fence_current now c a" and f = f])
  show "actions s' = update_where (\<lambda>a. ca_id a = cc_id c \<and> fence_current now c a) f (actions s)"
    "instances s' = instances s"
    using u by (auto simp: update_claimed_def Let_def split: if_splits)
qed (use f in auto)

lemma renew_inv:
  assumes inv: "ledger_inv (s, C)" and r: "RenewCapacityAction now c lease s = Inr (u, s')"
  shows "ledger_inv (s', C)"
proof -
  from r have u: "update_claimed now c (ca_lease_update (\<lambda>_. Some (now + lease))) s = Inr s'"
    by (auto simp: RenewCapacityAction_def bind_result_Inr split: if_splits)
  show ?thesis
    by (rule update_claimed_inv[OF inv u])
      (use ledger_invD(3)[OF inv] in \<open>auto simp: action_evolves_def open_action_def action_shape_def\<close>)
qed

lemma retry_inv:
  assumes inv: "ledger_inv (s, C)" and r: "RetryCapacityAction now c detail s = Inr (u, s')"
  shows "ledger_inv (s', C)"
proof -
  from r obtain f where u: "update_claimed now c f s = Inr s'" and
    f: "f = (\<lambda>a. a\<lparr>ca_state := Requested, ca_detail := truncate_bytes capacityActionMaxDetail detail,
                 ca_owner := [], ca_lease := None,
                 ca_next_attempt := now + retry_backoff (ca_attempts a)\<rparr>)"
    by (auto simp: RetryCapacityAction_def bind_result_Inr)
  show ?thesis
    by (rule update_claimed_inv[OF inv u])
      (auto simp: f action_evolves_def open_action_def action_shape_def fence_current_def
        dest: ledger_invD(3)[OF inv])
qed

lemma reserve_inv:
  assumes inv: "ledger_inv (s, C)" and c: "c \<in> set C"
    and r: "ReserveCapacityInstance now iid token c s = Inr (i, s')"
  shows "ledger_inv (s', C)"
proof -
  from r have v: "validateCapacityActionFence now c s = Inr ()" and k: "cc_kind c = ''scale-up''"
    and step: "s' = s \<or> lookup_by ci_create (cc_id c) (instances s) = None \<and>
        insert_instance (new_instance now iid token c) s = Inr s'"
    by (auto simp: ReserveCapacityInstance_def bind_result_Inr split: if_splits option.splits)
  from v obtain a where a: "a \<in> set (actions s)" "ca_id a = cc_id c" "fence_current now c a" "open_action a"
    by (rule validate_fenceD)
  note ca = current_action[OF inv c a(1-3)]
  have "ca_kind a = ScaleUp" using ca(2) k by (cases "ca_kind a") auto
  with a ca(1) have "instance_ok (actions s) (new_instance now iid token c)"
    by (auto simp: instance_ok_def new_instance_def create_open_def)
  with step inv show ?thesis
    by (auto simp: lookup_by_None new_instance_def intro: inv_insert_instance[OF inv])
qed

lemma update_owned_inv:
  assumes inv: "ledger_inv (s, C)" and u: "update_owned c i st g s = Inr s'"
    and g: "\<And>r. r \<in> set (instances s) \<Longrightarrow> ci_state r = st \<Longrightarrow> ci_id (g r) = ci_id r \<and>
      ci_create (g r) = ci_create r \<and> ci_delete (g r) = ci_delete r \<and> instance_ok (actions s) (g r)"
  shows "ledger_inv (s', C)"
proof -
  from u have s': "actions s' = actions s" "instances s' = update_where (owned_row c i st) g (instances s)"
    by (auto simp: update_owned_def split: if_splits)
  have "unique_where (\<lambda>i. ci_delete i \<noteq> None) ci_delete (instances s')"
    unfolding s'(2) by (rule unique_where_update_keep[OF ledger_invD(6)[OF inv]])
      (use g in \<open>auto simp: owned_row_def\<close>)
  then show ?thesis
    by (rule inv_update_instances[OF inv _ _ s', rotated]) (use g in \<open>auto simp: owned_row_def\<close>)
qed

lemma instance_ok_cong:
  assumes "ci_state j = ci_state i" "ci_create j = ci_create i" "ci_delete j = ci_delete i" "ci_pool j = ci_pool i"
  shows "instance_ok acts j = instance_ok acts i"
  using assms by (cases "ci_state i")
    (simp_all add: instance_ok_def create_open_def create_done_def delete_open_def delete_done_def)

lemma record_inv:
  assumes inv: "ledger_inv (s, C)"
    and r: "RecordCapacityInstanceProvisioned now c i ref attrs s = Inr (u, s')"
  shows "ledger_inv (s', C)"
proof -
  from r obtain data where
    "update_owned c i Provisioning (\<lambda>r. r\<lparr>ci_remote_ref := ref, ci_attributes := data\<rparr>) s = Inr s'"
    by (auto simp: RecordCapacityInstanceProvisioned_def bind_result_Inr)
  then show ?thesis
    by (rule update_owned_inv[OF inv])
      (use ledger_invD(7)[OF inv] in \<open>simp add: instance_ok_cong[of "r\<lparr>ci_remote_ref := ref, ci_attributes := data\<rparr>" r for r]\<close>)
qed

lemma begin_inv:
  assumes inv: "ledger_inv (s, C)" and r: "BeginCapacityInstanceDelete now c i s = Inr (u, s')"
  shows "ledger_inv (s', C)"
proof -
  from r have "update_owned c i Draining (\<lambda>r. r\<lparr>ci_state := Deleting\<rparr>) s = Inr s'"
    by (auto simp: BeginCapacityInstanceDelete_def bind_result_Inr split: if_splits)
  then show ?thesis
    by (rule update_owned_inv[OF inv])
      (use ledger_invD(7)[OF inv] in \<open>force simp: instance_ok_def create_done_def delete_open_def\<close>)
qed

text \<open>Confirming a heartbeat and completing a deletion close the action and move the instance.\<close>

lemma close_inv:
  assumes inv: "ledger_inv (s, C)" and c: "c \<in> set C"
    and v: "validateCapacityActionFence now c s = Inr u"
    and s1: "update_owned c i st g s = Inr s1" and s2: "completeCapacityActionTx now c s1 = Inr s2"
    and g: "\<And>r. ci_state r = st \<Longrightarrow> ci_id (g r) = ci_id r \<and> ci_create (g r) = ci_create r \<and>
      ci_delete (g r) = ci_delete r \<and>
      (st = Provisioning \<and> ci_state (g r) = Active \<or> st = Deleting \<and> ci_state (g r) = Deleted)"
  shows "ledger_inv (s2, C)"
proof -
  note D = ledger_invD[OF inv]
  define f where "f = (\<lambda>a :: capacity_action. a\<lparr>ca_state := Completed, ca_owner := [], ca_lease := None, ca_detail := [],
              ca_completed_at := Some now\<rparr>)"
  from v obtain a where a: "a \<in> set (actions s)" "ca_id a = cc_id c" "fence_current now c a" "open_action a"
    by (rule validate_fenceD)
  from s1 have i1: "actions s1 = actions s" "instances s1 = update_where (owned_row c i st) g (instances s)"
    "0 < count_where (owned_row c i st) (instances s)"
    by (auto simp: update_owned_def split: if_splits)
  then obtain r where r: "r \<in> set (instances s)" "owned_row c i st r" by (auto simp: count_where_pos)
  from s2 have i2: "actions s2 = update_where (\<lambda>a. ca_id a = cc_id c \<and> fence_current now c a) f (actions s)"
    "instances s2 = update_where (owned_row c i st) g (instances s)"
    by (auto simp: completeCapacityActionTx_def update_claimed_def Let_def f_def i1 split: if_splits)
  have p: "ca_id b = cc_id c \<and> fence_current now c b \<longleftrightarrow> b = a" if "b \<in> set (actions s)" for b
    using distinct_key_eq[OF D(1) that a(1)] a(2,3) by auto
  have q: "owned_row c i st x \<longleftrightarrow> x = r" if "x \<in> set (instances s)" for x
    using distinct_key_eq[OF D(4) that r(1)] r(2) by (auto simp: owned_row_def)
  have ev: "action_evolves False a (f a)"
    using D(3)[OF a(1)] a(4) by (auto simp: f_def action_evolves_def open_action_def action_shape_def)
  have st: "ci_state r = st" using r(2) by (simp add: owned_row_def)
  show ?thesis
    by (rule inv_close[OF inv a(1,4) r(1) _ p ev _ q _ _ _ _ i2])
      (use r(2) current_action(1)[OF inv c a(1-3)] g[OF st] st in \<open>auto simp: owned_row_def f_def\<close>)
qed

lemma confirm_inv:
  assumes inv: "ledger_inv (s, C)" and c: "c \<in> set C"
    and r: "ConfirmCapacityInstanceHeartbeat now c i s = Inr (b, s')"
  shows "ledger_inv (s', C)"
proof (cases "count_where (heartbeat_worker now c i) (workers s) = 0")
  case True
  with r inv show ?thesis by (auto simp: ConfirmCapacityInstanceHeartbeat_def bind_result_Inr)
next
  case False
  with r obtain s1 where
    "validateCapacityActionFence now c s = Inr ()"
    "update_owned c i Provisioning (\<lambda>r. r\<lparr>ci_state := Active, ci_heartbeat := Some now\<rparr>) s = Inr s1"
    "completeCapacityActionTx now c s1 = Inr s'"
    by (auto simp: ConfirmCapacityInstanceHeartbeat_def bind_result_Inr simp del: count_where_0_iff)
  then show ?thesis by (rule close_inv[OF inv c]) auto
qed

lemma complete_delete_inv:
  assumes inv: "ledger_inv (s, C)" and c: "c \<in> set C"
    and r: "CompleteCapacityInstanceDelete now c i s = Inr (u, s')"
  shows "ledger_inv (s', C)"
proof -
  from r obtain s1 where
    "validateCapacityActionFence now c s = Inr ()"
    "update_owned c i Deleting (\<lambda>r. r\<lparr>ci_state := Deleted, ci_deleted_at := Some now\<rparr>) s = Inr s1"
    "completeCapacityActionTx now c s1 = Inr s'"
    by (auto simp: CompleteCapacityInstanceDelete_def bind_result_Inr)
  then show ?thesis by (rule close_inv[OF inv c]) auto
qed

lemma distinct_drain:
  assumes "distinct (map ci_id rows)" "distinct (map ci_delete (filter (\<lambda>i. ci_delete i \<noteq> None) rows))"
    and "i \<in> set rows" "ci_delete (g i) = Some d"
    and "\<And>j. j \<in> set rows \<Longrightarrow> j \<noteq> i \<Longrightarrow> ci_delete j \<noteq> Some d"
  shows "distinct (map ci_delete (filter (\<lambda>i. ci_delete i \<noteq> None) (update_where (\<lambda>j. ci_id j = ci_id i) g rows)))"
  using assms
proof (induction rows)
  case (Cons x xs)
  have idle: "update_where (\<lambda>j. ci_id j = ci_id i) g xs = xs" if "x = i"
    using that Cons.prems(1) by (intro update_where_idle) (metis distinct.simps(2) image_eqI list.set_map list.simps(9))
  have d: "Some d \<notin> ci_delete ` set xs" if "x = i"
    using that Cons.prems(1,5) by (force simp: image_iff)
  show ?case
  proof (cases "x = i")
    case True
    with idle d Cons.prems show ?thesis by (auto split: if_splits)
  next
    case False
    with Cons.prems have i: "i \<in> set xs" "ci_id x \<noteq> ci_id i" by force+
    have "distinct (map ci_delete (filter (\<lambda>i. ci_delete i \<noteq> None) (update_where (\<lambda>j. ci_id j = ci_id i) g xs)))"
      by (rule Cons.IH) (use Cons.prems i in \<open>auto split: if_splits\<close>)
    moreover have "ci_delete x \<notin> ci_delete ` set (filter (\<lambda>i. ci_delete i \<noteq> None)
        (update_where (\<lambda>j. ci_id j = ci_id i) g xs))" if "ci_delete x \<noteq> None"
    proof
      assume "ci_delete x \<in> ci_delete ` set (filter (\<lambda>i. ci_delete i \<noteq> None)
        (update_where (\<lambda>j. ci_id j = ci_id i) g xs))"
      then obtain y where y: "y \<in> set xs"
        "ci_delete x = ci_delete (if ci_id y = ci_id i then g y else y)" by (auto simp: set_update_where)
      have "ci_id y = ci_id i \<longrightarrow> y = i"
        using distinct_key_eq[of ci_id xs y i] Cons.prems(1) y(1) i(1) by simp
      with y Cons.prems(2,4) Cons.prems(5)[of x] False that show False
        by (cases "ci_id y = ci_id i") (auto simp: image_iff split: if_splits)
    qed
    ultimately show ?thesis using i(2) by simp
  qed
qed simp

lemma drain_targetD:
  assumes "drain_target locked c s = Some i"
  shows "i \<in> set (instances s)" "ci_pool i = pd_id (cc_pool c)"
    "drain_existing c i \<or> ci_state i = Active \<and> (\<forall>j \<in> set (instances s). \<not> drain_existing c j)"
proof -
  have "i \<in> set (instances s) \<and> ci_pool i = pd_id (cc_pool c) \<and>
    (drain_existing c i \<or> ci_state i = Active \<and> (\<forall>j \<in> set (instances s). \<not> drain_existing c j))"
  proof (cases "find (drain_existing c) (instances s)")
    case None
    with assms have "order_limit1 drain_order (filter (\<lambda>i. ci_pool i = pd_id (cc_pool c) \<and>
        ci_state i = Active \<and> \<not> locked (ci_id i)) (instances s)) = Some i"
      by (simp add: drain_target_def)
    from order_limit1_in[OF this] None show ?thesis by (auto simp: find_None_iff)
  next
    case (Some j)
    with assms show ?thesis by (auto simp: drain_target_def find_Some_iff drain_existing_def)
  qed
  then show "i \<in> set (instances s)" "ci_pool i = pd_id (cc_pool c)"
    "drain_existing c i \<or> ci_state i = Active \<and> (\<forall>j \<in> set (instances s). \<not> drain_existing c j)" by auto
qed

text \<open>No other instance carries the claimed action as its delete action.\<close>

lemma drain_target_unique:
  assumes inv: "ledger_inv (s, C)" and a: "a \<in> set (actions s)" "ca_id a = cc_id c" "open_action a"
      "ca_pool a = pd_id (cc_pool c)"
    and t: "drain_target locked c s = Some i" and j: "j \<in> set (instances s)" "ci_delete j = Some (cc_id c)"
  shows "j = i"
proof -
  note D = ledger_invD[OF inv]
  have same: "b = a" if "b \<in> set (actions s)" "ca_id b = cc_id c" for b
    using distinct_key_eq[OF D(1) that(1) a(1)] that(2) a(2) by simp
  have "\<not> delete_done (actions s) j"
  proof
    assume "delete_done (actions s) j"
    then obtain b where "b \<in> set (actions s)" "ca_id b = cc_id c" "ca_state b = Completed"
      using j(2) by (auto simp: delete_done_def)
    with same a(3) show False by (auto simp: open_action_def)
  qed
  with D(7)[OF j(1)] j(2) have "ci_state j \<in> {Draining, Deleting} \<and> delete_open (actions s) j"
    by (cases "ci_state j") (auto simp: instance_ok_def)
  then have "drain_existing c j" using j(2) same a(4) by (auto simp: drain_existing_def delete_open_def)
  with drain_targetD(3)[OF t] j have "ci_delete i = Some (cc_id c)" by (auto simp: drain_existing_def)
  then show ?thesis using unique_whereD[OF D(6) j(1) drain_targetD(1)[OF t]] j(2) by simp
qed

lemma drain_instance_ok:
  assumes inv: "ledger_inv (s, C)" and a: "a \<in> set (actions s)" "ca_id a = cc_id c" "open_action a"
      "ca_pool a = pd_id (cc_pool c)" "ca_kind a = ScaleDown"
    and t: "drain_target locked c s = Some i"
  shows "instance_ok (actions s) (drain_instance now c i)"
proof -
  have "create_done (actions s) i"
    using ledger_invD(7)[OF inv drain_targetD(1)[OF t]] drain_targetD(3)[OF t]
    by (auto simp: instance_ok_def drain_existing_def)
  moreover have "delete_open (actions s) (drain_instance now c i)"
    unfolding delete_open_def
    by (rule bexI[OF _ a(1)]) (use a drain_targetD(2)[OF t] in \<open>simp add: drain_instance_def\<close>)
  ultimately show ?thesis by (auto simp: instance_ok_def drain_instance_def create_done_def)
qed

lemma select_inv:
  assumes inv: "ledger_inv (s, C)" and c: "c \<in> set C"
    and r: "SelectCapacityInstanceForDrain now locked c s = Inr (r, s')"
  shows "ledger_inv (s', C)"
proof (cases "drain_target locked c s")
  case None
  with r inv show ?thesis
    by (auto simp: SelectCapacityInstanceForDrain_def bind_result_Inr split: if_splits)
next
  case (Some i)
  with r have v: "validateCapacityActionFence now c s = Inr ()" and k: "cc_kind c = ''scale-down''"
    and s': "actions s' = actions s"
      "instances s' = update_where (\<lambda>j. ci_id j = ci_id i) (drain_instance now c) (instances s)"
    by (auto simp: SelectCapacityInstanceForDrain_def bind_result_Inr split: if_splits)
  from v obtain a where a: "a \<in> set (actions s)" "ca_id a = cc_id c" "fence_current now c a" "open_action a"
    by (rule validate_fenceD)
  note ca = current_action[OF inv c a(1-3)]
  have kind: "ca_kind a = ScaleDown" using ca(2) k by (cases "ca_kind a") auto
  have same: "j = i" if "j \<in> set (instances s)" "ci_id j = ci_id i" for j
    using distinct_key_eq[OF ledger_invD(4)[OF inv] that(1) drain_targetD(1)[OF Some] that(2)] .
  have others: "ci_delete j \<noteq> Some (cc_id c)" if "j \<in> set (instances s)" "j \<noteq> i" for j
    using drain_target_unique[OF inv a(1,2,4) ca(1) Some that(1)] that(2) by auto
  have un: "unique_where (\<lambda>i. ci_delete i \<noteq> None) ci_delete (instances s')"
    unfolding s'(2) unique_where_def
    by (rule distinct_drain[OF ledger_invD(4,6)[OF inv, unfolded unique_where_def] drain_targetD(1)[OF Some]])
      (use others in \<open>auto simp: drain_instance_def\<close>)
  have "ci_id (drain_instance now c j) = ci_id j \<and> ci_create (drain_instance now c j) = ci_create j \<and>
      instance_ok (actions s) (drain_instance now c j)" if "j \<in> set (instances s)" "ci_id j = ci_id i" for j
    unfolding same[OF that] using drain_instance_ok[OF inv a(1,2,4) ca(1) kind Some, of now]
    by (simp add: drain_instance_def)
  then show ?thesis by (rule inv_update_instances[OF inv _ un s'])
qed

section \<open>Reconcile transactions keep the invariant\<close>

lemma requestTx_inv:
  assumes inv: "ledger_inv (s, C)" and r: "requestCapacityActionTx now aid pool k req obs reason s = Inr s'"
  shows "ledger_inv (s', C)"
proof (cases "list_ex (open_in_pool pool) (actions s)")
  case True
  with r have "actions s' = update_where (\<lambda>a. open_in_pool pool a \<and> ca_state a = Requested \<and> \<not> bound_action s a)
      (refresh_action now k req obs (truncate_bytes capacityActionMaxDetail reason)) (actions s)"
    "instances s' = instances s"
    by (auto simp: requestCapacityActionTx_def Let_def)
  then show ?thesis
    by (rule inv_update_actions[OF inv, rotated])
      (use ledger_invD(3)[OF inv] in \<open>auto simp: action_evolves_def refresh_action_def open_action_def action_shape_def\<close>)
next
  case False
  with r have "insert_action (new_action now aid pool k req obs
      (truncate_bytes capacityActionMaxDetail reason)) s = Inr s'"
    by (auto simp: requestCapacityActionTx_def Let_def)
  then show ?thesis
    by (rule inv_insert_action[OF inv]) (use False in \<open>simp_all add: new_action_shape, simp add: new_action_def\<close>)
qed

lemma cancelTx_inv:
  assumes inv: "ledger_inv (s, C)"
  shows "ledger_inv (cancelRequestedCapacityActionTx now pool reason s, C)"
  by (rule inv_update_actions[OF inv, where
        p = "\<lambda>a. ca_pool a = pool \<and> ca_state a = Requested \<and> \<not> bound_action s a" and
        f = "cancel_action now (truncate_bytes capacityActionMaxDetail reason)"])
    (use ledger_invD(3)[OF inv] in \<open>auto simp: action_evolves_def cancel_action_def open_action_def
      action_shape_def cancelRequestedCapacityActionTx_def\<close>)

text \<open>Under the invariant there is nothing to reopen: no closed action owns a live instance.\<close>

lemma no_reopen_candidate:
  assumes inv: "ledger_inv (s, C)" and a: "a \<in> set (actions s)"
  shows "\<not> reopen_candidate s a"
proof
  assume rc: "reopen_candidate s a"
  then obtain i where i: "i \<in> set (instances s)" "ci_state i \<in> {Provisioning, Draining, Deleting}"
    and own: "ci_create i = ca_id a \<and> ca_kind a = ScaleUp \<or> ci_delete i = Some (ca_id a) \<and> ca_kind a = ScaleDown"
    and st: "ca_state a = Canceled \<or> ca_state a = Failed"
    by (auto simp: reopen_candidate_def list_ex_iff)
  have same: "b = a" if "b \<in> set (actions s)" "ca_id b = ca_id a" for b
    using distinct_key_eq[OF ledger_invD(1)[OF inv] that(1) a that(2)] .
  from ledger_invD(7)[OF inv i(1)] i(2) own st same show False
    by (fastforce simp: instance_ok_def create_open_def create_done_def delete_open_def open_action_def)
qed

lemma reopen_idle:
  assumes "ledger_inv (s, C)"
  shows "reopenBoundCapacityActionsTx now s = s"
  using no_reopen_candidate[OF assms]
  by (simp add: reopenBoundCapacityActionsTx_def update_where_idle reopened_def)

lemma pool_action_inv:
  assumes "ledger_inv (snd bs, C)" "reconcile_pool_action now fresh r bs = Inr bs'"
  shows "ledger_inv (snd bs', C)"
  using assms by (cases bs)
    (auto simp: reconcile_pool_action_def Let_def bind_result_Inr split: if_splits
      intro: requestTx_inv cancelTx_inv)

lemma cancel_fold_inv:
  "ledger_inv (s, C) \<Longrightarrow>
   ledger_inv (fold (\<lambda>r. cancelRequestedCapacityActionTx now (pd_id (pr_pool r)) reason) rows s, C)"
  by (induction rows arbitrary: s) (auto intro: cancelTx_inv)

lemma reconcile_actions_inv:
  assumes inv: "ledger_inv (s, C)" and r: "reconcileCapacityActionsTx now fresh policy rows active s = Inr s'"
  shows "ledger_inv (s', C)"
proof (cases "ap_mode policy = ''actuate''")
  case True
  with r reopen_idle[OF inv, of now] obtain b0 b where
    f: "fold_result (reconcile_pool_action now fresh) (sort_key pool_order rows) (b0, s) = Inr (b, s')"
    by (auto simp: reconcileCapacityActionsTx_def Let_def bind_result_Inr)
  have "ledger_inv (snd (b, s'), C)"
    by (rule fold_result_invariant[OF f, where I = "\<lambda>bs. ledger_inv (snd bs, C)"])
      (use inv pool_action_inv in auto)
  then show ?thesis by simp
next
  case False
  with r reopen_idle[OF inv, of now] inv show ?thesis
    by (auto simp: reconcileCapacityActionsTx_def Let_def intro: cancel_fold_inv)
qed

lemma reconcile_pool_keeps:
  assumes "reconcileCapacityPool now policy pool s = Inr (r, s')"
  shows "actions s' = actions s" "instances s' = instances s" "workers s' = workers s"
  using assms by (auto simp: reconcileCapacityPool_def Let_def split: if_splits)

lemma reconcile_pools_keeps:
  assumes "reconcile_pools now policy ps s = Inr (rows, s')"
  shows "actions s' = actions s \<and> instances s' = instances s \<and> workers s' = workers s"
  using assms
proof (induction ps arbitrary: s rows)
  case (Cons p ps)
  then obtain r s1 rs where "reconcileCapacityPool now policy p s = Inr (r, s1)"
    "reconcile_pools now policy ps s1 = Inr (rs, s')"
    by (auto simp: bind_result_Inr)
  with Cons.IH[of s1 rs] reconcile_pool_keeps show ?case by metis
qed simp

lemma reconcile_cases:
  assumes "ReconcileAutoscaling now fresh policy s = Inr (r, s')"
  obtains rows s1 where "validateAutoscalePolicy policy = Inr ()" "r = (fst r, rows)"
    "actions s1 = actions s" "instances s1 = instances s" "workers s1 = workers s"
    "reconcileCapacityActionsTx now fresh policy rows (ob_active (readAutoscaleObservation now s)) s1 = Inr s'"
proof -
  from assms obtain row rows s1 where
    v: "validateAutoscalePolicy policy = Inr ()" and r: "r = (row, rows)" and
    p: "reconcile_pools now policy (ap_pools policy) (s\<lparr>autoscale_state := Some row\<rparr>) = Inr (rows, s1)" and
    a: "reconcileCapacityActionsTx now fresh policy rows (ob_active (readAutoscaleObservation now s)) s1 = Inr s'"
    by (auto simp: ReconcileAutoscaling_def Let_def bind_result_Inr)
  show ?thesis
    by (rule that[OF v _ _ _ _ a]) (use r reconcile_pools_keeps[OF p] in auto)
qed

lemma reconcile_inv:
  assumes inv: "ledger_inv (s, C)" and r: "ReconcileAutoscaling now fresh policy s = Inr (r, s')"
  shows "ledger_inv (s', C)"
proof -
  from r obtain rows s1 where "actions s1 = actions s" "instances s1 = instances s"
    "reconcileCapacityActionsTx now fresh policy rows (ob_active (readAutoscaleObservation now s)) s1 = Inr s'"
    by (rule reconcile_cases)
  with inv show ?thesis using reconcile_actions_inv ledger_inv_cong by metis
qed

section \<open>Every reachable ledger satisfies the invariant\<close>

inductive_cases ledger_stepE: "ledger_step (s, C) (s', C')"

lemma ledger_step_inv:
  assumes "ledger_step x y" "ledger_inv x"
  shows "ledger_inv y"
  using assms
proof (induction rule: ledger_step.induct)
  case (environment s' s C)
  then show ?case using ledger_inv_cong by blast
qed (blast intro: request_inv claim_inv renew_inv reserve_inv record_inv confirm_inv select_inv
      begin_inv complete_delete_inv retry_inv reconcile_inv)+

lemma ledger_reachable_inv: "ledger_reachable x \<Longrightarrow> ledger_inv x"
proof (induction rule: ledger_reachable.induct)
  case (start s)
  then show ?case by (simp add: ledger_inv_def)
next
  case (step x y)
  then show ?case by (blast intro: ledger_step_inv)
qed

lemma ledger_steps_reachable: "ledger_step\<^sup>*\<^sup>* x y \<Longrightarrow> ledger_reachable x \<Longrightarrow> ledger_reachable y"
  by (induction rule: rtranclp_induct) (auto intro: ledger_reachable.step)

lemma ledger_step_claims: "ledger_step x y \<Longrightarrow> set (snd x) \<subseteq> set (snd y)"
  by (induction rule: ledger_step.induct) (auto split: option.splits)

lemma ledger_steps_claims: "ledger_step\<^sup>*\<^sup>* x y \<Longrightarrow> set (snd x) \<subseteq> set (snd y)"
  by (induction rule: rtranclp_induct) (use ledger_step_claims in blast)+

section \<open>Life cycle of an instance\<close>

fun lifecycle_rank :: "instance_state \<Rightarrow> nat" where
  "lifecycle_rank Provisioning = 0"
| "lifecycle_rank Active = 1"
| "lifecycle_rank Draining = 2"
| "lifecycle_rank Deleting = 3"
| "lifecycle_rank Deleted = 4"
| "lifecycle_rank InstanceFailed = 4"

definition same_identity :: "capacity_instance \<Rightarrow> capacity_instance \<Rightarrow> bool" where
  "same_identity i j \<longleftrightarrow> ci_id j = ci_id i \<and> ci_pool j = ci_pool i \<and> ci_create j = ci_create i \<and>
     ci_provider j = ci_provider i \<and> ci_provider_id j = ci_provider_id i \<and> ci_token j = ci_token i \<and>
     ci_generation j = ci_generation i"

text \<open>Nothing runs on the instance: no unexpired lease and no claimed phase of its executors.\<close>

definition no_live_work :: "time \<Rightarrow> capacity_instance \<Rightarrow> db \<Rightarrow> bool" where
  "no_live_work now i s \<longleftrightarrow> \<not> lease_blocks_drain now (capacityInstanceLabel (ci_id i)) s \<and>
     \<not> phase_blocks_drain now (capacityInstanceLabel (ci_id i)) s"

definition instance_evolves :: "db \<Rightarrow> capacity_instance \<Rightarrow> capacity_instance \<Rightarrow> bool" where
  "instance_evolves s i j \<longleftrightarrow> same_identity i j \<and>
     lifecycle_rank (ci_state j) \<in> {lifecycle_rank (ci_state i), Suc (lifecycle_rank (ci_state i))} \<and>
     (ci_state j = Deleting \<longrightarrow> ci_state i = Deleting \<or> (\<exists>now. no_live_work now i s))"

lemma instance_evolves_refl: "instance_evolves s i i"
  by (simp add: instance_evolves_def same_identity_def)

lemma same_identity_trans: "same_identity i j \<Longrightarrow> same_identity j k \<Longrightarrow> same_identity i k"
  by (simp add: same_identity_def)

definition insts_evolve :: "db \<Rightarrow> db \<Rightarrow> bool" where
  "insts_evolve s s' \<longleftrightarrow> (\<forall>i \<in> set (instances s). \<exists>j \<in> set (instances s'). instance_evolves s i j)"

lemma insts_evolve_same: "instances s' = instances s \<Longrightarrow> insts_evolve s s'"
  by (auto simp: insts_evolve_def intro: instance_evolves_refl)

lemma insts_evolve_update:
  assumes "instances s' = update_where p g (instances s)"
    and "\<And>i. i \<in> set (instances s) \<Longrightarrow> p i \<Longrightarrow> instance_evolves s i (g i)"
  shows "insts_evolve s s'"
  unfolding insts_evolve_def
proof
  fix i assume i: "i \<in> set (instances s)"
  then show "\<exists>j \<in> set (instances s'). instance_evolves s i j"
    using assms(2)[OF i] instance_evolves_refl[of s i]
    by (cases "p i") (auto simp: assms(1) set_update_where)
qed

lemma update_owned_evolves:
  assumes "update_owned c i st g s = Inr s'" "\<And>r. owned_row c i st r \<Longrightarrow> instance_evolves s r (g r)"
  shows "insts_evolve s s'"
  using assms by (intro insts_evolve_update[of s' "owned_row c i st" g])
    (auto simp: update_owned_def split: if_splits)

lemma update_claimed_instances: "update_claimed now c f s = Inr s' \<Longrightarrow> instances s' = instances s"
  by (auto simp: update_claimed_def Let_def split: if_splits)

lemma insert_action_instances: "insert_action a s = Inr s' \<Longrightarrow> instances s' = instances s"
  by (auto simp: insert_action_def split: if_splits)

lemma request_instances:
  assumes "RequestCapacityAction now aid pool kind req obs reason s = Inr (c, s')"
  shows "instances s' = instances s"
  using assms by (cases rule: request_cases) (auto dest: insert_action_instances)

lemma claim_instances:
  assumes "ClaimCapacityAction now locked owner lease s = Inr (r, s')"
  shows "instances s' = instances s"
  using assms by (auto simp: ClaimCapacityAction_def Let_def split: if_splits option.splits)

lemma requestTx_instances: "requestCapacityActionTx now aid pool k req obs reason s = Inr s' \<Longrightarrow>
    instances s' = instances s"
  by (auto simp: requestCapacityActionTx_def Let_def insert_action_instances split: if_splits)

lemma cancelTx_instances [simp]:
  "instances (cancelRequestedCapacityActionTx now pool reason s) = instances s"
  by (simp add: cancelRequestedCapacityActionTx_def)

lemma pool_action_instances:
  "reconcile_pool_action now fresh r bs = Inr bs' \<Longrightarrow> instances (snd bs') = instances (snd bs)"
  by (cases bs) (auto simp: reconcile_pool_action_def Let_def bind_result_Inr requestTx_instances split: if_splits)

lemma cancel_fold_instances [simp]:
  "instances (fold (\<lambda>r. cancelRequestedCapacityActionTx now (pd_id (pr_pool r)) reason) rows s) = instances s"
  by (induction rows arbitrary: s) auto

lemma reconcile_actions_instances:
  assumes r: "reconcileCapacityActionsTx now fresh policy rows active s = Inr s'"
  shows "instances s' = instances s"
proof (cases "ap_mode policy = ''actuate''")
  case True
  with r obtain b0 b where
    f: "fold_result (reconcile_pool_action now fresh) (sort_key pool_order rows)
      (b0, reopenBoundCapacityActionsTx now s) = Inr (b, s')"
    by (auto simp: reconcileCapacityActionsTx_def Let_def bind_result_Inr)
  have "instances (snd (b, s')) = instances s"
    by (rule fold_result_invariant[OF f, where I = "\<lambda>bs. instances (snd bs) = instances s"])
      (auto simp: reopenBoundCapacityActionsTx_def dest: pool_action_instances)
  then show ?thesis by simp
next
  case False
  with r show ?thesis
    by (auto simp: reconcileCapacityActionsTx_def Let_def reopenBoundCapacityActionsTx_def)
qed

lemma reconcile_instances:
  assumes "ReconcileAutoscaling now fresh policy s = Inr (r, s')"
  shows "instances s' = instances s"
  using assms by (rule reconcile_cases) (auto dest: reconcile_actions_instances)

lemma reserve_evolves:
  assumes "ReserveCapacityInstance now iid token c s = Inr (i, s')"
  shows "insts_evolve s s'" "i \<in> set (instances s')" "ci_create i = cc_id c"
  using assms lookup_by_Some[of ci_create "cc_id c" "instances s" i]
  by (auto simp: ReserveCapacityInstance_def bind_result_Inr insert_instance_def insts_evolve_def
      new_instance_def intro: instance_evolves_refl split: if_splits option.splits)

lemma begin_evolves:
  assumes "BeginCapacityInstanceDelete now c i s = Inr (u, s')"
  shows "insts_evolve s s'"
proof -
  from assms have u: "update_owned c i Draining (\<lambda>r. r\<lparr>ci_state := Deleting\<rparr>) s = Inr s'"
    and d: "capacityInstanceDrainedTx now c i s"
    by (auto simp: BeginCapacityInstanceDelete_def bind_result_Inr split: if_splits)
  show ?thesis
    by (rule update_owned_evolves[OF u])
      (use d in \<open>auto simp: instance_evolves_def same_identity_def owned_row_def no_live_work_def
        capacityInstanceDrainedTx_def\<close>)
qed

lemma confirm_evolves:
  assumes "ConfirmCapacityInstanceHeartbeat now c i s = Inr (b, s')"
  shows "insts_evolve s s'"
proof (cases "count_where (heartbeat_worker now c i) (workers s) = 0")
  case True
  with assms show ?thesis
    by (auto simp: ConfirmCapacityInstanceHeartbeat_def bind_result_Inr intro: insts_evolve_same)
next
  case False
  with assms obtain s1 where
    u: "update_owned c i Provisioning (\<lambda>r. r\<lparr>ci_state := Active, ci_heartbeat := Some now\<rparr>) s = Inr s1"
    and c: "completeCapacityActionTx now c s1 = Inr s'"
    by (auto simp: ConfirmCapacityInstanceHeartbeat_def bind_result_Inr simp del: count_where_0_iff)
  have "insts_evolve s s1"
    by (rule update_owned_evolves[OF u]) (auto simp: instance_evolves_def same_identity_def owned_row_def)
  moreover have "instances s' = instances s1"
    using c unfolding completeCapacityActionTx_def by (rule update_claimed_instances)
  ultimately show ?thesis by (simp add: insts_evolve_def)
qed

lemma complete_delete_evolves:
  assumes "CompleteCapacityInstanceDelete now c i s = Inr (u, s')"
  shows "insts_evolve s s'"
proof -
  from assms obtain s1 where
    u: "update_owned c i Deleting (\<lambda>r. r\<lparr>ci_state := Deleted, ci_deleted_at := Some now\<rparr>) s = Inr s1"
    and c: "completeCapacityActionTx now c s1 = Inr s'"
    by (auto simp: CompleteCapacityInstanceDelete_def bind_result_Inr)
  have "insts_evolve s s1"
    by (rule update_owned_evolves[OF u]) (auto simp: instance_evolves_def same_identity_def owned_row_def)
  moreover have "instances s' = instances s1"
    using c unfolding completeCapacityActionTx_def by (rule update_claimed_instances)
  ultimately show ?thesis by (simp add: insts_evolve_def)
qed

lemma record_evolves:
  assumes "RecordCapacityInstanceProvisioned now c i ref attrs s = Inr (u, s')"
  shows "insts_evolve s s'"
proof -
  from assms obtain data where
    u: "update_owned c i Provisioning (\<lambda>r. r\<lparr>ci_remote_ref := ref, ci_attributes := data\<rparr>) s = Inr s'"
    by (auto simp: RecordCapacityInstanceProvisioned_def bind_result_Inr)
  show ?thesis
    by (rule update_owned_evolves[OF u]) (auto simp: instance_evolves_def same_identity_def owned_row_def)
qed

lemma select_evolves:
  assumes inv: "ledger_inv (s, C)" and r: "SelectCapacityInstanceForDrain now locked c s = Inr (r, s')"
  shows "insts_evolve s s'"
proof (cases "drain_target locked c s")
  case None
  with r show ?thesis
    by (auto simp: SelectCapacityInstanceForDrain_def bind_result_Inr intro: insts_evolve_same split: if_splits)
next
  case (Some i)
  with r have s': "instances s' = update_where (\<lambda>j. ci_id j = ci_id i) (drain_instance now c) (instances s)"
    by (auto simp: SelectCapacityInstanceForDrain_def bind_result_Inr split: if_splits)
  have "instance_evolves s i (drain_instance now c i)"
    using drain_targetD(3)[OF Some]
    by (auto simp: instance_evolves_def same_identity_def drain_instance_def drain_existing_def)
  moreover have "j = i" if "j \<in> set (instances s)" "ci_id j = ci_id i" for j
    using distinct_key_eq[OF ledger_invD(4)[OF inv] that(1) drain_targetD(1)[OF Some] that(2)] .
  ultimately show ?thesis by (intro insts_evolve_update[OF s']) auto
qed

lemma ledger_step_evolves:
  assumes "ledger_step x y" "ledger_inv x"
  shows "insts_evolve (fst x) (fst y)"
  using assms
proof (induction rule: ledger_step.induct)
  case (renew c C now lease s u s')
  then show ?case
    by (auto simp: RenewCapacityAction_def bind_result_Inr split: if_splits
        intro!: insts_evolve_same dest: update_claimed_instances)
next
  case (retry c C now detail s u s')
  then show ?case
    by (auto simp: RetryCapacityAction_def bind_result_Inr intro!: insts_evolve_same dest: update_claimed_instances)
qed (auto intro: insts_evolve_same reserve_evolves record_evolves confirm_evolves select_evolves begin_evolves
      complete_delete_evolves dest: request_instances claim_instances reconcile_instances)

lemma ledger_steps_identity:
  assumes "ledger_step\<^sup>*\<^sup>* x y" "ledger_reachable x" "i \<in> set (instances (fst x))"
  shows "\<exists>j \<in> set (instances (fst y)). same_identity i j"
  using assms
proof (induction rule: rtranclp_induct)
  case base
  then show ?case by (auto simp: same_identity_def)
next
  case (step y z)
  then obtain j where j: "j \<in> set (instances (fst y))" "same_identity i j" by blast
  have "ledger_inv y" using ledger_steps_reachable[OF step.hyps(1) step.prems(1)] by (rule ledger_reachable_inv)
  with ledger_step_evolves[OF step.hyps(2)] j(1) obtain k where
    "k \<in> set (instances (fst z))" "instance_evolves (fst y) j k" by (auto simp: insts_evolve_def)
  with j(2) show ?case by (auto simp: instance_evolves_def intro: same_identity_trans)
qed

end
