(* ===== verification/Capacity_Safety.thy ===== *)
theory Capacity_Safety
  imports Capacity_System
begin

text \<open>
  Properties of the capacity ledger over all its runs (\<^verbatim>\<open>Capacity_System\<close>), a worked run that the
  witnesses use, and the budget of a reconcile transaction.
\<close>

section \<open>A run of the ledger\<close>

text \<open>One pool, one scale-up that is requested, claimed, reserved, retried and claimed again.\<close>

definition run_pool :: "string \<Rightarrow> pool_row" where
  "run_pool p = \<lparr>pr_pool = \<lparr>pd_id = p, pd_provider = ''pve'', pd_zone = ''z'', pd_arch = ''amd64'',
      pd_build_mode = ''local'', pd_profile = ''prof'', pd_image = ''img'', pd_image_generation = ''1'',
      pd_selector = [''capacity-pool:'' @ p]\<rparr>,
     pr_mode = ''actuate'', pr_provider_max = 2, pr_active = 0, pr_busy = 0, pr_backlog = 1,
     pr_unschedulable = 0, pr_desired = 1, pr_recommendation = ''scale-up'', pr_reason = ''demand'',
     pr_under_target = None, pr_last_changed = None, pr_last_evaluated = 0\<rparr>"

definition run0 :: db where
  "run0 = empty_db\<lparr>pools := [run_pool ''p1'', run_pool ''p2'']\<rparr>"

definition run_action :: "action_state \<Rightarrow> string \<Rightarrow> int \<Rightarrow> time option \<Rightarrow> time \<Rightarrow> string \<Rightarrow> time option \<Rightarrow> capacity_action" where
  "run_action st owner n lease retry detail claimed =
     \<lparr>ca_id = ''a1'', ca_pool = ''p1'', ca_kind = ScaleUp, ca_state = st,
      ca_requested_slots = 1, ca_observed_slots = 0, ca_delta_slots = 1, ca_reason = ''demand'',
      ca_owner = owner, ca_fence = n, ca_lease = lease, ca_attempts = n, ca_next_attempt = retry,
      ca_detail = detail, ca_requested_at = 0, ca_claimed_at = claimed, ca_completed_at = None\<rparr>"

definition run_claim :: "string \<Rightarrow> int \<Rightarrow> time option \<Rightarrow> capacity_claim" where
  "run_claim owner n lease =
     \<lparr>cc_id = ''a1'', cc_pool = pr_pool (run_pool ''p1''), cc_kind = ''scale-up'', cc_requested = 1,
      cc_observed = 0, cc_delta = 1, cc_reason = ''demand'', cc_owner = owner, cc_fence = n, cc_lease = lease\<rparr>"

abbreviation claim1 :: capacity_claim where "claim1 \<equiv> run_claim [] 0 None"
abbreviation claim2 :: capacity_claim where "claim2 \<equiv> run_claim ''act'' 1 (Some (seconds 60))"
abbreviation claim5 :: capacity_claim where "claim5 \<equiv> run_claim ''act'' 2 (Some (seconds 65))"

definition run1 :: db where
  "run1 = run0\<lparr>actions := [run_action Requested [] 0 None 0 [] None]\<rparr>"

definition run2 :: db where
  "run2 = run0\<lparr>actions := [run_action Claimed ''act'' 1 (Some (seconds 60)) 0 [] (Some 0)]\<rparr>"

definition run_instance :: capacity_instance where
  "run_instance = new_instance (seconds 1) ''i1'' ''t1'' claim2"

definition run3 :: db where "run3 = run2\<lparr>instances := [run_instance]\<rparr>"

definition run4 :: db where
  "run4 = run3\<lparr>actions := [run_action Requested [] 1 None (seconds 4) ''boom'' (Some 0)]\<rparr>"

definition run5 :: db where
  "run5 = run3\<lparr>actions := [run_action Claimed ''act'' 2 (Some (seconds 65)) (seconds 4) ''boom'' (Some (seconds 5))]\<rparr>"

lemmas run_defs = run0_def run1_def run2_def run3_def run4_def run5_def run_action_def run_claim_def
  run_pool_def run_instance_def empty_db_def

lemma trim_run [simp]: "TrimSpace ''p1'' = ''p1''" "TrimSpace ''act'' = ''act''"
  by (simp_all add: TrimSpace_id printable_def)

lemma run1_op: "RequestCapacityAction 0 ''a1'' ''p1'' ''scale-up'' 1 0 ''demand'' run0 = Inr (claim1, run1)"
  by (simp add: RequestCapacityAction_def validateCapacityActionKind_def insert_action_def pool_exists_def
      scanCapacityAction_def new_action_def capacityActionMaxDetail_def run_defs Let_def)

lemma run2_op: "ClaimCapacityAction 0 (\<lambda>_. False) ''act'' (seconds 60) run1 = Inr (Some claim2, run2)"
  by (simp add: ClaimCapacityAction_def claim_candidate_def claimable_def claim_action_def
      scanCapacityAction_def run_defs Let_def) (simp add: seconds_def)

lemma run3_op: "ReserveCapacityInstance (seconds 1) ''i1'' ''t1'' claim2 run2 = Inr (run_instance, run3)"
  by (simp add: ReserveCapacityInstance_def validateCapacityActionFence_def fence_current_def
      insert_instance_def new_instance_def pool_exists_def run_defs)

lemma run4_op: "RetryCapacityAction (seconds 2) claim2 ''boom'' run3 = Inr ((), run4)"
  by (simp add: RetryCapacityAction_def update_claimed_def fence_current_def retry_backoff_def
      capacityActionMaxDetail_def run_defs Let_def) (simp add: seconds_def)

lemma run5_op: "ClaimCapacityAction (seconds 5) (\<lambda>_. False) ''act'' (seconds 60) run4 = Inr (Some claim5, run5)"
  by (simp add: ClaimCapacityAction_def claim_candidate_def claimable_def claim_action_def
      scanCapacityAction_def run_defs Let_def) (simp add: seconds_def)

lemma run2_reachable: "ledger_reachable (run2, [claim2, claim1])"
proof -
  have "ledger_reachable (run0, [])"
    by (rule ledger_reachable.start) (simp_all add: run0_def empty_db_def)
  then have "ledger_reachable (run1, [claim1])"
    using ledger_step.request[OF run1_op] ledger_reachable.step by blast
  then show ?thesis
    using ledger_step.claim[OF run2_op, of "[claim1]"] ledger_reachable.step by auto
qed

lemma run_reachable:
  "ledger_reachable (run3, [claim2, claim1])" "ledger_reachable (run4, [claim2, claim1])"
  "ledger_step (run3, [claim2, claim1]) (run4, [claim2, claim1])"
  "ledger_step (run4, [claim2, claim1]) (run5, [claim5, claim2, claim1])"
proof -
  show r3: "ledger_reachable (run3, [claim2, claim1])"
    using run2_reachable ledger_step.reserve[OF _ run3_op, of "[claim2, claim1]"] ledger_reachable.step by auto
  show s4: "ledger_step (run3, [claim2, claim1]) (run4, [claim2, claim1])"
    by (rule ledger_step.retry[OF _ run4_op]) simp
  with r3 show "ledger_reachable (run4, [claim2, claim1])" by (rule ledger_reachable.step)
  show "ledger_step (run4, [claim2, claim1]) (run5, [claim5, claim2, claim1])"
    using ledger_step.claim[OF run5_op, of "[claim2, claim1]"] by simp
qed

text \<open>A new claim outranks every claim handed out before for the same action.\<close>

lemma claim_fence_increases:
  assumes inv: "ledger_inv (s, C)" and r: "ClaimCapacityAction now locked owner lease s = Inr (Some c, s')"
    and d: "d \<in> set C" "cc_id d = cc_id c"
  shows "cc_fence d < cc_fence c"
proof -
  from r obtain a where a: "claim_candidate now locked s = Some a"
    "scanCapacityAction s (claim_action now (TrimSpace owner) lease a) = Some c"
    by (auto simp: ClaimCapacityAction_def Let_def split: if_splits option.splits)
  then have c: "cc_id c = ca_id a" "cc_fence c = ca_fence a + 1"
    by (auto simp: scanCapacityAction_def claim_action_def split: option.splits)
  have "a \<in> set (actions s)" using order_limit1_in[OF a(1)[unfolded claim_candidate_def]] by auto
  moreover from ledger_invD(8)[OF inv d(1)] obtain b where
    b: "b \<in> set (actions s)" "ca_id b = cc_id d" "cc_fence d \<le> ca_fence b" by (auto simp: claim_ok_def)
  ultimately have "b = a" using distinct_key_eq[OF ledger_invD(1)[OF inv]] c(1) d(2) by metis
  with b(3) c(2) show ?thesis by simp
qed

definition run_policy :: autoscale_policy where
  "run_policy = \<lparr>ap_mode = ''observe'', ap_min = 0, ap_max = 1, ap_target = 1, ap_cooldown = 0, ap_delay = 0,
     ap_pools = [pr_pool (run_pool ''p1''), pr_pool (run_pool ''p2'')],
     ap_provider_max = [''pve'' \<mapsto> 2]\<rparr>"

section \<open>Exclusive ownership\<close>

text \<open>C17: In every reachable state of the ledger a pool has at most one open action, whatever
  actuators, reconcile transactions and stale claims do.\<close>

theorem one_open_action_per_pool:
  assumes "ledger_reachable (s, C)" "a \<in> set (actions s)" "b \<in> set (actions s)"
    and "open_action a" "open_action b" "ca_pool a = ca_pool b"
  shows "a = b"
  using unique_whereD[OF ledger_invD(2)[OF ledger_reachable_inv[OF assms(1)]] assms(2-6)] .

theorem one_open_action_per_pool_witness:
  "hd (actions run4) = last (actions run4) \<and> open_action (hd (actions run4))"
proof -
  have h: "hd (actions run4) \<in> set (actions run4)" "last (actions run4) \<in> set (actions run4)"
    "open_action (hd (actions run4))" "open_action (last (actions run4))"
    "ca_pool (hd (actions run4)) = ca_pool (last (actions run4))"
    by (simp_all add: run_defs open_action_def)
  show ?thesis using one_open_action_per_pool[OF run_reachable(2) h] h(3) by simp
qed

text \<open>C16: No reachable state holds an orphaned provider instance: an instance that is being
  provisioned, drained or deleted is owned by an open action of its pool, of the kind its state
  needs, so an actuator can always resume it.\<close>

theorem no_orphaned_instance:
  assumes "ledger_reachable (s, C)" "i \<in> set (instances s)"
    and "ci_state i = Provisioning \<or> ci_state i = Draining \<or> ci_state i = Deleting"
  shows "\<exists>a \<in> set (actions s). open_action a \<and> ca_pool a = ci_pool i \<and>
    (if ci_state i = Provisioning then ca_kind a = ScaleUp \<and> ci_create i = ca_id a
     else ca_kind a = ScaleDown \<and> ci_delete i = Some (ca_id a))"
  using ledger_invD(7)[OF ledger_reachable_inv[OF assms(1)] assms(2)] assms(3)
  by (fastforce simp: instance_ok_def create_open_def delete_open_def)

theorem no_orphaned_instance_witness:
  "ci_state (hd (instances run4)) = Provisioning \<and>
   (\<exists>a \<in> set (actions run4). open_action a \<and> ca_kind a = ScaleUp \<and> ci_create (hd (instances run4)) = ca_id a)"
proof -
  have h: "hd (instances run4) \<in> set (instances run4)" "ci_state (hd (instances run4)) = Provisioning"
    by (simp_all add: run_defs new_instance_def)
  show ?thesis using no_orphaned_instance[OF run_reachable(2) h(1)] h(2) by auto
qed

text \<open>C19: A claim whose owner, fence or lease is no longer current is refused by every fenced
  operation of the ledger, so the committed database stays as it is.\<close>

theorem stale_claim_rejected:
  assumes "\<forall>a \<in> set (actions s). ca_id a = cc_id c \<longrightarrow> \<not> fence_current now c a"
  shows "isl (RenewCapacityAction now c lease s) \<and> isl (ReserveCapacityInstance now iid token c s) \<and>
    isl (RecordCapacityInstanceProvisioned now c i ref attrs s) \<and>
    isl (ConfirmCapacityInstanceHeartbeat now c i s) \<and>
    isl (SelectCapacityInstanceForDrain now locked c s) \<and> isl (CapacityInstanceDrained now c i s) \<and>
    isl (BeginCapacityInstanceDelete now c i s) \<and> isl (CompleteCapacityInstanceDelete now c i s) \<and>
    isl (RetryCapacityAction now c detail s)"
proof -
  have "\<not> (\<exists>u. validateCapacityActionFence now c s = Inr u)"
    using assms by (blast elim: validate_fenceD)
  then obtain e where v: "validateCapacityActionFence now c s = Inl e"
    by (cases "validateCapacityActionFence now c s") auto
  have "count_where (\<lambda>a. ca_id a = cc_id c \<and> fence_current now c a) (actions s) = 0"
    using assms by simp
  then have u: "update_claimed now c f s = Inl StaleFence" for f
    by (simp add: update_claimed_def Let_def del: count_where_0_iff)
  have "isl (RecordCapacityInstanceProvisioned now c i ref attrs s)"
    by (cases "encodeCapacityAttributes attrs") (simp_all add: RecordCapacityInstanceProvisioned_def v)
  then show ?thesis
    by (simp add: RenewCapacityAction_def RetryCapacityAction_def u ReserveCapacityInstance_def v
        ConfirmCapacityInstanceHeartbeat_def SelectCapacityInstanceForDrain_def CapacityInstanceDrained_def
        BeginCapacityInstanceDelete_def CompleteCapacityInstanceDelete_def)
qed

theorem stale_claim_rejected_witness:
  "isl (RecordCapacityInstanceProvisioned (seconds 6) claim2 run_instance ''ref'' [] run5) \<and>
   isl (ConfirmCapacityInstanceHeartbeat (seconds 6) claim2 run_instance run5)"
proof -
  have "\<forall>a \<in> set (actions run5). ca_id a = cc_id claim2 \<longrightarrow> \<not> fence_current (seconds 6) claim2 a"
    by (simp add: fence_current_def run_defs)
  from stale_claim_rejected[OF this] show ?thesis by blast
qed

text \<open>C18: Once an action is claimed again, every claim handed out for it before is dead for good: in no
  later state, at no time, does the action row carry the old owner and fence.\<close>

theorem superseded_claim_stale:
  assumes "ledger_reachable (s, C)" "ClaimCapacityAction now locked owner lease s = Inr (Some c, s')"
    and "d \<in> set C" "cc_id d = cc_id c"
    and "ledger_step\<^sup>*\<^sup>* (s', c # C) (t, C')" "a \<in> set (actions t)" "ca_id a = cc_id d"
  shows "\<not> fence_current later d a"
proof -
  have inv: "ledger_inv (s, C)" using assms(1) by (rule ledger_reachable_inv)
  have "ledger_reachable (s', c # C)"
    using ledger_step.claim[OF assms(2), of C] ledger_reachable.step[OF assms(1)] by simp
  then have invt: "ledger_inv (t, C')"
    using ledger_steps_reachable[OF assms(5)] ledger_reachable_inv by blast
  have "c \<in> set C'" using ledger_steps_claims[OF assms(5)] by auto
  from ledger_invD(8)[OF invt this] obtain b where b: "b \<in> set (actions t)" "ca_id b = cc_id c"
    "cc_fence c \<le> ca_fence b" by (auto simp: claim_ok_def)
  have "b = a" using distinct_key_eq[OF ledger_invD(1)[OF invt] b(1) assms(6)] b(2) assms(4,7) by simp
  moreover have "cc_fence d < cc_fence c" by (rule claim_fence_increases[OF inv assms(2-4)])
  ultimately show ?thesis using b(3) by (auto simp: fence_current_def)
qed

theorem superseded_claim_stale_witness: "\<not> fence_current (seconds 6) claim2 (hd (actions run5))"
proof -
  have "hd (actions run5) \<in> set (actions run5)" "ca_id (hd (actions run5)) = cc_id claim2"
    by (simp_all add: run_defs)
  from superseded_claim_stale[OF run_reachable(2) run5_op _ _ rtranclp.rtrancl_refl this]
  show ?thesis by (simp add: run_claim_def)
qed



text \<open>C20: Retries never allocate a second machine: two reservations under the same action, with any
  steps and claims in between, return the same instance, provider name and owner token.\<close>

theorem reserve_same_instance:
  assumes "ledger_reachable (s, C)" "c \<in> set C" "ReserveCapacityInstance now iid token c s = Inr (i, s')"
    and "ledger_step\<^sup>*\<^sup>* (s', C) (t, C')" "d \<in> set C'" "cc_id d = cc_id c"
    and "ReserveCapacityInstance now' iid' token' d t = Inr (j, t')"
  shows "same_identity i j"
proof -
  have r': "ledger_reachable (s', C)"
    using ledger_step.reserve[OF assms(2,3)] ledger_reachable.step[OF assms(1)] by simp
  then have rt: "ledger_reachable (t, C')" using ledger_steps_reachable[OF assms(4)] by simp
  then have "ledger_reachable (t', C')"
    using ledger_step.reserve[OF assms(5,7)] ledger_reachable.step by blast
  then have inv: "ledger_inv (t', C')" by (rule ledger_reachable_inv)
  have "ledger_step\<^sup>*\<^sup>* (s', C) (t', C')"
    using assms(4) ledger_step.reserve[OF assms(5,7)] by (rule rtranclp.rtrancl_into_rtrancl)
  from ledger_steps_identity[OF this r'] reserve_evolves(2)[OF assms(3)] obtain k where
    k: "k \<in> set (instances t')" "same_identity i k" by auto
  have "ci_create k = ci_create j"
    using k(2) reserve_evolves(3)[OF assms(3)] reserve_evolves(3)[OF assms(7)] assms(6)
    by (simp add: same_identity_def)
  then have "k = j"
    by (rule distinct_key_eq[OF ledger_invD(5)[OF inv] k(1) reserve_evolves(2)[OF assms(7)]])
  with k(2) show ?thesis by simp
qed

theorem reserve_same_instance_witness:
  "\<exists>j t'. ReserveCapacityInstance (seconds 6) ''i9'' ''t9'' claim5 run5 = Inr (j, t') \<and>
     same_identity run_instance j"
proof -
  have r2: "ledger_reachable (run2, [claim2, claim1])" by (rule run2_reachable)
  have again: "ReserveCapacityInstance (seconds 6) ''i9'' ''t9'' claim5 run5 = Inr (run_instance, run5)"
    by (simp add: ReserveCapacityInstance_def validateCapacityActionFence_def fence_current_def
        new_instance_def run_defs)
  have steps: "ledger_step\<^sup>*\<^sup>* (run3, [claim2, claim1]) (run5, [claim5, claim2, claim1])"
    using run_reachable(3,4) converse_rtranclp_into_rtranclp[of ledger_step] r_into_rtranclp[of ledger_step]
    by blast
  have "same_identity run_instance run_instance"
    by (rule reserve_same_instance[OF r2 _ run3_op steps _ _ again]) (simp_all add: run_claim_def)
  with again show ?thesis by blast
qed

section \<open>What a reconcile transaction may touch\<close>

text \<open>An action that an actuator holds, or whose retry owns a live instance.\<close>

definition engaged :: "db \<Rightarrow> capacity_action \<Rightarrow> bool" where
  "engaged s a \<longleftrightarrow> ca_state a = Claimed \<or> ca_state a = Requested \<and> bound_action s a"

lemma bound_action_cong: "instances s' = instances s \<Longrightarrow> bound_action s' a = bound_action s a"
  by (simp add: bound_action_def)

lemma engaged_update:
  assumes "a \<in> set (actions s)" "engaged s a" "\<And>b. p b \<Longrightarrow> \<not> engaged s b"
  shows "a \<in> set (update_where p f (actions s))"
proof -
  have "\<not> p a" using assms(2,3) by blast
  then show ?thesis unfolding set_update_where by (intro image_eqI[OF _ assms(1)]) simp
qed

lemma requestTx_engaged:
  assumes "requestCapacityActionTx now aid pool k req obs reason s = Inr s'"
    "a \<in> set (actions s)" "engaged s a"
  shows "a \<in> set (actions s')"
proof (cases "list_ex (open_in_pool pool) (actions s)")
  case True
  then have s': "actions s' = update_where (\<lambda>a. open_in_pool pool a \<and> ca_state a = Requested \<and> \<not> bound_action s a)
      (refresh_action now k req obs (truncate_bytes capacityActionMaxDetail reason)) (actions s)"
    using assms(1) by (auto simp: requestCapacityActionTx_def Let_def)
  show ?thesis unfolding s' by (rule engaged_update[OF assms(2,3)]) (auto simp: engaged_def)
next
  case False
  with assms show ?thesis
    by (auto simp: requestCapacityActionTx_def Let_def insert_action_def split: if_splits)
qed

lemma cancelTx_engaged:
  assumes "a \<in> set (actions s)" "engaged s a"
  shows "a \<in> set (actions (cancelRequestedCapacityActionTx now pool reason s))"
  unfolding cancelRequestedCapacityActionTx_def
  by (simp, rule engaged_update[OF assms]) (auto simp: engaged_def)

lemma engaged_cong: "instances s' = instances s \<Longrightarrow> engaged s' a = engaged s a"
  unfolding engaged_def bound_action_def by simp

lemma pool_action_engaged:
  assumes r: "reconcile_pool_action now fresh r bs = Inr bs'" and a: "a \<in> set (actions (snd bs))" "engaged (snd bs) a"
  shows "a \<in> set (actions (snd bs'))" "engaged (snd bs') a"
proof -
  show "a \<in> set (actions (snd bs'))"
    using r a by (cases bs) (auto simp: reconcile_pool_action_def Let_def bind_result_Inr split: if_splits
        intro: requestTx_engaged cancelTx_engaged)
  show "engaged (snd bs') a" using a(2) engaged_cong[OF pool_action_instances[OF r]] by simp
qed

lemma cancel_fold_engaged:
  "a \<in> set (actions s) \<Longrightarrow> engaged s a \<Longrightarrow>
   a \<in> set (actions (fold (\<lambda>r. cancelRequestedCapacityActionTx now (pd_id (pr_pool r)) reason) rows s))"
proof (induction rows arbitrary: s)
  case (Cons r rows)
  then show ?case
    using cancelTx_engaged[OF Cons.prems] engaged_cong[OF cancelTx_instances] by simp
qed simp

lemma reopen_engaged:
  assumes "a \<in> set (actions s)" "engaged s a"
  shows "a \<in> set (actions (reopenBoundCapacityActionsTx now s))" "engaged (reopenBoundCapacityActionsTx now s) a"
proof -
  show "a \<in> set (actions (reopenBoundCapacityActionsTx now s))"
    unfolding reopenBoundCapacityActionsTx_def
    by (simp, rule engaged_update[OF assms]) (auto simp: reopened_def reopen_candidate_def engaged_def)
  show "engaged (reopenBoundCapacityActionsTx now s) a"
    using assms(2) engaged_cong[of "reopenBoundCapacityActionsTx now s" s a]
    by (simp add: reopenBoundCapacityActionsTx_def)
qed

text \<open>C23: A reconcile transaction never rewrites or cancels an action underneath an actuator: a claimed
  action, and a requested retry that owns a live provider instance, are the same rows afterwards.\<close>

theorem reconcile_keeps_engaged_actions:
  assumes "reconcileCapacityActionsTx now fresh policy rows active s = Inr s'"
    and "a \<in> set (actions s)" "ca_state a = Claimed \<or> ca_state a = Requested \<and> bound_action s a"
  shows "a \<in> set (actions s')"
proof -
  let ?s1 = "reopenBoundCapacityActionsTx now s"
  have a1: "a \<in> set (actions ?s1)" "engaged ?s1 a"
    using reopen_engaged[OF assms(2)] assms(3) by (auto simp: engaged_def)
  show ?thesis
  proof (cases "ap_mode policy = ''actuate''")
    case True
    with assms(1) obtain b0 b where
      f: "fold_result (reconcile_pool_action now fresh) (sort_key pool_order rows) (b0, ?s1) = Inr (b, s')"
      by (auto simp: reconcileCapacityActionsTx_def Let_def bind_result_Inr)
    have "a \<in> set (actions (snd (b, s'))) \<and> engaged (snd (b, s')) a"
      by (rule fold_result_invariant[OF f, where I = "\<lambda>bs. a \<in> set (actions (snd bs)) \<and> engaged (snd bs) a"])
        (use a1 pool_action_engaged in auto)
    then show ?thesis by simp
  next
    case False
    with assms(1) a1 show ?thesis
      by (auto simp: reconcileCapacityActionsTx_def Let_def intro: cancel_fold_engaged)
  qed
qed

theorem reconcile_keeps_engaged_actions_witness:
  "\<exists>s'. reconcileCapacityActionsTx 0 (\<lambda>p. ''a2'') run_policy [run_pool ''p1''] 0 run4 = Inr s' \<and>
     hd (actions run4) \<in> set (actions s')"
proof -
  have r: "reconcileCapacityActionsTx 0 (\<lambda>p. ''a2'') run_policy [run_pool ''p1''] 0 run4 = Inr run4"
    by (simp add: reconcileCapacityActionsTx_def run_policy_def reopenBoundCapacityActionsTx_def
        cancelRequestedCapacityActionTx_def bound_action_def owned_by_def live_instance_def
        reopened_def reopen_candidate_def new_instance_def run_defs Let_def)
  have "hd (actions run4) \<in> set (actions run4)"
    "ca_state (hd (actions run4)) = Claimed \<or> ca_state (hd (actions run4)) = Requested \<and> bound_action run4 (hd (actions run4))"
    by (simp_all add: run_defs bound_action_def owned_by_def live_instance_def new_instance_def)
  from reconcile_keeps_engaged_actions[OF r this] r show ?thesis by blast
qed

section \<open>The scale-up budget\<close>

text \<open>A requested scale-up that owns no machine yet: what a reconcile pass adds to the pending ones.\<close>

definition fresh_scale_up :: "db \<Rightarrow> capacity_action \<Rightarrow> bool" where
  "fresh_scale_up s a \<longleftrightarrow> ca_state a = Requested \<and> ca_kind a = ScaleUp \<and> \<not> bound_action s a"

definition fresh_in :: "string set \<Rightarrow> db \<Rightarrow> int" where
  "fresh_in P s = int (count_where (\<lambda>a. fresh_scale_up s a \<and> ca_pool a \<in> P) (actions s))"

lemma fresh_cong: "instances s' = instances s \<Longrightarrow> fresh_scale_up s' a = fresh_scale_up s a"
  unfolding fresh_scale_up_def bound_action_def by simp

lemma fresh_in_empty [simp]: "fresh_in {} s = 0"
proof -
  have "count_where (\<lambda>a. fresh_scale_up s a \<and> ca_pool a \<in> {}) (actions s) = 0" by simp
  then show ?thesis by (simp only: fresh_in_def)
qed

lemma fresh_in_insert:
  assumes "p \<notin> P"
  shows "fresh_in (insert p P) s = fresh_in P s + fresh_in {p} s"
proof -
  have "count_where (\<lambda>a. fresh_scale_up s a \<and> ca_pool a \<in> insert p P) (actions s) =
      count_where (\<lambda>a. (fresh_scale_up s a \<and> ca_pool a \<in> P) \<or> (fresh_scale_up s a \<and> ca_pool a \<in> {p})) (actions s)"
    by (rule count_where_cong) auto
  also have "\<dots> = count_where (\<lambda>a. fresh_scale_up s a \<and> ca_pool a \<in> P) (actions s) +
      count_where (\<lambda>a. fresh_scale_up s a \<and> ca_pool a \<in> {p}) (actions s)"
    by (rule count_where_disj) (use assms in auto)
  finally show ?thesis by (simp add: fresh_in_def)
qed

lemma fresh_in_le_1:
  assumes "ledger_inv (s, C)"
  shows "fresh_in {p} s \<le> 1"
proof -
  have "count_where (\<lambda>a. open_action a \<and> ca_pool a = p) (actions s) \<le> 1"
    using ledger_invD(2)[OF assms] by (rule unique_where_count)
  moreover have "count_where (\<lambda>a. fresh_scale_up s a \<and> ca_pool a \<in> {p}) (actions s)
      \<le> count_where (\<lambda>a. open_action a \<and> ca_pool a = p) (actions s)"
    by (rule count_where_mono) (simp add: fresh_scale_up_def open_action_def)
  ultimately show ?thesis by (simp add: fresh_in_def)
qed

text \<open>What one iteration does to the actions: an update of rows of its pool, or a new row in it.\<close>

definition pool_local :: "string \<Rightarrow> db \<Rightarrow> db \<Rightarrow> bool" where
  "pool_local p s s' \<longleftrightarrow> instances s' = instances s \<and>
     ((\<exists>q f. actions s' = update_where q f (actions s) \<and>
         (\<forall>a. q a \<longrightarrow> ca_pool a = p \<and> ca_pool (f a) = p \<and> ca_state a = Requested \<and>
            (ca_state (f a) = Requested \<or> ca_state (f a) = Canceled))) \<or>
      (\<exists>a. actions s' = actions s @ [a] \<and> ca_pool a = p \<and> ca_state a = Requested))"

lemma pool_local_fresh:
  assumes "pool_local p s s'" "p \<notin> P"
  shows "fresh_in P s' = fresh_in P s"
proof -
  have f: "fresh_scale_up s' = fresh_scale_up s"
    using assms(1) by (intro ext fresh_cong) (simp add: pool_local_def)
  have "count_where (\<lambda>a. fresh_scale_up s a \<and> ca_pool a \<in> P) (actions s') =
      count_where (\<lambda>a. fresh_scale_up s a \<and> ca_pool a \<in> P) (actions s)"
    using assms unfolding pool_local_def
    by (auto simp: count_where_update intro!: count_where_cong)
  then show ?thesis by (simp add: fresh_in_def f)
qed

lemma pool_local_pending:
  assumes "pool_local p s s'"
  shows "count_where pending_scale_up (actions s') = count_where pending_scale_up (actions s)"
  using assms unfolding pool_local_def
  by (fastforce simp: count_where_update pending_scale_up_def intro!: count_where_cong)

lemma requestTx_local:
  assumes "requestCapacityActionTx now aid p k req obs reason s = Inr s'"
  shows "pool_local p s s'"
proof (cases "list_ex (open_in_pool p) (actions s)")
  case True
  let ?q = "\<lambda>a. open_in_pool p a \<and> ca_state a = Requested \<and> \<not> bound_action s a"
  let ?f = "refresh_action now k req obs (truncate_bytes capacityActionMaxDetail reason)"
  have "actions s' = update_where ?q ?f (actions s)" "instances s' = instances s"
    using assms True by (auto simp: requestCapacityActionTx_def Let_def)
  then show ?thesis unfolding pool_local_def
    by (intro conjI disjI1 exI[of _ ?q] exI[of _ ?f]) (simp_all add: refresh_action_def open_in_pool_def)
next
  case False
  with assms show ?thesis
    by (auto simp: requestCapacityActionTx_def Let_def insert_action_def pool_local_def new_action_def
        split: if_splits)
qed

lemma cancelTx_local: "pool_local p s (cancelRequestedCapacityActionTx now p reason s)"
proof -
  let ?q = "\<lambda>a. ca_pool a = p \<and> ca_state a = Requested \<and> \<not> bound_action s a"
  let ?f = "cancel_action now (truncate_bytes capacityActionMaxDetail reason)"
  show ?thesis unfolding pool_local_def cancelRequestedCapacityActionTx_def
    by (intro conjI disjI1 exI[of _ ?q] exI[of _ ?f]) (simp_all add: cancel_action_def)
qed

lemma fresh_in_0I:
  "(\<And>a. a \<in> set (actions s) \<Longrightarrow> ca_pool a = p \<Longrightarrow> \<not> fresh_scale_up s a) \<Longrightarrow> fresh_in {p} s = 0"
  by (auto simp: fresh_in_def)

lemma cancelTx_fresh: "fresh_in {p} (cancelRequestedCapacityActionTx now p reason s) = 0"
proof (rule fresh_in_0I)
  fix a assume a: "a \<in> set (actions (cancelRequestedCapacityActionTx now p reason s))" "ca_pool a = p"
  from a(1) have "a \<in> set (update_where (\<lambda>a. ca_pool a = p \<and> ca_state a = Requested \<and> \<not> bound_action s a)
      (cancel_action now (truncate_bytes capacityActionMaxDetail reason)) (actions s))"
    by (simp add: cancelRequestedCapacityActionTx_def)
  then show "\<not> fresh_scale_up (cancelRequestedCapacityActionTx now p reason s) a"
    unfolding fresh_cong[OF cancelTx_instances]
    by (rule in_update_whereE) (use a(2) in \<open>simp_all add: fresh_scale_up_def cancel_action_def\<close>)
qed

lemma requestTx_scale_down_fresh:
  assumes r: "requestCapacityActionTx now aid p ScaleDown req obs reason s = Inr s'"
  shows "fresh_in {p} s' = 0"
proof (rule fresh_in_0I)
  fix a assume a: "a \<in> set (actions s')" "ca_pool a = p"
  have f: "fresh_scale_up s' a = fresh_scale_up s a"
    by (rule fresh_cong[OF requestTx_instances[OF r]])
  show "\<not> fresh_scale_up s' a" unfolding f
  proof (cases "list_ex (open_in_pool p) (actions s)")
    case True
    with a(1) r have "a \<in> set (update_where
        (\<lambda>a. open_in_pool p a \<and> ca_state a = Requested \<and> \<not> bound_action s a)
        (refresh_action now ScaleDown req obs (truncate_bytes capacityActionMaxDetail reason)) (actions s))"
      by (auto simp: requestCapacityActionTx_def Let_def)
    then show "\<not> fresh_scale_up s a"
      by (rule in_update_whereE)
        (use a(2) in \<open>simp_all add: fresh_scale_up_def refresh_action_def open_in_pool_def open_action_def\<close>)
  next
    case False
    with a(1) r have "a \<in> set (actions s) \<or> ca_kind a = ScaleDown"
      by (auto simp: requestCapacityActionTx_def Let_def insert_action_def new_action_def split: if_splits)
    with False a(2) show "\<not> fresh_scale_up s a"
      by (auto simp: fresh_scale_up_def open_in_pool_def open_action_def list_ex_iff)
  qed
qed

lemma pool_action_budget:
  assumes inv: "ledger_inv (s, C)" and r: "reconcile_pool_action now fresh r (b, s) = Inr (b', s')"
    and p: "pd_id (pr_pool r) \<notin> P" and b: "0 \<le> bu_up b"
  shows "fresh_in (insert (pd_id (pr_pool r)) P) s' + bu_up b' \<le> fresh_in P s + bu_up b" "0 \<le> bu_up b'"
    "count_where pending_scale_up (actions s') = count_where pending_scale_up (actions s)"
proof -
  let ?p = "pd_id (pr_pool r)"
  from r consider
    (up) "requestCapacityActionTx now (fresh ?p) ?p ScaleUp (pr_desired r) (pr_active r) (pr_reason r) s = Inr s'"
      "bu_up b' = bu_up b - 1" "0 < bu_up b"
  | (down) "requestCapacityActionTx now (fresh ?p) ?p ScaleDown (pr_desired r) (pr_active r) (pr_reason r) s = Inr s'"
      "bu_up b' = bu_up b"
  | (cancel) reason where "s' = cancelRequestedCapacityActionTx now ?p reason s" "bu_up b' = bu_up b"
    by (auto simp: reconcile_pool_action_def Let_def bind_result_Inr split: if_splits)
  then have "pool_local ?p s s' \<and> fresh_in {?p} s' + bu_up b' \<le> bu_up b \<and> 0 \<le> bu_up b'"
  proof cases
    case up
    with fresh_in_le_1[OF requestTx_inv[OF inv up(1)], of ?p] show ?thesis by (simp add: requestTx_local)
  next
    case down
    then show ?thesis using b by (simp add: requestTx_local requestTx_scale_down_fresh)
  next
    case cancel
    then show ?thesis using b by (simp add: cancelTx_local cancelTx_fresh)
  qed
  then have l: "pool_local ?p s s'" and f: "fresh_in {?p} s' + bu_up b' \<le> bu_up b" and "0 \<le> bu_up b'"
    by auto
  then show "0 \<le> bu_up b'"
    "count_where pending_scale_up (actions s') = count_where pending_scale_up (actions s)"
    by (simp_all add: pool_local_pending)
  show "fresh_in (insert ?p P) s' + bu_up b' \<le> fresh_in P s + bu_up b"
    using fresh_in_insert[OF p, of s'] pool_local_fresh[OF l p] f by simp
qed

lemma fold_budget:
  assumes "ledger_inv (s, C)" "fold_result (reconcile_pool_action now fresh) rs (b, s) = Inr (b', s')"
    and "distinct (map (\<lambda>r. pd_id (pr_pool r)) rs)" "(\<lambda>r. pd_id (pr_pool r)) ` set rs \<inter> P = {}" "0 \<le> bu_up b"
  shows "fresh_in ((\<lambda>r. pd_id (pr_pool r)) ` set rs \<union> P) s' + bu_up b' \<le> fresh_in P s + bu_up b \<and> 0 \<le> bu_up b' \<and>
    count_where pending_scale_up (actions s') = count_where pending_scale_up (actions s)"
  using assms
proof (induction rs arbitrary: b s P)
  case (Cons r rs)
  let ?p = "pd_id (pr_pool r)"
  from Cons.prems(2) obtain b1 s1 where r: "reconcile_pool_action now fresh r (b, s) = Inr (b1, s1)"
    and rest: "fold_result (reconcile_pool_action now fresh) rs (b1, s1) = Inr (b', s')"
    by (auto simp: bind_result_Inr)
  have p: "?p \<notin> P" using Cons.prems(4) by simp
  note one = pool_action_budget[OF Cons.prems(1) r p Cons.prems(5)]
  have inv1: "ledger_inv (s1, C)" using pool_action_inv[OF _ r] Cons.prems(1) by simp
  have "fresh_in ((\<lambda>r. pd_id (pr_pool r)) ` set rs \<union> insert ?p P) s' + bu_up b' \<le>
      fresh_in (insert ?p P) s1 + bu_up b1 \<and> 0 \<le> bu_up b' \<and>
      count_where pending_scale_up (actions s') = count_where pending_scale_up (actions s1)"
    by (rule Cons.IH[OF inv1 rest _ _ one(2)]) (use Cons.prems(3,4) in \<open>auto simp: image_iff\<close>)
  with one show ?case by simp
qed simp

text \<open>C22: In actuate mode a reconcile pass requests new scale-ups only within the deployment ceiling:
  active slots, claimed scale-ups and the unbound scale-ups requested in the reconciled pools together
  stay within the maximum, unless the active and claimed ones exceeded it already.\<close>

theorem scale_up_within_budget:
  assumes "ledger_reachable (s, C)" "ap_mode policy = ''actuate''"
    and "distinct (map (\<lambda>r. pd_id (pr_pool r)) rows)"
    and "reconcileCapacityActionsTx now fresh policy rows active s = Inr s'"
  shows "active + int (count_where pending_scale_up (actions s')) +
      fresh_in ((\<lambda>r. pd_id (pr_pool r)) ` set rows) s'
    \<le> max (ap_max policy) (active + int (count_where pending_scale_up (actions s')))"
proof -
  have inv: "ledger_inv (s, C)" using assms(1) by (rule ledger_reachable_inv)
  let ?b = "\<lparr>bu_up = scale_up_budget policy active s, bu_down = scale_down_budget policy active,
      bu_provider = provider_budget now policy s\<rparr>"
  from assms(2,4) reopen_idle[OF inv, of now] obtain b where
    f: "fold_result (reconcile_pool_action now fresh) (sort_key pool_order rows) (?b, s) = Inr (b, s')"
    by (auto simp: reconcileCapacityActionsTx_def Let_def bind_result_Inr)
  have d: "distinct (map (\<lambda>r. pd_id (pr_pool r)) (sort_key pool_order rows))"
    using assms(3) by (simp add: distinct_map)
  have "0 \<le> bu_up ?b" by (simp add: scale_up_budget_def Let_def)
  from fold_budget[OF inv f d _ this, of "{}"] show ?thesis
    by (auto simp: scale_up_budget_def Let_def split: if_splits)
qed

definition run_actuate :: autoscale_policy where
  "run_actuate = run_policy\<lparr>ap_mode := ''actuate''\<rparr>"

definition run_rows :: "pool_row list" where
  "run_rows = [(run_pool ''p1'')\<lparr>pr_recommendation := ''hold''\<rparr>, (run_pool ''p2'')\<lparr>pr_backlog := 2\<rparr>]"

definition run6 :: db where
  "run6 = run4\<lparr>actions := actions run4 @ [new_action (seconds 5) ''a2'' ''p2'' ScaleUp 1 0 ''demand'']\<rparr>"

lemma run6_op: "reconcileCapacityActionsTx (seconds 5) (\<lambda>p. ''a2'') run_actuate run_rows 0 run4 = Inr run6"
proof -
  have idle: "reopenBoundCapacityActionsTx (seconds 5) run4 = run4"
    using reopen_idle[OF ledger_reachable_inv[OF run_reachable(2)]] .
  have srt: "sort_key pool_order run_rows = [(run_pool ''p2'')\<lparr>pr_backlog := 2\<rparr>, (run_pool ''p1'')\<lparr>pr_recommendation := ''hold''\<rparr>]"
    by (simp add: run_rows_def pool_order_def run_pool_def)
  show ?thesis
    unfolding reconcileCapacityActionsTx_def idle srt
    by (simp add: run_actuate_def run_policy_def reconcile_pool_action_def scale_up_budget_def
        pending_scale_up_def provider_budget_def provider_active_def provider_pending_def
        requestCapacityActionTx_def insert_action_def pool_exists_def open_in_pool_def open_action_def
        cancelRequestedCapacityActionTx_def bound_action_def owned_by_def live_instance_def run6_def
        new_action_def new_instance_def capacityActionMaxDetail_def run_defs Let_def)
qed

theorem scale_up_within_budget_witness: "fresh_in {''p1'', ''p2''} run6 \<le> 1"
proof -
  have "distinct (map (\<lambda>r. pd_id (pr_pool r)) run_rows)" "ap_mode run_actuate = ''actuate''"
    by (simp_all add: run_rows_def run_pool_def run_actuate_def)
  from scale_up_within_budget[OF run_reachable(2) this(2,1) run6_op] show ?thesis
    by (simp add: run_rows_def run_pool_def run_actuate_def run_policy_def run6_def run4_def run3_def run2_def
        run0_def empty_db_def run_action_def new_action_def pending_scale_up_def)
qed


end
