(* ===== verification/Capacity_Actuator.thy ===== *)
theory Capacity_Actuator
  imports Capacity_Safety
begin

text \<open>
  The actuator loop \<^verbatim>\<open>src/internal/capacity/actuator.go\<close> over the ledger interface
  \<^verbatim>\<open>builder.CapacityActuatorLedger\<close>. The Go interface is a record of operations; the actuator's
  environment (other processes that commit between its calls) and the providers are parameters. Time
  passes while the actuator waits and while a provider works; the renewal goroutine of
  \<^verbatim>\<open>executeWithLease\<close> ticks during that time. The calls to providers are logged with the ledger state
  they were made in.
\<close>

section \<open>Interfaces\<close>

record 's ledger_ops =
  lo_claim :: "time \<Rightarrow> string \<Rightarrow> duration \<Rightarrow> 's \<Rightarrow> (ledger_error, capacity_claim option \<times> 's) result"
  lo_renew :: "time \<Rightarrow> capacity_claim \<Rightarrow> duration \<Rightarrow> 's \<Rightarrow> (ledger_error, unit \<times> 's) result"
  lo_reserve :: "time \<Rightarrow> capacity_claim \<Rightarrow> 's \<Rightarrow> (ledger_error, capacity_instance \<times> 's) result"
  lo_record :: "time \<Rightarrow> capacity_claim \<Rightarrow> capacity_instance \<Rightarrow> string \<Rightarrow> (string \<times> string) list \<Rightarrow> 's \<Rightarrow>
    (ledger_error, unit \<times> 's) result"
  lo_confirm :: "time \<Rightarrow> capacity_claim \<Rightarrow> capacity_instance \<Rightarrow> 's \<Rightarrow> (ledger_error, bool \<times> 's) result"
  lo_select :: "time \<Rightarrow> capacity_claim \<Rightarrow> 's \<Rightarrow> (ledger_error, capacity_instance option \<times> 's) result"
  lo_drained :: "time \<Rightarrow> capacity_claim \<Rightarrow> capacity_instance \<Rightarrow> 's \<Rightarrow> (ledger_error, bool \<times> 's) result"
  lo_begin :: "time \<Rightarrow> capacity_claim \<Rightarrow> capacity_instance \<Rightarrow> 's \<Rightarrow> (ledger_error, unit \<times> 's) result"
  lo_complete :: "time \<Rightarrow> capacity_claim \<Rightarrow> capacity_instance \<Rightarrow> 's \<Rightarrow> (ledger_error, unit \<times> 's) result"
  lo_retry :: "time \<Rightarrow> capacity_claim \<Rightarrow> string \<Rightarrow> 's \<Rightarrow> (ledger_error, unit \<times> 's) result"

text \<open>A provider call takes time and fails with a message or succeeds.\<close>

record provider =
  pv_provision :: "time \<Rightarrow> capacity_claim \<Rightarrow> capacity_instance \<Rightarrow>
    duration \<times> (string + string \<times> (string \<times> string) list)"
  pv_delete :: "time \<Rightarrow> capacity_instance \<Rightarrow> duration \<times> (string + unit)"

datatype provider_call = ProvisionCall capacity_instance | DeleteCall capacity_instance

datatype actuator_error =
    LedgerRequired
  | OwnerRequired
  | LeaseTooShort
  | PollTooLong
  | IntervalsNotPositive
  | NoProviders
  | InvalidProvider
  | ProviderUnknown string
  | LedgerFailed ledger_error
  | ContextDone
  | ProvisionFailed string string
  | DeleteFailed string string
  | NoActiveInstance string
  | UnsupportedKind string
  | WaitFailed string
  | RenewFailed "actuator_error option" ledger_error
  | RetryFailed actuator_error ledger_error

section \<open>Configuration\<close>

text \<open>\<^verbatim>\<open>strings.ToLower\<close> on the ASCII provider names of the configuration.\<close>

definition to_lower :: "char \<Rightarrow> char" where
  "to_lower c = (if CHR ''A'' \<le> c \<and> c \<le> CHR ''Z'' then char_of (of_char c + 32 :: nat) else c)"

definition resolve :: "(string \<rightharpoonup> provider) \<Rightarrow> string \<Rightarrow> (actuator_error, provider) result" where
  "resolve providers name =
     (case providers (map to_lower (TrimSpace name)) of
        None \<Rightarrow> Inl (ProviderUnknown name)
      | Some p \<Rightarrow> Inr p)"

record actuator_config =
  cf_owner :: string
  cf_lease :: duration
  cf_poll :: duration
  cf_limit :: duration
  cf_idle :: duration

definition validate_config :: "actuator_config \<Rightarrow> (actuator_error, unit) result" where
  "validate_config c =
     (if TrimSpace (cf_owner c) = [] \<or> length (cf_owner c) > 256 then Inl OwnerRequired
      else if cf_lease c < seconds 3 then Inl LeaseTooShort
      else if cf_poll c \<le> 0 \<or> cf_poll c \<ge> go_div (cf_lease c) 2 then Inl PollTooLong
      else if cf_limit c \<le> 0 \<or> cf_idle c \<le> 0 then Inl IntervalsNotPositive
      else Inr ())"

text \<open>The registry as an association list of names and possibly nil providers.\<close>

definition New ::
    "'s ledger_ops option \<Rightarrow> (string \<times> provider option) list \<Rightarrow> actuator_config \<Rightarrow>
     (actuator_error, 's ledger_ops \<times> (string \<rightharpoonup> provider) \<times> actuator_config) result" where
  "New ledger registry cfg =
     (case ledger of
        None \<Rightarrow> Inl LedgerRequired
      | Some L \<Rightarrow>
        bind_result (validate_config cfg) (\<lambda>_.
          if registry = [] then Inl NoProviders
          else if list_ex (\<lambda>(name, p). TrimSpace name = [] \<or> p = None) registry then Inl InvalidProvider
          else Inr (L, (\<lambda>n. Option.bind (map_of registry n) id), cfg)))"

section \<open>The world of one operation\<close>

record 's world =
  wo_now :: time
  wo_db :: 's
  wo_tick :: time \<comment> \<open>next tick of the renewal goroutine\<close>
  wo_deadline :: time \<comment> \<open>deadline of the operation context\<close>
  wo_failed :: "ledger_error option" \<comment> \<open>a failed renewal, which cancelled the context\<close>
  wo_log :: "(provider_call \<times> 's) list"

text \<open>What other processes commit between two instants, and the text of an error.\<close>

record 's runtime =
  rt_env :: "time \<Rightarrow> time \<Rightarrow> 's \<Rightarrow> 's"
  rt_text :: "actuator_error \<Rightarrow> string"

type_synonym ('s, 'a) outcome = "(actuator_error, 'a) result \<times> 's world"

definition ctx_done :: "'s world \<Rightarrow> bool" where
  "ctx_done w = (wo_failed w \<noteq> None \<or> wo_deadline w \<le> wo_now w)"

definition bind_outcome :: "('s, 'a) outcome \<Rightarrow> ('a \<Rightarrow> 's world \<Rightarrow> ('s, 'b) outcome) \<Rightarrow> ('s, 'b) outcome" where
  "bind_outcome r f = (case r of (Inl e, w) \<Rightarrow> (Inl e, w) | (Inr v, w) \<Rightarrow> f v w)"

text \<open>A ledger call with the operation context.\<close>

definition ledger_call ::
    "(time \<Rightarrow> 's \<Rightarrow> (ledger_error, 'a \<times> 's) result) \<Rightarrow> 's world \<Rightarrow> ('s, 'a) outcome" where
  "ledger_call op w =
     (if ctx_done w then (Inl ContextDone, w)
      else case op (wo_now w) (wo_db w) of
             Inl e \<Rightarrow> (Inl (LedgerFailed e), w)
           | Inr (v, s) \<Rightarrow> (Inr v, w\<lparr>wo_db := s\<rparr>))"

definition advance :: "'s runtime \<Rightarrow> time \<Rightarrow> 's world \<Rightarrow> 's world" where
  "advance rt t w = w\<lparr>wo_now := t, wo_db := rt_env rt (wo_now w) t (wo_db w)\<rparr>"

text \<open>Time passes up to \<open>target\<close> while the goroutine renews the claim every third of the lease; it
  stops at a failed renewal and when the context is done.\<close>

function elapse ::
    "'s ledger_ops \<Rightarrow> actuator_config \<Rightarrow> 's runtime \<Rightarrow> capacity_claim \<Rightarrow> time \<Rightarrow> 's world \<Rightarrow> 's world" where
  "elapse L cfg rt c target w =
     (let interval = go_div (cf_lease cfg) 3 in
      if interval \<le> 0 \<or> wo_failed w \<noteq> None \<or> target < wo_tick w \<or> wo_deadline w \<le> wo_tick w
      then advance rt target w
      else
        let w1 = (advance rt (wo_tick w) w)\<lparr>wo_tick := wo_tick w + interval\<rparr> in
        case lo_renew L (wo_now w1) c (cf_lease cfg) (wo_db w1) of
          Inl e \<Rightarrow> w1\<lparr>wo_failed := Some e\<rparr>
        | Inr (u, s) \<Rightarrow> elapse L cfg rt c target (w1\<lparr>wo_db := s\<rparr>))"
  by pat_completeness auto
termination
  by (relation "measure (\<lambda>(L, cfg, rt, c, target, w). nat (target + 1 - wo_tick w))")
    (auto simp: advance_def)

declare elapse.simps [simp del]

lemma elapse_keeps:
  "wo_deadline (elapse L cfg rt c t w) = wo_deadline w \<and> wo_log (elapse L cfg rt c t w) = wo_log w \<and>
   (wo_failed w \<noteq> None \<longrightarrow> wo_failed (elapse L cfg rt c t w) \<noteq> None) \<and>
   (wo_failed (elapse L cfg rt c t w) = None \<longrightarrow> wo_now (elapse L cfg rt c t w) = t)"
proof (induction L cfg rt c t w rule: elapse.induct)
  case (1 L cfg rt c target w)
  show ?case
    by (subst (1 2 3 4 5) elapse.simps, use 1 in
        \<open>auto simp: Let_def advance_def elapse.simps[of L cfg rt c target w] split: sum.splits\<close>)
qed

section \<open>The operations\<close>

text \<open>\<^verbatim>\<open>wait\<close>: poll until the observation is ready, fails, or the context ends. \<^verbatim>\<open>New\<close> only builds
  actuators with a positive poll interval.\<close>

function wait ::
    "'s ledger_ops \<Rightarrow> actuator_config \<Rightarrow> 's runtime \<Rightarrow> capacity_claim \<Rightarrow>
     (time \<Rightarrow> 's \<Rightarrow> (ledger_error, bool \<times> 's) result) \<Rightarrow> string \<Rightarrow> 's world \<Rightarrow> ('s, unit) outcome" where
  "wait L cfg rt c observe description w =
     (case ledger_call observe w of
        (Inl e, w1) \<Rightarrow> (Inl e, w1)
      | (Inr True, w1) \<Rightarrow> (Inr (), w1)
      | (Inr False, w1) \<Rightarrow>
          let w2 = elapse L cfg rt c (min (wo_now w1 + cf_poll cfg) (wo_deadline w1)) w1 in
          if cf_poll cfg \<le> 0 \<or> ctx_done w2 then (Inl (WaitFailed description), w2)
          else wait L cfg rt c observe description w2)"
  by pat_completeness auto

lemma ledger_call_keeps:
  assumes "ledger_call op w = (r, w')"
  shows "wo_now w' = wo_now w" "wo_deadline w' = wo_deadline w" "wo_failed w' = wo_failed w"
    "wo_tick w' = wo_tick w" "wo_log w' = wo_log w"
  using assms by (auto simp: ledger_call_def split: if_splits sum.splits)

lemma ledger_call_Inr:
  assumes "ledger_call op w = (Inr v, w')"
  shows "\<not> ctx_done w" "op (wo_now w) (wo_db w) = Inr (v, wo_db w')"
  using assms by (auto simp: ledger_call_def split: if_splits sum.splits)

lemma ledger_call_Inl:
  assumes "ledger_call op w = (Inl e, w')"
  shows "w' = w"
  using assms by (auto simp: ledger_call_def split: if_splits sum.splits)

lemma wait_decreases:
  assumes call: "(Inr False, w1) = ledger_call observe w" and go: "\<not> (cf_poll cfg \<le> 0 \<or> ctx_done w2)"
    and w2: "w2 = elapse L cfg rt c (min (wo_now w1 + cf_poll cfg) (wo_deadline w1)) w1"
  shows "nat (wo_deadline w2 - wo_now w2) < nat (wo_deadline w - wo_now w)"
proof -
  have keep: "wo_now w1 = wo_now w" "wo_deadline w1 = wo_deadline w"
    using ledger_call_keeps[OF call[symmetric]] by auto
  have live: "wo_now w1 < wo_deadline w1"
    using ledger_call_Inr(1)[OF call[symmetric]] keep by (auto simp: ctx_done_def)
  have "wo_deadline w2 = wo_deadline w1" "wo_now w2 = min (wo_now w1 + cf_poll cfg) (wo_deadline w1)"
    using elapse_keeps[of L cfg rt c _ w1] go by (auto simp: w2 ctx_done_def)
  with live keep go show ?thesis by auto
qed

termination wait
proof (relation "measure (\<lambda>(L, cfg, rt, c, observe, description, w). nat (wo_deadline w - wo_now w))",
    rule wf_measure, unfold in_measure prod.case)
qed (rule wait_decreases; simp)

declare wait.simps [simp del]

text \<open>A provider call is logged with the ledger state it is made in; the renewal goroutine ticks while
  it runs.\<close>

definition provider_runs ::
    "'s ledger_ops \<Rightarrow> actuator_config \<Rightarrow> 's runtime \<Rightarrow> capacity_claim \<Rightarrow> provider_call \<Rightarrow> duration \<Rightarrow>
     's world \<Rightarrow> 's world" where
  "provider_runs L cfg rt c call d w =
     (let target = wo_now w + max 0 d;
          w1 = elapse L cfg rt c target (w\<lparr>wo_log := wo_log w @ [(call, wo_db w)]\<rparr>) in
      if wo_now w1 < target then advance rt target w1 else w1)"

definition scaleUp ::
    "'s ledger_ops \<Rightarrow> actuator_config \<Rightarrow> 's runtime \<Rightarrow> provider \<Rightarrow> capacity_claim \<Rightarrow> 's world \<Rightarrow>
     ('s, unit) outcome" where
  "scaleUp L cfg rt p c w =
     bind_outcome (ledger_call (\<lambda>t. lo_reserve L t c) w) (\<lambda>i w1.
     bind_outcome
       (if ci_remote_ref i = [] then
          (case pv_provision p (wo_now w1) c i of (d, r) \<Rightarrow>
             let w2 = provider_runs L cfg rt c (ProvisionCall i) d w1 in
             case r of
               Inl m \<Rightarrow> (Inl (ProvisionFailed (ci_provider_id i) m), w2)
             | Inr (ref, attrs) \<Rightarrow> ledger_call (\<lambda>t. lo_record L t c i ref attrs) w2)
        else (Inr (), w1)) (\<lambda>_ w3.
     wait L cfg rt c (\<lambda>t. lo_confirm L t c i) ''executor heartbeat'' w3))"

definition scaleDown ::
    "'s ledger_ops \<Rightarrow> actuator_config \<Rightarrow> 's runtime \<Rightarrow> provider \<Rightarrow> capacity_claim \<Rightarrow> 's world \<Rightarrow>
     ('s, unit) outcome" where
  "scaleDown L cfg rt p c w =
     bind_outcome (ledger_call (\<lambda>t. lo_select L t c) w) (\<lambda>sel w1.
     case sel of
       None \<Rightarrow> (Inl (NoActiveInstance (pd_id (cc_pool c))), w1)
     | Some i \<Rightarrow>
       bind_outcome
         (if ci_state i = Draining then
            bind_outcome (wait L cfg rt c (\<lambda>t. lo_drained L t c i) ''executor drain'' w1)
              (\<lambda>_. ledger_call (\<lambda>t. lo_begin L t c i))
          else (Inr (), w1)) (\<lambda>_ w2.
       case pv_delete p (wo_now w2) i of (d, r) \<Rightarrow>
         let w3 = provider_runs L cfg rt c (DeleteCall i) d w2 in
         case r of
           Inl m \<Rightarrow> (Inl (DeleteFailed (ci_provider_id i) m), w3)
         | Inr _ \<Rightarrow> ledger_call (\<lambda>t. lo_complete L t c i) w3))"

definition execute ::
    "'s ledger_ops \<Rightarrow> actuator_config \<Rightarrow> 's runtime \<Rightarrow> provider \<Rightarrow> capacity_claim \<Rightarrow> 's world \<Rightarrow>
     ('s, unit) outcome" where
  "execute L cfg rt p c w =
     (if cc_kind c = ''scale-up'' then scaleUp L cfg rt p c w
      else if cc_kind c = ''scale-down'' then scaleDown L cfg rt p c w
      else (Inl (UnsupportedKind (cc_kind c)), w))"

definition executeWithLease ::
    "'s ledger_ops \<Rightarrow> actuator_config \<Rightarrow> 's runtime \<Rightarrow> provider \<Rightarrow> capacity_claim \<Rightarrow> 's world \<Rightarrow>
     ('s, unit) outcome" where
  "executeWithLease L cfg rt p c w =
     (case execute L cfg rt p c
             (w\<lparr>wo_deadline := wo_now w + cf_limit cfg, wo_tick := wo_now w + go_div (cf_lease cfg) 3,
                wo_failed := None\<rparr>) of
        (r, w1) \<Rightarrow>
        (case wo_failed w1 of
           None \<Rightarrow> (r, w1)
         | Some e \<Rightarrow> (Inl (RenewFailed (case r of Inl e1 \<Rightarrow> Some e1 | Inr _ \<Rightarrow> None) e), w1)))"

text \<open>The pair of \<^verbatim>\<open>RunOne\<close>: whether an action was worked on, and the error if any.\<close>

definition RunOne ::
    "'s ledger_ops \<Rightarrow> (string \<rightharpoonup> provider) \<Rightarrow> actuator_config \<Rightarrow> 's runtime \<Rightarrow> 's world \<Rightarrow>
     (bool \<times> actuator_error option) \<times> 's world" where
  "RunOne L providers cfg rt w =
     (case lo_claim L (wo_now w) (cf_owner cfg) (cf_lease cfg) (wo_db w) of
        Inl e \<Rightarrow> ((False, Some (LedgerFailed e)), w)
      | Inr (None, s) \<Rightarrow> ((False, None), w\<lparr>wo_db := s\<rparr>)
      | Inr (Some c, s) \<Rightarrow>
        (case (case resolve providers (pd_provider (cc_pool c)) of
                 Inl e \<Rightarrow> (Inl e, w\<lparr>wo_db := s\<rparr>)
               | Inr p \<Rightarrow> executeWithLease L cfg rt p c (w\<lparr>wo_db := s\<rparr>)) of
           (Inr _, w1) \<Rightarrow> ((True, None), w1)
         | (Inl e, w1) \<Rightarrow>
           (case lo_retry L (wo_now w1) c (rt_text rt e) (wo_db w1) of
              Inl e2 \<Rightarrow> ((True, Some (RetryFailed e e2)), w1)
            | Inr (_, s1) \<Rightarrow> ((True, Some e), w1\<lparr>wo_db := s1\<rparr>))))"

text \<open>\<^verbatim>\<open>Run\<close> until its context is cancelled, here after \<open>n\<close> rounds.\<close>

fun Run ::
    "'s ledger_ops \<Rightarrow> (string \<rightharpoonup> provider) \<Rightarrow> actuator_config \<Rightarrow> 's runtime \<Rightarrow> nat \<Rightarrow> 's world \<Rightarrow> 's world" where
  "Run L providers cfg rt 0 w = w"
| "Run L providers cfg rt (Suc n) w =
     (case RunOne L providers cfg rt w of
        ((worked, e), w1) \<Rightarrow>
          Run L providers cfg rt n (if worked then w1 else advance rt (wo_now w1 + cf_idle cfg) w1))"

section \<open>The contract of the ledger\<close>

text \<open>A logged provider call was justified by the ledger state it was made in: only an instance that is
  being provisioned is created, only one that is being deleted is destroyed.\<close>

definition justified :: "('s \<Rightarrow> string \<Rightarrow> instance_state option) \<Rightarrow> provider_call \<times> 's \<Rightarrow> bool" where
  "justified life e = (case e of
     (ProvisionCall i, s) \<Rightarrow> life s (ci_id i) = Some Provisioning
   | (DeleteCall i, s) \<Rightarrow> life s (ci_id i) = Some Deleting)"

text \<open>
  What the actuator relies on: \<open>ok\<close> is the ledger's invariant, \<open>holds c\<close> says that the claim was handed
  out by it, \<open>life\<close> reads the state of an instance, \<open>closed c\<close> says that the claimed action is done.
\<close>

locale actuator_ledger =
  fixes L :: "'s ledger_ops"
    and ok :: "'s \<Rightarrow> bool"
    and holds :: "capacity_claim \<Rightarrow> 's \<Rightarrow> bool"
    and life :: "'s \<Rightarrow> string \<Rightarrow> instance_state option"
    and closed :: "capacity_claim \<Rightarrow> 's \<Rightarrow> bool"
  assumes holds_ok: "holds c s \<Longrightarrow> ok s"
    and claim_law: "ok s \<Longrightarrow> lo_claim L t owner lease s = Inr (r, s') \<Longrightarrow>
      ok s' \<and> (\<forall>c. r = Some c \<longrightarrow> holds c s')"
    and renew_law: "holds c s \<Longrightarrow> lo_renew L t c lease s = Inr (u, s') \<Longrightarrow> holds c s'"
    and reserve_law: "holds c s \<Longrightarrow> lo_reserve L t c s = Inr (i, s') \<Longrightarrow>
      holds c s' \<and> life s' (ci_id i) = Some Provisioning"
    and record_law: "holds c s \<Longrightarrow> lo_record L t c i ref attrs s = Inr (u, s') \<Longrightarrow> holds c s'"
    and confirm_law: "holds c s \<Longrightarrow> lo_confirm L t c i s = Inr (b, s') \<Longrightarrow>
      holds c s' \<and> (b \<longrightarrow> closed c s')"
    and select_law: "holds c s \<Longrightarrow> lo_select L t c s = Inr (sel, s') \<Longrightarrow>
      holds c s' \<and> (\<forall>i. sel = Some i \<longrightarrow>
        life s' (ci_id i) = Some (ci_state i) \<and> (ci_state i = Draining \<or> ci_state i = Deleting))"
    and drained_law: "holds c s \<Longrightarrow> lo_drained L t c i s = Inr (b, s') \<Longrightarrow> holds c s'"
    and begin_law: "holds c s \<Longrightarrow> lo_begin L t c i s = Inr (u, s') \<Longrightarrow>
      holds c s' \<and> life s' (ci_id i) = Some Deleting"
    and complete_law: "holds c s \<Longrightarrow> lo_complete L t c i s = Inr (u, s') \<Longrightarrow>
      holds c s' \<and> closed c s'"
    and retry_law: "holds c s \<Longrightarrow> lo_retry L t c detail s = Inr (u, s') \<Longrightarrow> holds c s'"

text \<open>An actuator in an environment of other processes that respect the same ledger.\<close>

locale actuator = actuator_ledger +
  fixes rt :: "'a runtime"
  assumes env_ok: "ok s \<Longrightarrow> ok (rt_env rt t u s)"
    and env_holds: "holds c s \<Longrightarrow> holds c (rt_env rt t u s)"
begin

abbreviation good :: "capacity_claim \<Rightarrow> 'a world \<Rightarrow> bool" where
  "good c w \<equiv> holds c (wo_db w) \<and> list_all (justified life) (wo_log w)"

lemma advance_good: "good c w \<Longrightarrow> good c (advance rt t w)"
  by (simp add: advance_def env_holds)

lemma elapse_good: "good c w \<Longrightarrow> good c (elapse L cfg rt c t w)"
proof (induction "nat (t + 1 - wo_tick w)" arbitrary: w rule: less_induct)
  case less
  let ?n = "go_div (cf_lease cfg) 3"
  let ?w = "(advance rt (wo_tick w) w)\<lparr>wo_tick := wo_tick w + ?n\<rparr>"
  show ?case
  proof (cases "?n \<le> 0 \<or> wo_failed w \<noteq> None \<or> t < wo_tick w \<or> wo_deadline w \<le> wo_tick w")
    case True
    then have "elapse L cfg rt c t w = advance rt t w" by (subst elapse.simps) (auto simp: Let_def)
    then show ?thesis using advance_good[OF less.prems] by simp
  next
    case False
    have g: "good c ?w" using advance_good[OF less.prems, of "wo_tick w"] by simp
    show ?thesis
    proof (cases "lo_renew L (wo_now ?w) c (cf_lease cfg) (wo_db ?w)")
      case (Inl e)
      then have "elapse L cfg rt c t w = ?w\<lparr>wo_failed := Some e\<rparr>"
        using False by (subst elapse.simps) (simp add: Let_def)
      then show ?thesis using g by simp
    next
      case (Inr us)
      obtain u s where us: "us = (u, s)" by (cases us) auto
      have e: "elapse L cfg rt c t w = elapse L cfg rt c t (?w\<lparr>wo_db := s\<rparr>)"
        using False Inr us by (subst elapse.simps) (simp add: Let_def)
      have "good c (?w\<lparr>wo_db := s\<rparr>)" using renew_law[OF _ Inr[unfolded us]] g by auto
      moreover have "nat (t + 1 - wo_tick (?w\<lparr>wo_db := s\<rparr>)) < nat (t + 1 - wo_tick w)" using False by auto
      ultimately show ?thesis unfolding e by (intro less.hyps)
    qed
  qed
qed

lemma call_good:
  assumes "good c w" "ledger_call op w = (r, w')"
    and "\<And>v s'. op (wo_now w) (wo_db w) = Inr (v, s') \<Longrightarrow> holds c s'"
  shows "good c w'"
proof (cases r)
  case (Inl e)
  then show ?thesis using ledger_call_Inl[of op w e w'] assms by simp
next
  case (Inr v)
  then show ?thesis
    using ledger_call_Inr(2)[of op w v w'] assms ledger_call_keeps(5)[OF assms(2)] by auto
qed

lemma wait_good:
  assumes obs: "\<And>t s b s'. holds c s \<Longrightarrow> observe t s = Inr (b, s') \<Longrightarrow> holds c s'"
    and "good c w" "wait L cfg rt c observe d w = (r, w')"
  shows "good c w'"
  using assms(2,3)
proof (induction "nat (wo_deadline w - wo_now w)" arbitrary: w rule: less_induct)
  case less
  obtain x w1 where x: "ledger_call observe w = (x, w1)" by (cases "ledger_call observe w") auto
  have g1: "good c w1" by (rule call_good[OF less.prems(1) x]) (use obs less.prems(1) in blast)
  show ?case
  proof (cases "x = Inr False")
    case True
    let ?w2 = "elapse L cfg rt c (min (wo_now w1 + cf_poll cfg) (wo_deadline w1)) w1"
    have g2: "good c ?w2" using elapse_good[OF g1] .
    show ?thesis
    proof (cases "cf_poll cfg \<le> 0 \<or> ctx_done ?w2")
      case stop: True
      then have "w' = ?w2" using less.prems(2) x True by (subst (asm) wait.simps) (auto simp: Let_def)
      with g2 show ?thesis by simp
    next
      case go: False
      have "wait L cfg rt c observe d ?w2 = (r, w')"
        using less.prems(2) x True go by (subst (asm) wait.simps) (simp add: Let_def)
      moreover have "nat (wo_deadline ?w2 - wo_now ?w2) < nat (wo_deadline w - wo_now w)"
        by (rule wait_decreases[where observe = observe, OF _ go refl]) (simp add: x True)
      ultimately show ?thesis using less.hyps g2 by blast
    qed
  next
    case False
    then have "w' = w1"
      using less.prems(2) x by (subst (asm) wait.simps) (auto split: sum.splits bool.splits)
    with g1 show ?thesis by simp
  qed
qed

lemma wait_ready:
  assumes obs: "\<And>t s s'. holds c s \<Longrightarrow> observe t s = Inr (True, s') \<Longrightarrow> Q s'"
    and step: "\<And>t s b s'. holds c s \<Longrightarrow> observe t s = Inr (b, s') \<Longrightarrow> holds c s'"
    and "good c w" "wait L cfg rt c observe d w = (Inr u, w')"
  shows "Q (wo_db w')"
  using assms(3,4)
proof (induction "nat (wo_deadline w - wo_now w)" arbitrary: w rule: less_induct)
  case less
  obtain x w1 where x: "ledger_call observe w = (x, w1)" by (cases "ledger_call observe w") auto
  have g1: "good c w1" by (rule call_good[OF less.prems(1) x]) (use step less.prems(1) in blast)
  let ?w2 = "elapse L cfg rt c (min (wo_now w1 + cf_poll cfg) (wo_deadline w1)) w1"
  consider (ready) "x = Inr True" "w' = w1" |
    (again) "x = Inr False" "\<not> (cf_poll cfg \<le> 0 \<or> ctx_done ?w2)" "wait L cfg rt c observe d ?w2 = (Inr u, w')"
    using less.prems(2) x
    by (subst (asm) wait.simps) (auto simp: Let_def split: sum.splits bool.splits if_splits)
  then show ?case
  proof cases
    case ready
    then show ?thesis using obs less.prems(1) ledger_call_Inr(2)[of observe w True w1] x by auto
  next
    case again
    have "nat (wo_deadline ?w2 - wo_now ?w2) < nat (wo_deadline w - wo_now w)"
      by (rule wait_decreases[where observe = observe, OF _ again(2) refl]) (simp add: x again(1))
    then show ?thesis using less.hyps elapse_good[OF g1] again(3) by blast
  qed
qed

lemma provider_runs_good:
  assumes "good c w" "justified life (call, wo_db w)"
  shows "good c (provider_runs L cfg rt c call d w)"
proof -
  let ?w = "w\<lparr>wo_log := wo_log w @ [(call, wo_db w)]\<rparr>" and ?t = "wo_now w + max 0 d"
  have "good c ?w" using assms by simp
  then have e: "good c (elapse L cfg rt c ?t ?w)" by (rule elapse_good)
  show ?thesis
    unfolding provider_runs_def Let_def using e advance_good[OF e, of ?t] by (cases "wo_now (elapse L cfg rt c ?t ?w) < ?t") simp_all
qed

lemma scaleUp_good:
  assumes g: "good c w" and r: "scaleUp L cfg rt p c w = (r, w')"
  shows "good c w' \<and> (r = Inr () \<longrightarrow> closed c (wo_db w'))"
proof -
  obtain x w1 where x: "ledger_call (\<lambda>t. lo_reserve L t c) w = (x, w1)" by (metis surj_pair)
  have g1: "good c w1" by (rule call_good[OF g x]) (use reserve_law g in blast)
  show ?thesis
  proof (cases x)
    case (Inl e)
    then show ?thesis using r x g1 by (auto simp: scaleUp_def bind_outcome_def)
  next
    case (Inr i)
    have l1: "life (wo_db w1) (ci_id i) = Some Provisioning"
      using reserve_law[OF conjunct1[OF g] ledger_call_Inr(2)[OF x[unfolded Inr]]] by simp
    define prov where "prov = (if ci_remote_ref i = [] then
          (case pv_provision p (wo_now w1) c i of (d, r) \<Rightarrow>
             let w2 = provider_runs L cfg rt c (ProvisionCall i) d w1 in
             case r of
               Inl m \<Rightarrow> (Inl (ProvisionFailed (ci_provider_id i) m), w2)
             | Inr (ref, attrs) \<Rightarrow> ledger_call (\<lambda>t. lo_record L t c i ref attrs) w2)
        else (Inr (), w1))"
    obtain y w3 where y: "prov = (y, w3)" by (metis surj_pair)
    have run: "good c (provider_runs L cfg rt c (ProvisionCall i) d w1)" for d
      using g1 l1 by (intro provider_runs_good) (simp_all add: justified_def)
    have g3: "good c w3"
      using y g1 run call_good[OF run] record_law unfolding prov_def Let_def
      by (auto split: if_splits prod.splits sum.splits) (metis call_good run record_law)+
    have res: "bind_outcome (y, w3) (\<lambda>_. wait L cfg rt c (\<lambda>t. lo_confirm L t c i) ''executor heartbeat'') = (r, w')"
      using r x Inr y by (simp add: scaleUp_def bind_outcome_def prov_def)
    show ?thesis
    proof (cases y)
      case (Inl e)
      then show ?thesis using res g3 by (auto simp: bind_outcome_def)
    next
      case (Inr u)
      then have wt: "wait L cfg rt c (\<lambda>t. lo_confirm L t c i) ''executor heartbeat'' w3 = (r, w')"
        using res by (simp add: bind_outcome_def)
      have "good c w'" by (rule wait_good[OF _ g3 wt]) (use confirm_law in blast)
      moreover have "closed c (wo_db w')" if "r = Inr ()"
        by (rule wait_ready[where Q = "closed c", OF _ _ g3 wt[unfolded that]])
          (use confirm_law in blast)+
      ultimately show ?thesis by simp
    qed
  qed
qed

lemma scaleDown_good:
  assumes g: "good c w" and r: "scaleDown L cfg rt p c w = (r, w')"
  shows "good c w' \<and> (r = Inr () \<longrightarrow> closed c (wo_db w'))"
proof -
  obtain x w1 where x: "ledger_call (\<lambda>t. lo_select L t c) w = (x, w1)" by (metis surj_pair)
  have g1: "good c w1" by (rule call_good[OF g x]) (use select_law g in blast)
  consider (none) "r = Inl (NoActiveInstance (pd_id (cc_pool c)))" "w' = w1" | (err) e where "r = Inl e" "w' = w1"
    | (some) i where "x = Inr (Some i)"
    using r x by (cases x) (auto simp: scaleDown_def bind_outcome_def split: option.splits)
  then show ?thesis
  proof cases
    case (some i)
    have sel: "life (wo_db w1) (ci_id i) = Some (ci_state i)" "ci_state i = Draining \<or> ci_state i = Deleting"
      using select_law[OF conjunct1[OF g] ledger_call_Inr(2)[OF x[unfolded some]]] by auto
    define prep where "prep = (if ci_state i = Draining then
            bind_outcome (wait L cfg rt c (\<lambda>t. lo_drained L t c i) ''executor drain'' w1)
              (\<lambda>_. ledger_call (\<lambda>t. lo_begin L t c i))
          else (Inr (), w1))"
    obtain y w2 where y: "prep = (y, w2)" by (metis surj_pair)
    have p: "good c w2 \<and> (y = Inr () \<longrightarrow> life (wo_db w2) (ci_id i) = Some Deleting)"
    proof (cases "ci_state i = Draining")
      case True
      obtain z wz where z: "wait L cfg rt c (\<lambda>t. lo_drained L t c i) ''executor drain'' w1 = (z, wz)"
        by (metis surj_pair)
      have gz: "good c wz" by (rule wait_good[OF _ g1 z]) (use drained_law in blast)
      show ?thesis
      proof (cases z)
        case (Inl e)
        then show ?thesis using y True z gz by (auto simp: prep_def bind_outcome_def)
      next
        case (Inr u)
        then have b: "ledger_call (\<lambda>t. lo_begin L t c i) wz = (y, w2)"
          using y True z by (simp add: prep_def bind_outcome_def)
        have "good c w2" by (rule call_good[OF gz b]) (use begin_law gz in blast)
        moreover have "life (wo_db w2) (ci_id i) = Some Deleting" if "y = Inr ()"
          using begin_law[OF conjunct1[OF gz] ledger_call_Inr(2)[OF b[unfolded that]]] by simp
        ultimately show ?thesis by simp
      qed
    next
      case False
      then show ?thesis using y g1 sel by (auto simp: prep_def)
    qed
    obtain d q where q: "pv_delete p (wo_now w2) i = (d, q)" by (metis surj_pair)
    let ?w3 = "provider_runs L cfg rt c (DeleteCall i) d w2"
    have res: "y = Inl e \<and> r = Inl e \<and> w' = w2 \<or> y = Inr () \<and>
        (case q of Inl m \<Rightarrow> (Inl (DeleteFailed (ci_provider_id i) m), ?w3)
         | Inr u \<Rightarrow> ledger_call (\<lambda>t. lo_complete L t c i) ?w3) = (r, w')" if "y = Inl e \<or> y = Inr ()" for e
      using that r x some y q by (auto simp: scaleDown_def bind_outcome_def prep_def Let_def)
    show ?thesis
    proof (cases y)
      case (Inl e)
      then show ?thesis using res[of e] p by auto
    next
      case (Inr u)
      have g3: "good c ?w3" using p Inr by (intro provider_runs_good) (auto simp: justified_def)
      show ?thesis
      proof (cases q)
        case (Inl m)
        then show ?thesis using res[of undefined] Inr g3 by auto
      next
        case (Inr u')
        then have cmp: "ledger_call (\<lambda>t. lo_complete L t c i) ?w3 = (r, w')"
          using res[of undefined] \<open>y = Inr u\<close> by auto
        have "good c w'" by (rule call_good[OF g3 cmp]) (use complete_law g3 in blast)
        moreover have "closed c (wo_db w')" if "r = Inr ()"
          using complete_law[OF conjunct1[OF g3] ledger_call_Inr(2)[OF cmp[unfolded that]]] by simp
        ultimately show ?thesis by blast
      qed
    qed
  qed (use g1 in auto)
qed

lemma executeWithLease_good:
  assumes "good c w" "executeWithLease L cfg rt p c w = (r, w')"
  shows "good c w' \<and> (r = Inr () \<longrightarrow> closed c (wo_db w'))"
proof -
  let ?w = "w\<lparr>wo_deadline := wo_now w + cf_limit cfg, wo_tick := wo_now w + go_div (cf_lease cfg) 3, wo_failed := None\<rparr>"
  obtain x w1 where x: "execute L cfg rt p c ?w = (x, w1)" by (metis surj_pair)
  have g: "good c ?w" using assms(1) by simp
  have "good c w1 \<and> (x = Inr () \<longrightarrow> closed c (wo_db w1))"
    using x g scaleUp_good[OF g, of cfg p x w1] scaleDown_good[OF g, of cfg p x w1]
    by (auto simp: execute_def split: if_splits)
  moreover have "w' = w1 \<and> (r = x \<or> (\<exists>e. r = Inl e))"
    using assms(2) x by (auto simp: executeWithLease_def split: option.splits)
  ultimately show ?thesis by auto
qed

lemma RunOne_good:
  assumes o: "ok (wo_db w)" and l: "list_all (justified life) (wo_log w)" and r: "RunOne L providers cfg rt w = (res, w')"
  shows "ok (wo_db w') \<and> list_all (justified life) (wo_log w') \<and>
    (res = (True, None) \<longrightarrow> (\<exists>c s. lo_claim L (wo_now w) (cf_owner cfg) (cf_lease cfg) (wo_db w) = Inr (Some c, s) \<and>
      closed c (wo_db w')))"
proof (cases "lo_claim L (wo_now w) (cf_owner cfg) (cf_lease cfg) (wo_db w)")
  case (Inl e)
  then show ?thesis using r o l by (auto simp: RunOne_def)
next
  case (Inr cs)
  obtain x s where cs: "cs = (x, s)" by (cases cs) auto
  note law = claim_law[OF o Inr[unfolded cs]]
  show ?thesis
  proof (cases x)
    case None
    then show ?thesis using r law l Inr cs by (auto simp: RunOne_def)
  next
    case (Some c)
    let ?w = "w\<lparr>wo_db := s\<rparr>"
    have g: "good c ?w" using law l Some by simp
    define ex where "ex = (case resolve providers (pd_provider (cc_pool c)) of
                 Inl e \<Rightarrow> (Inl e, ?w) | Inr p \<Rightarrow> executeWithLease L cfg rt p c ?w)"
    obtain y w1 where y: "ex = (y, w1)" by (metis surj_pair)
    have g1: "good c w1 \<and> (y = Inr () \<longrightarrow> closed c (wo_db w1))"
      using y g executeWithLease_good[OF g] unfolding ex_def by (auto split: sum.splits)
    have "w' = w1 \<and> (res = (True, None) \<longrightarrow> y = Inr ()) \<or>
        (\<exists>e u s1. lo_retry L (wo_now w1) c (rt_text rt e) (wo_db w1) = Inr (u, s1) \<and> w' = w1\<lparr>wo_db := s1\<rparr> \<and>
          res = (True, Some e))"
      using r Inr cs Some y by (auto simp: RunOne_def ex_def[symmetric] split: sum.splits)
    then show ?thesis using g1 holds_ok retry_law Inr cs Some by fastforce
  qed
qed

lemma Run_good:
  "ok (wo_db w) \<Longrightarrow> list_all (justified life) (wo_log w) \<Longrightarrow>
   ok (wo_db (Run L providers cfg rt n w)) \<and> list_all (justified life) (wo_log (Run L providers cfg rt n w))"
proof (induction n arbitrary: w)
  case (Suc n)
  obtain b e w1 where r: "RunOne L providers cfg rt w = ((b, e), w1)" by (metis surj_pair)
  note g = RunOne_good[OF Suc.prems r]
  have "ok (wo_db (advance rt t w1)) \<and> list_all (justified life) (wo_log (advance rt t w1))" for t
    using g env_ok by (simp add: advance_def)
  with Suc.IH g r show ?case by simp
qed simp

end

section \<open>The PostgreSQL ledger satisfies the contract\<close>

text \<open>\<open>uuid\<close> supplies the fresh identifiers and \<open>locked\<close> the rows locked by others at each instant.\<close>

definition db_ledger ::
    "(time \<Rightarrow> string \<times> string) \<Rightarrow> (time \<Rightarrow> string \<Rightarrow> bool) \<Rightarrow> db ledger_ops" where
  "db_ledger uuid locked =
     \<lparr>lo_claim = (\<lambda>t. ClaimCapacityAction t (locked t)), lo_renew = RenewCapacityAction,
      lo_reserve = (\<lambda>t. ReserveCapacityInstance t (fst (uuid t)) (snd (uuid t))),
      lo_record = RecordCapacityInstanceProvisioned, lo_confirm = ConfirmCapacityInstanceHeartbeat,
      lo_select = (\<lambda>t. SelectCapacityInstanceForDrain t (locked t)),
      lo_drained = CapacityInstanceDrained, lo_begin = BeginCapacityInstanceDelete,
      lo_complete = CompleteCapacityInstanceDelete, lo_retry = RetryCapacityAction\<rparr>"

definition db_ok :: "db \<Rightarrow> bool" where
  "db_ok s \<longleftrightarrow> (\<exists>C. ledger_reachable (s, C))"

definition db_holds :: "capacity_claim \<Rightarrow> db \<Rightarrow> bool" where
  "db_holds c s \<longleftrightarrow> (\<exists>C. c \<in> set C \<and> ledger_reachable (s, C))"

definition db_life :: "db \<Rightarrow> string \<Rightarrow> instance_state option" where
  "db_life s i = map_option ci_state (lookup_by ci_id i (instances s))"

definition db_closed :: "capacity_claim \<Rightarrow> db \<Rightarrow> bool" where
  "db_closed c s \<longleftrightarrow> (\<exists>a \<in> set (actions s). ca_id a = cc_id c \<and> ca_state a = Completed)"

lemma db_holds_step:
  assumes "db_holds c s" "\<And>C. c \<in> set C \<Longrightarrow> ledger_step (s, C) (s', C)"
  shows "db_holds c s'"
  using assms ledger_reachable.step unfolding db_holds_def by blast

lemma db_holds_ok: "db_holds c s \<Longrightarrow> db_ok s"
  by (auto simp: db_ok_def db_holds_def)

lemma db_life_in:
  assumes "db_ok s" "i \<in> set (instances s)"
  shows "db_life s (ci_id i) = Some (ci_state i)"
proof -
  from assms(1) obtain C where "ledger_inv (s, C)" using ledger_reachable_inv by (auto simp: db_ok_def)
  from lookup_by_distinct[OF ledger_invD(4)[OF this] assms(2)] show ?thesis by (simp add: db_life_def)
qed

lemma open_creates:
  assumes inv: "ledger_inv (s, C)" and a: "a \<in> set (actions s)" "open_action a"
    and i: "i \<in> set (instances s)" "ci_create i = ca_id a"
  shows "ci_state i = Provisioning"
proof -
  have "\<not> create_done (actions s) i"
    using distinct_key_eq[OF ledger_invD(1)[OF inv] _ a(1)] a(2) i(2)
    by (fastforce simp: create_done_def open_action_def)
  with ledger_invD(7)[OF inv i(1)] show ?thesis
    by (cases "ci_state i") (auto simp: instance_ok_def)
qed

lemma update_owned_life:
  assumes ok: "db_ok s'" and u: "update_owned c i st g s = Inr s'"
    and g: "\<And>r. ci_id (g r) = ci_id r" "\<And>r. ci_state (g r) = st'"
  shows "db_life s' (ci_id i) = Some st'"
proof -
  from u have s': "instances s' = update_where (owned_row c i st) g (instances s)"
    "0 < count_where (owned_row c i st) (instances s)"
    by (auto simp: update_owned_def split: if_splits)
  then obtain r where r: "r \<in> set (instances s)" "owned_row c i st r" by (auto simp: count_where_pos)
  then have "g r \<in> set (instances s')" unfolding s'(1) set_update_where by (intro image_eqI[of _ _ r]) auto
  from db_life_in[OF ok this] show ?thesis using r(2) g by (simp add: owned_row_def)
qed

lemma complete_closed:
  assumes "completeCapacityActionTx now c s = Inr s'"
  shows "db_closed c s'"
proof -
  let ?p = "\<lambda>a. ca_id a = cc_id c \<and> fence_current now c a"
  from assms have n: "0 < count_where ?p (actions s)"
    by (auto simp: completeCapacityActionTx_def update_claimed_def Let_def split: if_splits)
  then obtain a where a: "a \<in> set (actions s)" "?p a" unfolding count_where_pos by blast
  define f where "f = (\<lambda>a :: capacity_action. a\<lparr>ca_state := Completed, ca_owner := [], ca_lease := None,
    ca_detail := [], ca_completed_at := Some now\<rparr>)"
  from assms have "actions s' = update_where ?p f (actions s)"
    by (auto simp: completeCapacityActionTx_def update_claimed_def Let_def f_def split: if_splits)
  then have "f a \<in> set (actions s')" using in_update_whereI[of a "actions s" ?p f] a by simp
  then show ?thesis using a(2) by (auto simp: db_closed_def f_def intro!: bexI[of _ "f a"])
qed

interpretation db_ledger: actuator_ledger "db_ledger uuid locked" db_ok db_holds db_life db_closed
  for uuid locked
proof
  show "db_ok s" if "db_holds c s" for c s using that by (rule db_holds_ok)
next
  fix s t owner lease r s'
  assume o: "db_ok s" and r: "lo_claim (db_ledger uuid locked) t owner lease s = Inr (r, s')"
  from o obtain C where C: "ledger_reachable (s, C)" by (auto simp: db_ok_def)
  have "ledger_step (s, C) (s', case r of None \<Rightarrow> C | Some c \<Rightarrow> c # C)"
    using r by (intro ledger_step.claim) (simp add: db_ledger_def)
  from ledger_reachable.step[OF C this]
  show "db_ok s' \<and> (\<forall>c. r = Some c \<longrightarrow> db_holds c s')"
    by (auto simp: db_ok_def db_holds_def split: option.splits intro: exI[of _ "c # C" for c])
next
  fix c s t lease u s'
  assume "db_holds c s" "lo_renew (db_ledger uuid locked) t c lease s = Inr (u, s')"
  then show "db_holds c s'"
    by (auto simp: db_ledger_def intro: db_holds_step[OF _ ledger_step.renew])
next
  fix c s t i s'
  assume h: "db_holds c s" and r: "lo_reserve (db_ledger uuid locked) t c s = Inr (i, s')"
  then have r': "ReserveCapacityInstance t (fst (uuid t)) (snd (uuid t)) c s = Inr (i, s')"
    by (simp add: db_ledger_def)
  have h': "db_holds c s'" by (rule db_holds_step[OF h]) (rule ledger_step.reserve[OF _ r'])
  then obtain C where "ledger_inv (s', C)" using ledger_reachable_inv by (auto simp: db_holds_def)
  moreover from r' have "validateCapacityActionFence t c s = Inr ()" "actions s' = actions s"
    by (auto simp: ReserveCapacityInstance_def bind_result_Inr insert_instance_def split: if_splits option.splits)
  moreover from this(1) obtain a where "a \<in> set (actions s)" "ca_id a = cc_id c" "open_action a"
    by (rule validate_fenceD)
  ultimately have "ci_state i = Provisioning"
    using open_creates reserve_evolves(2,3)[OF r'] by metis
  then show "db_holds c s' \<and> db_life s' (ci_id i) = Some Provisioning"
    using h' db_life_in[of s' i] reserve_evolves(2)[OF r'] by (auto simp: db_ok_def db_holds_def)
next
  fix c s t i ref attrs u s'
  assume "db_holds c s" "lo_record (db_ledger uuid locked) t c i ref attrs s = Inr (u, s')"
  then show "db_holds c s'"
    by (auto simp: db_ledger_def intro: db_holds_step[OF _ ledger_step.record_provisioned])
next
  fix c s t i b s'
  assume h: "db_holds c s" and "lo_confirm (db_ledger uuid locked) t c i s = Inr (b, s')"
  then have r: "ConfirmCapacityInstanceHeartbeat t c i s = Inr (b, s')" by (simp add: db_ledger_def)
  then have "b \<longrightarrow> db_closed c s'"
    by (auto simp: ConfirmCapacityInstanceHeartbeat_def bind_result_Inr dest: complete_closed split: if_splits)
  then show "db_holds c s' \<and> (b \<longrightarrow> db_closed c s')"
    using db_holds_step[OF h ledger_step.confirm[OF _ r]] by blast
next
  fix c s t sel s'
  assume h: "db_holds c s" and "lo_select (db_ledger uuid locked) t c s = Inr (sel, s')"
  then have r: "SelectCapacityInstanceForDrain t (locked t) c s = Inr (sel, s')" by (simp add: db_ledger_def)
  have h': "db_holds c s'" by (rule db_holds_step[OF h]) (rule ledger_step.select[OF _ r])
  have "db_life s' (ci_id i) = Some (ci_state i) \<and> (ci_state i = Draining \<or> ci_state i = Deleting)"
    if "sel = Some i" for i
  proof -
    from r that obtain j where j: "drain_target (locked t) c s = Some j" "i = drain_instance t c j"
      "instances s' = update_where (\<lambda>k. ci_id k = ci_id j) (drain_instance t c) (instances s)"
      by (auto simp: SelectCapacityInstanceForDrain_def bind_result_Inr split: if_splits option.splits)
    have "i \<in> set (instances s')"
      unfolding j(2,3) by (rule in_update_whereI[OF drain_targetD(1)[OF j(1)]]) simp
    from db_life_in[OF db_holds_ok[OF h'] this] show ?thesis unfolding j(2) by (simp add: drain_instance_def)
  qed
  with h' show "db_holds c s' \<and> (\<forall>i. sel = Some i \<longrightarrow>
      db_life s' (ci_id i) = Some (ci_state i) \<and> (ci_state i = Draining \<or> ci_state i = Deleting))" by blast
next
  fix c s t i b s'
  assume "db_holds c s" "lo_drained (db_ledger uuid locked) t c i s = Inr (b, s')"
  then show "db_holds c s'" by (auto simp: db_ledger_def CapacityInstanceDrained_def bind_result_Inr)
next
  fix c s t i u s'
  assume h: "db_holds c s" and "lo_begin (db_ledger uuid locked) t c i s = Inr (u, s')"
  then have r: "BeginCapacityInstanceDelete t c i s = Inr (u, s')" by (simp add: db_ledger_def)
  have h': "db_holds c s'" by (rule db_holds_step[OF h]) (rule ledger_step.begin_delete[OF _ r])
  from r have "update_owned c i Draining (\<lambda>r. r\<lparr>ci_state := Deleting\<rparr>) s = Inr s'"
    by (auto simp: BeginCapacityInstanceDelete_def bind_result_Inr split: if_splits)
  from update_owned_life[OF _ this] h' show "db_holds c s' \<and> db_life s' (ci_id i) = Some Deleting"
    by (auto simp: db_ok_def db_holds_def)
next
  fix c s t i u s'
  assume h: "db_holds c s" and "lo_complete (db_ledger uuid locked) t c i s = Inr (u, s')"
  then have r: "CompleteCapacityInstanceDelete t c i s = Inr (u, s')" by (simp add: db_ledger_def)
  then have "db_closed c s'"
    by (auto simp: CompleteCapacityInstanceDelete_def bind_result_Inr dest: complete_closed)
  then show "db_holds c s' \<and> db_closed c s'"
    using db_holds_step[OF h ledger_step.complete_delete[OF _ r]] by blast
next
  fix c s t detail u s'
  assume "db_holds c s" "lo_retry (db_ledger uuid locked) t c detail s = Inr (u, s')"
  then show "db_holds c s'"
    by (auto simp: db_ledger_def intro: db_holds_step[OF _ ledger_step.retry])
qed

text \<open>The scheduler's reconcile loop as the environment of an actuator.\<close>

definition reconcile_runtime ::
    "(string \<Rightarrow> string) \<Rightarrow> autoscale_policy \<Rightarrow> (actuator_error \<Rightarrow> string) \<Rightarrow> db runtime" where
  "reconcile_runtime fresh policy msg =
     \<lparr>rt_env = (\<lambda>t u s. committed (ReconcileAutoscaling u fresh policy s) s), rt_text = msg\<rparr>"

lemma reconcile_committed_step:
  "ledger_step (s, C) (committed (ReconcileAutoscaling u fresh policy s) s, C)"
proof (cases "ReconcileAutoscaling u fresh policy s")
  case (Inl e)
  then show ?thesis by (simp add: ledger_step.environment)
next
  case (Inr r)
  obtain v s' where "r = (v, s')" by (cases r) auto
  with Inr show ?thesis by (simp add: ledger_step.reconcile)
qed

interpretation reconciled: actuator "db_ledger uuid locked" db_ok db_holds db_life db_closed
    "reconcile_runtime fresh policy msg"
  for uuid locked fresh policy msg
proof
  fix s t u
  show "db_ok (rt_env (reconcile_runtime fresh policy msg) t u s)" if "db_ok s"
    using that ledger_reachable.step[OF _ reconcile_committed_step] unfolding reconcile_runtime_def db_ok_def
    by simp blast
  show "db_holds c (rt_env (reconcile_runtime fresh policy msg) t u s)" if "db_holds c s" for c
    using that ledger_reachable.step[OF _ reconcile_committed_step] unfolding reconcile_runtime_def db_holds_def
    by simp blast
qed

section \<open>Properties\<close>

lemma retry_backoff_bounds: "seconds 1 \<le> retry_backoff n \<and> retry_backoff n \<le> seconds 256"
proof -
  have "nat (min n 8) \<le> 8" by simp
  then have "(2 :: int) ^ nat (min n 8) \<le> 2 ^ 8" by (intro power_increasing) simp_all
  moreover have "(1 :: int) \<le> 2 ^ nat (min n 8)" by simp
  ultimately show ?thesis by (simp add: retry_backoff_def)
qed

text \<open>The environments considered: other processes take any number of ledger steps.\<close>

definition fair_environment :: "db runtime \<Rightarrow> bool" where
  "fair_environment rt \<longleftrightarrow> (\<forall>t u s C. ledger_reachable (s, C) \<longrightarrow>
     (\<exists>C'. set C \<subseteq> set C' \<and> ledger_reachable (rt_env rt t u s, C')))"

lemma fair_actuator:
  assumes "fair_environment rt"
  shows "actuator (db_ledger uuid locked) db_ok db_holds db_life db_closed rt"
proof (intro actuator.intro actuator_axioms.intro)
  show "actuator_ledger (db_ledger uuid locked) db_ok db_holds db_life db_closed"
    by (rule db_ledger.actuator_ledger_axioms)
  show "db_ok (rt_env rt t u s)" if "db_ok s" for s t u
    using assms that unfolding fair_environment_def db_ok_def by blast
  show "db_holds c (rt_env rt t u s)" if "db_holds c s" for c s t u
    using assms that unfolding fair_environment_def db_holds_def by blast
qed


definition example_world :: "db world" where
  "example_world = \<lparr>wo_now = seconds 5, wo_db = run4, wo_tick = 0, wo_deadline = 0, wo_failed = None, wo_log = []\<rparr>"

lemma reconcile_fair: "fair_environment (reconcile_runtime fresh policy msg)"
  unfolding fair_environment_def reconcile_runtime_def
  using ledger_reachable.step[OF _ reconcile_committed_step] by auto

definition example_config :: actuator_config where
  "example_config = \<lparr>cf_owner = ''act'', cf_lease = seconds 60, cf_poll = seconds 2, cf_limit = seconds 600,
     cf_idle = seconds 5\<rparr>"

definition example_provider :: provider where
  "example_provider = \<lparr>pv_provision = (\<lambda>t c i. (seconds 1, Inr (''ref'', []))), pv_delete = (\<lambda>t i. (seconds 1, Inr ()))\<rparr>"

definition example_providers :: "string \<Rightarrow> provider option" where
  "example_providers = [''pve'' \<mapsto> example_provider]"

definition example_ledger :: "db ledger_ops" where
  "example_ledger = db_ledger (\<lambda>t. (''i2'', ''t2'')) (\<lambda>t r. False)"

text \<open>An environment in which the executor of the new instance starts to send heartbeats.\<close>

definition example_executor :: "time \<Rightarrow> worker" where
  "example_executor t = \<lparr>w_id = ''w1'', w_name = ''w1'', w_active = True, w_role = ''phase-executor'',
     w_labels = [''capacity-instance:i1'', ''capacity-pool:p1''], w_pressure = None, w_protocol = 5,
     w_last_seen = Some t, w_generation = 1\<rparr>"

definition heartbeat_runtime :: "db runtime" where
  "heartbeat_runtime = \<lparr>rt_env = (\<lambda>t u s. s\<lparr>workers := [example_executor u]\<rparr>), rt_text = (\<lambda>e. ''failed'')\<rparr>"

lemma heartbeat_fair: "fair_environment heartbeat_runtime"
  unfolding fair_environment_def heartbeat_runtime_def
proof (simp, intro allI impI)
  fix u :: time and s C
  assume r: "ledger_reachable (s, C)"
  have "ledger_step (s, C) (s\<lparr>workers := [example_executor u]\<rparr>, C)" by (rule ledger_step.environment) simp_all
  with r show "\<exists>C'. set C \<subseteq> set C' \<and> ledger_reachable (s\<lparr>workers := [example_executor u]\<rparr>, C')"
    using ledger_reachable.step by blast
qed

text \<open>One round of this actuator: the retried action is claimed again, its instance provisioned and
  confirmed.\<close>

lemma elapse_before_tick:
  "t < wo_tick w \<Longrightarrow> elapse L cfg rt c t w = advance rt t w"
  by (subst elapse.simps) (simp add: Let_def)

lemma wait_ready_now:
  "ledger_call observe w = (Inr True, w1) \<Longrightarrow> wait L cfg rt c observe d w = (Inr (), w1)"
  by (subst wait.simps) simp

lemma trim_pve [simp]: "TrimSpace ''pve'' = ''pve''"
  by (simp add: TrimSpace_id printable_def)

definition example_world2 :: "db world" where
  "example_world2 = example_world\<lparr>wo_db := run5, wo_deadline := seconds 605, wo_tick := seconds 25, wo_failed := None\<rparr>"

definition example_db3 :: db where
  "example_db3 = run5\<lparr>workers := [example_executor (seconds 6)], instances := [run_instance\<lparr>ci_remote_ref := ''ref''\<rparr>]\<rparr>"

lemma example_reserve:
  "ReserveCapacityInstance (seconds 5) ''i2'' ''t2'' claim5 run5 = Inr (run_instance, run5)"
  by (simp add: ReserveCapacityInstance_def validateCapacityActionFence_def fence_current_def
      new_instance_def run_defs)

lemma example_record:
  "RecordCapacityInstanceProvisioned (seconds 6) claim5 run_instance ''ref'' [] (run5\<lparr>workers := [example_executor (seconds 6)]\<rparr>)
   = Inr ((), example_db3)"
  by (simp add: RecordCapacityInstanceProvisioned_def encodeCapacityAttributes_def json_map_def
      validateCapacityActionFence_def fence_current_def update_owned_def owned_row_def new_instance_def
      example_db3_def run_defs)

lemma example_confirm:
  "\<exists>s. ConfirmCapacityInstanceHeartbeat (seconds 6) claim5 run_instance example_db3 = Inr (True, s)"
  by (simp add: ConfirmCapacityInstanceHeartbeat_def validateCapacityActionFence_def fence_current_def
      heartbeat_worker_def worker_fresh_def has_label_def has_labels_def capacityInstanceLabel_def
      update_owned_def owned_row_def new_instance_def completeCapacityActionTx_def update_claimed_def
      example_db3_def example_executor_def run_defs Let_def)

lemma example_round:
  "\<exists>w'. RunOne example_ledger example_providers example_config heartbeat_runtime example_world = ((True, None), w') \<and>
     wo_log w' = [(ProvisionCall run_instance, run5)]"
proof -
  let ?w1 = "example_world\<lparr>wo_db := run5\<rparr>"
  have start: "?w1\<lparr>wo_deadline := wo_now ?w1 + cf_limit example_config,
      wo_tick := wo_now ?w1 + go_div (cf_lease example_config) 3, wo_failed := None\<rparr> = example_world2"
    by (simp add: example_world_def example_world2_def example_config_def seconds_def)
  let ?w3 = "example_world2\<lparr>wo_now := seconds 6, wo_db := run5\<lparr>workers := [example_executor (seconds 6)]\<rparr>,
      wo_log := [(ProvisionCall run_instance, run5)]\<rparr>"
  have res: "ledger_call (\<lambda>t. lo_reserve example_ledger t claim5) example_world2 = (Inr run_instance, example_world2)"
    by (simp add: ledger_call_def ctx_done_def example_world2_def example_world_def example_ledger_def db_ledger_def
        example_reserve)
  have prov: "provider_runs example_ledger example_config heartbeat_runtime claim5 (ProvisionCall run_instance) (seconds 1)
      example_world2 = ?w3"
  proof -
    have "seconds 5 + max 0 (seconds 1) = seconds 6" by (simp add: seconds_def)
    then show ?thesis
      by (simp add: provider_runs_def Let_def elapse_before_tick example_world2_def example_world_def advance_def
          heartbeat_runtime_def)
  qed
  have rec: "ledger_call (\<lambda>t. lo_record example_ledger t claim5 run_instance ''ref'' []) ?w3 = (Inr (), ?w3\<lparr>wo_db := example_db3\<rparr>)"
    by (simp add: ledger_call_def ctx_done_def example_world2_def example_world_def example_ledger_def db_ledger_def
        example_record)
  obtain s where "ConfirmCapacityInstanceHeartbeat (seconds 6) claim5 run_instance example_db3 = Inr (True, s)"
    using example_confirm by blast
  then have "ledger_call (\<lambda>t. lo_confirm example_ledger t claim5 run_instance) (?w3\<lparr>wo_db := example_db3\<rparr>) =
      (Inr True, ?w3\<lparr>wo_db := s\<rparr>)"
    by (simp add: ledger_call_def ctx_done_def example_world2_def example_world_def example_ledger_def db_ledger_def)
  note w = wait_ready_now[OF this]
  have up: "scaleUp example_ledger example_config heartbeat_runtime example_provider claim5 example_world2 = (Inr (), ?w3\<lparr>wo_db := s\<rparr>)"
    unfolding scaleUp_def res using prov rec w
    by (simp add: bind_outcome_def example_provider_def run_instance_def new_instance_def Let_def)
  have ex: "executeWithLease example_ledger example_config heartbeat_runtime example_provider claim5 ?w1 = (Inr (), ?w3\<lparr>wo_db := s\<rparr>)"
    unfolding executeWithLease_def start execute_def
    using up by (simp add: run_claim_def) (simp add: example_world2_def)
  have "lo_claim example_ledger (wo_now example_world) (cf_owner example_config) (cf_lease example_config) (wo_db example_world)
      = Inr (Some claim5, run5)"
    by (simp add: example_ledger_def db_ledger_def example_world_def example_config_def run5_op)
  moreover have "resolve example_providers (pd_provider (cc_pool claim5)) = Inr example_provider"
    by (simp add: resolve_def run_claim_def run_pool_def example_providers_def to_lower_def)
  ultimately show ?thesis using ex by (simp add: RunOne_def)
qed


text \<open>C24: \<^verbatim>\<open>RunOne\<close> reports success only when the action it claimed is completed in the ledger.\<close>

theorem actuator_success_completes:
  assumes "fair_environment rt" "ledger_reachable (wo_db w, C)" "wo_log w = []"
    and "RunOne (db_ledger uuid locked) providers cfg rt w = ((True, None), w')"
  shows "\<exists>c s a. ClaimCapacityAction (wo_now w) (locked (wo_now w)) (cf_owner cfg) (cf_lease cfg) (wo_db w) = Inr (Some c, s) \<and>
    a \<in> set (actions (wo_db w')) \<and> ca_id a = cc_id c \<and> ca_state a = Completed"
proof -
  have "db_ok (wo_db w)" "list_all (justified db_life) (wo_log w)" using assms(2,3) by (auto simp: db_ok_def)
  from actuator.RunOne_good[OF fair_actuator[OF assms(1)] this assms(4)] show ?thesis
    by (auto simp: db_ledger_def db_closed_def)
qed

theorem actuator_success_completes_witness:
  "\<exists>c s w' a. ClaimCapacityAction (seconds 5) (\<lambda>r. False) ''act'' (seconds 60) run4 = Inr (Some c, s) \<and>
     RunOne example_ledger example_providers example_config heartbeat_runtime example_world = ((True, None), w') \<and>
     a \<in> set (actions (wo_db w')) \<and> ca_id a = cc_id c \<and> ca_state a = Completed"
proof -
  obtain w' where w': "RunOne (db_ledger (\<lambda>t. (''i2'', ''t2'')) (\<lambda>t r. False)) example_providers example_config
      heartbeat_runtime example_world = ((True, None), w')"
    using example_round unfolding example_ledger_def by blast
  have "ledger_reachable (wo_db example_world, [claim2, claim1])" "wo_log example_world = []"
    using run_reachable(2) by (simp_all add: example_world_def)
  from actuator_success_completes[OF heartbeat_fair this w'] w' show ?thesis
    unfolding example_ledger_def by (auto simp: example_world_def example_config_def)
qed

text \<open>C25: When \<^verbatim>\<open>RunOne\<close> reports an error and the release of the claim succeeded, the claimed action is
  back in the queue without an owner, and its next attempt lies between one and 256 seconds ahead.\<close>

theorem actuator_failure_requeues:
  assumes "RunOne (db_ledger uuid locked) providers cfg rt w = ((True, Some e), w')"
    and "\<forall>e1 e2. e \<noteq> RetryFailed e1 e2"
  shows "\<exists>c s a. ClaimCapacityAction (wo_now w) (locked (wo_now w)) (cf_owner cfg) (cf_lease cfg) (wo_db w) = Inr (Some c, s) \<and>
    a \<in> set (actions (wo_db w')) \<and> ca_id a = cc_id c \<and> ca_state a = Requested \<and> ca_owner a = [] \<and>
    wo_now w' + seconds 1 \<le> ca_next_attempt a \<and> ca_next_attempt a \<le> wo_now w' + seconds 256"
proof -
  from assms obtain c s s0 where
    c: "ClaimCapacityAction (wo_now w) (locked (wo_now w)) (cf_owner cfg) (cf_lease cfg) (wo_db w) = Inr (Some c, s)"
    and r: "RetryCapacityAction (wo_now w') c (rt_text rt e) s0 = Inr ((), wo_db w')"
    by (auto simp: RunOne_def db_ledger_def split: sum.splits option.splits prod.splits)
  let ?p = "\<lambda>a. ca_id a = cc_id c \<and> fence_current (wo_now w') c a"
  define f where "f = (\<lambda>a :: capacity_action. a\<lparr>ca_state := Requested,
      ca_detail := truncate_bytes capacityActionMaxDetail (rt_text rt e), ca_owner := [], ca_lease := None,
      ca_next_attempt := wo_now w' + retry_backoff (ca_attempts a)\<rparr>)"
  obtain s1 where w': "wo_db w' = s1" by simp
  from r[unfolded w'] have n: "0 < count_where ?p (actions s0)" and s1: "actions (wo_db w') = update_where ?p f (actions s0)"
    unfolding w' by (auto simp: RetryCapacityAction_def update_claimed_def Let_def f_def bind_result_Inr split: if_splits)
  from n obtain a where a: "a \<in> set (actions s0)" "?p a" unfolding count_where_pos by blast
  have "f a \<in> set (actions (wo_db w'))" using in_update_whereI[OF a(1), of ?p f] a(2) by (simp add: s1)
  moreover have "seconds 1 \<le> retry_backoff (ca_attempts a)" "retry_backoff (ca_attempts a) \<le> seconds 256"
    using retry_backoff_bounds by auto
  ultimately show ?thesis using a(2) c by (intro exI[of _ c] exI[of _ s] exI[of _ "f a"]) (simp add: f_def)
qed

theorem actuator_failure_requeues_witness:
  "\<exists>c s w' a. ClaimCapacityAction (seconds 5) (\<lambda>r. False) ''act'' (seconds 60) run4 = Inr (Some c, s) \<and>
     a \<in> set (actions (wo_db w')) \<and> ca_id a = cc_id c \<and> ca_state a = Requested \<and>
     RunOne example_ledger Map.empty example_config heartbeat_runtime example_world = ((True, Some (ProviderUnknown ''pve'')), w')"
proof -
  have "lo_claim example_ledger (wo_now example_world) (cf_owner example_config) (cf_lease example_config) (wo_db example_world)
      = Inr (Some claim5, run5)"
    by (simp add: example_ledger_def db_ledger_def example_world_def example_config_def run5_op)
  moreover have "\<exists>s. RetryCapacityAction (seconds 5) claim5 ''failed'' run5 = Inr ((), s)"
    by (simp add: RetryCapacityAction_def update_claimed_def fence_current_def run_defs Let_def)
  ultimately have "\<exists>w'. RunOne example_ledger Map.empty example_config heartbeat_runtime example_world =
      ((True, Some (ProviderUnknown ''pve'')), w')"
    by (auto simp: RunOne_def resolve_def example_ledger_def db_ledger_def heartbeat_runtime_def example_world_def
        run_claim_def run_pool_def)
  then obtain w' where w': "RunOne (db_ledger (\<lambda>t. (''i2'', ''t2'')) (\<lambda>t r. False)) Map.empty example_config
      heartbeat_runtime example_world = ((True, Some (ProviderUnknown ''pve'')), w')"
    unfolding example_ledger_def by blast
  from actuator_failure_requeues[OF this] w' show ?thesis
    unfolding example_ledger_def by (auto simp: example_world_def example_config_def)
qed

lemma elapse_now_le: "wo_now (elapse L cfg rt c t w) \<le> t"
proof (induction L cfg rt c t w rule: elapse.induct)
  case (1 L cfg rt c target w)
  show ?case
    by (subst elapse.simps, use 1 in \<open>auto simp: Let_def advance_def split: sum.splits\<close>)
qed

text \<open>C26: Waiting always ends, for any ledger and environment: polling for a heartbeat or a drain returns
  no later than the deadline of the operation.\<close>

theorem wait_ends_by_deadline:
  assumes "wo_now w \<le> wo_deadline w" "wait L cfg rt c observe d w = (r, w')"
  shows "wo_now w' \<le> wo_deadline w"
  using assms
proof (induction "nat (wo_deadline w - wo_now w)" arbitrary: w rule: less_induct)
  case less
  obtain x w1 where x: "ledger_call observe w = (x, w1)" by (cases "ledger_call observe w") auto
  note k = ledger_call_keeps[OF x]
  let ?w2 = "elapse L cfg rt c (min (wo_now w1 + cf_poll cfg) (wo_deadline w1)) w1"
  have d2: "wo_deadline ?w2 = wo_deadline w" using elapse_keeps[of L cfg rt c _ w1] k by simp
  have n2: "wo_now ?w2 \<le> wo_deadline w"
    using elapse_now_le[of L cfg rt c "min (wo_now w1 + cf_poll cfg) (wo_deadline w1)" w1] k by simp
  consider (ended) "w' = w1" | (stopped) "w' = ?w2" |
    (again) "x = Inr False" "\<not> (cf_poll cfg \<le> 0 \<or> ctx_done ?w2)" "wait L cfg rt c observe d ?w2 = (r, w')"
    using less.prems(2) x
    by (subst (asm) wait.simps) (auto simp: Let_def split: sum.splits bool.splits if_splits)
  then show ?case
  proof cases
    case ended
    then show ?thesis using k less.prems(1) by simp
  next
    case stopped
    then show ?thesis using n2 by simp
  next
    case again
    have "nat (wo_deadline ?w2 - wo_now ?w2) < nat (wo_deadline w - wo_now w)"
      by (rule wait_decreases[where observe = observe, OF _ again(2) refl]) (simp add: x again(1))
    from less.hyps[OF this _ again(3)] n2 d2 show ?thesis by simp
  qed
qed

theorem wait_ends_by_deadline_witness:
  "wo_now (snd (wait example_ledger example_config heartbeat_runtime claim5
     (\<lambda>t s. Inr (False, s)) ''executor drain'' example_world2)) \<le> seconds 605"
  using wait_ends_by_deadline[of example_world2 example_ledger example_config heartbeat_runtime claim5
      "\<lambda>t s. Inr (False, s)" "''executor drain''", OF _ surjective_pairing]
  by (simp add: example_world2_def example_world_def)

end
