(* ===== verification/Usage_Budgets.thy ===== *)
theory Usage_Budgets
  imports Autoscale
begin

text \<open>
  \<^verbatim>\<open>src/internal/persistence/usage_budgets.go\<close>: the runtime and cloud-cost contract of a build request,
  the usage row of an attempt from its reservation to its settlement, and the failure-storm gate that
  suspends a project. Charges are made in started seconds and started minutes and never exceed what was
  reserved.
\<close>

section \<open>Error values of the job repository\<close>

text \<open>
  \<^verbatim>\<open>Missing\<close> is a \<^verbatim>\<open>QueryRow\<close> that returned no row, \<^verbatim>\<open>Admission\<close> a \<^verbatim>\<open>builder.AdmissionError\<close> with its code,
  limit, usage and retry delay, \<^verbatim>\<open>PhaseFull\<close> a \<^verbatim>\<open>builder.PhaseCapacityError\<close>, \<^verbatim>\<open>Conflict\<close> the
  idempotency conflict and \<^verbatim>\<open>Refused\<close> any other \<^verbatim>\<open>fmt.Errorf\<close>.
\<close>

datatype ledger_error =
    Missing string
  | Refused string
  | Conflict
  | Admission string int int duration
  | PhaseFull string int int
  | BadCapabilities capability_error

section \<open>Widths and dates\<close>

text \<open>Go's \<^verbatim>\<open>int64\<close> arithmetic wraps around; \<^verbatim>\<open>CEIL\<close> of a quotient and the UTC date of a point of time.\<close>

definition int64 :: "int \<Rightarrow> int" where
  "int64 x = (x + 2 ^ 63) mod 2 ^ 64 - 2 ^ 63"

definition ceil_div :: "int \<Rightarrow> int \<Rightarrow> int" where
  "ceil_div a b = - ((- a) div b)"

definition day_length :: duration where
  "day_length = seconds 86400"

definition utc_day :: "time \<Rightarrow> int" where
  "utc_day t = t div day_length"

lemma int64_id: "- (2 ^ 63) \<le> x \<Longrightarrow> x < 2 ^ 63 \<Longrightarrow> int64 x = x"
  by (simp add: int64_def)

lemma ceil_div_bounds:
  assumes "0 < b"
  shows "a \<le> b * ceil_div a b" "b * (ceil_div a b - 1) < a"
proof -
  define q r where "q = (- a) div b" and "r = (- a) mod b"
  have "b * q + r = - a" by (simp add: q_def r_def)
  moreover have "0 \<le> r" "r < b" using assms by (simp_all add: r_def)
  moreover have "ceil_div a b = - q" by (simp add: ceil_div_def q_def)
  ultimately show "a \<le> b * ceil_div a b" "b * (ceil_div a b - 1) < a"
    by (simp_all add: algebra_simps)
qed

section \<open>The runtime contract of a request\<close>

record runtime_budget =
  MaxRuntimeSeconds :: int
  CostPerMinute :: int
  ReservedCloudCost :: int

text \<open>Minutes and rate of the contract; requests without one use the compatibility class.\<close>

definition runtime_contract :: "build_request \<Rightarrow> int \<times> int" where
  "runtime_contract q =
     (case br_resolved q of
        None \<Rightarrow> (60, 1000)
      | Some r \<Rightarrow>
        if rc_max_runtime_minutes r \<noteq> 0 \<or> rc_cost_per_minute r \<noteq> 0
        then (rc_max_runtime_minutes r, rc_cost_per_minute r) else (60, 1000))"

definition runtimeBudgetSpecFromRequest ::
    "build_request option \<Rightarrow> (ledger_error, runtime_budget) result" where
  "runtimeBudgetSpecFromRequest request =
     (case request of
        None \<Rightarrow> Inl (Refused ''runtime accounting requires a build request'')
      | Some q \<Rightarrow>
        (case runtime_contract q of (minutes, rate) \<Rightarrow>
         if br_resolved q \<noteq> None \<and> (minutes \<le> 0 \<or> rate \<le> 0)
         then Inl (Refused ''no positive runtime/cost accounting contract'')
         else if minutes \<le> 0 \<or> minutes > 24 * 60 \<or> rate \<le> 0 \<or> rate > 1000000000000
         then Inl (Refused ''runtime/cost accounting contract is outside supported bounds'')
         else if rate > go_div (2 ^ 63 - 1) minutes
         then Inl (Refused ''runtime/cost accounting contract overflows'')
         else Inr \<lparr>MaxRuntimeSeconds = int64 (minutes * 60), CostPerMinute = rate,
                   ReservedCloudCost = int64 (minutes * rate)\<rparr>))"

section \<open>The usage row of an attempt\<close>

definition insertAttemptUsage ::
    "string \<Rightarrow> string \<Rightarrow> string \<Rightarrow> runtime_budget \<Rightarrow> time \<Rightarrow> db \<Rightarrow> db" where
  "insertAttemptUsage attempt project job spec startedAt s =
     s\<lparr>attempt_usage := attempt_usage s @
        [\<lparr>au_attempt = attempt, au_project = project, au_job = job, au_day = utc_day startedAt,
          au_max_runtime = MaxRuntimeSeconds spec, au_rate = CostPerMinute spec,
          au_reserved_seconds = MaxRuntimeSeconds spec, au_reserved_cost = ReservedCloudCost spec,
          au_charged_seconds = 0, au_charged_cost = 0, au_started = startedAt,
          au_cloud_started = None, au_active = True, au_settled_at = None, au_reason = []\<rparr>]\<rparr>"

definition markAttemptCloudStarted :: "string \<Rightarrow> time \<Rightarrow> db \<Rightarrow> db" where
  "markAttemptCloudStarted attempt startedAt s =
     s\<lparr>attempt_usage := update_where (\<lambda>u. au_attempt u = attempt \<and> au_active u)
        (\<lambda>u. u\<lparr>au_cloud_started :=
           Some (case au_cloud_started u of None \<Rightarrow> startedAt | Some t \<Rightarrow> t)\<rparr>)
        (attempt_usage s)\<rparr>"

text \<open>\<^verbatim>\<open>metering_started_at + make_interval(secs => max_runtime_seconds)\<close>: the end of the attempt's runtime.\<close>

definition runtime_end :: "attempt_usage \<Rightarrow> time" where
  "runtime_end u = au_started u + seconds (au_max_runtime u)"

definition charged_seconds :: "time \<Rightarrow> attempt_usage \<Rightarrow> int" where
  "charged_seconds settledAt u =
     min (au_reserved_seconds u) (max 1 (ceil_div (settledAt - au_started u) (seconds 1)))"

definition charged_cost :: "time \<Rightarrow> attempt_usage \<Rightarrow> int" where
  "charged_cost settledAt u =
     (case au_cloud_started u of
        None \<Rightarrow> 0
      | Some t \<Rightarrow> min (au_reserved_cost u)
                    (max 1 (ceil_div (settledAt - t) (seconds 60)) * au_rate u))"

definition settle_row :: "time \<Rightarrow> string \<Rightarrow> attempt_usage \<Rightarrow> attempt_usage" where
  "settle_row settledAt reason u =
     u\<lparr>au_charged_seconds := charged_seconds settledAt u,
       au_charged_cost := charged_cost settledAt u,
       au_active := False, au_settled_at := Some settledAt, au_reason := reason\<rparr>"

section \<open>The failure-storm gate\<close>

definition attempt_of_project :: "db \<Rightarrow> string \<Rightarrow> build_attempt \<Rightarrow> bool" where
  "attempt_of_project s project a =
     (case lookup_by bj_id (ba_job a) (build_jobs s) of
        None \<Rightarrow> False | Some j \<Rightarrow> bj_project j = project)"

definition recent_failure :: "time \<Rightarrow> build_attempt \<Rightarrow> bool" where
  "recent_failure now a =
     (ba_state a \<in> {''failed'', ''expired''} \<and>
      (case ba_finished_at a of None \<Rightarrow> False | Some t \<Rightarrow> now - seconds 3600 \<le> t \<and> t \<le> now))"

definition project_failures :: "time \<Rightarrow> string \<Rightarrow> db \<Rightarrow> nat" where
  "project_failures now project s =
     count_where (\<lambda>a. attempt_of_project s project a \<and> recent_failure now a) (build_attempts s)"

definition applyFailureStormSuspension ::
    "string \<Rightarrow> time \<Rightarrow> db \<Rightarrow> (ledger_error, db) result" where
  "applyFailureStormSuspension project now s =
     (case lookup_by pp_project project (project_policies s) of
        None \<Rightarrow> Inl (Missing ''lock project abuse policy'')
      | Some p \<Rightarrow>
        (let failures = int (project_failures now project s);
             until = now + seconds (pp_abuse_cooldown p) in
         if failures < pp_max_failures p then Inr s
         else Inr (s\<lparr>project_policies :=
                update_where (\<lambda>q. pp_project q = project)
                  (\<lambda>q. q\<lparr>pp_abuse_until :=
                         Some (case pp_abuse_until q of None \<Rightarrow> until | Some t \<Rightarrow> max t until),
                       pp_abuse_reason :=
                         show_int failures @ '' failed or expired attempts in the trailing hour'',
                       pp_abuse_generation := pp_abuse_generation q + 1\<rparr>)
                  (project_policies s),
              audit_events := audit_events s @ [(''project.abuse_suspended'', project)]\<rparr>)))"

section \<open>Settlement\<close>

definition wake_waiters :: "string \<Rightarrow> time \<Rightarrow> db \<Rightarrow> db" where
  "wake_waiters project at s =
     s\<lparr>build_jobs := update_where
        (\<lambda>j. bj_project j = project \<and> bj_state j = ''queued'' \<and> bj_cancel_requested_at j = None)
        (\<lambda>j. j\<lparr>bj_next_attempt_at := min (bj_next_attempt_at j) at\<rparr>) (build_jobs s)\<rparr>"

definition settleAttemptUsage ::
    "string \<Rightarrow> string \<Rightarrow> string \<Rightarrow> time \<Rightarrow> db \<Rightarrow> (ledger_error, db) result" where
  "settleAttemptUsage attempt reason terminalState settledAt s =
     (case find (\<lambda>u. au_attempt u = attempt \<and> au_active u) (attempt_usage s) of
        None \<Rightarrow> Inr s
      | Some u \<Rightarrow>
        (let settled = s\<lparr>attempt_usage :=
               update_where (\<lambda>v. au_attempt v = attempt \<and> au_active v) (settle_row settledAt reason)
                 (attempt_usage s)\<rparr>;
             woken = wake_waiters (au_project u) settledAt settled in
         if terminalState = ''failed'' \<or> terminalState = ''expired''
         then applyFailureStormSuspension (au_project u) settledAt woken
         else Inr woken))"

definition active_job_attempts :: "string \<Rightarrow> db \<Rightarrow> string list" where
  "active_job_attempts job s =
     map au_attempt
       (sort_key au_started (filter (\<lambda>u. au_job u = job \<and> au_active u) (attempt_usage s)))"

definition settleJobAttemptUsage ::
    "string \<Rightarrow> string \<Rightarrow> string \<Rightarrow> time \<Rightarrow> db \<Rightarrow> (ledger_error, db) result" where
  "settleJobAttemptUsage job reason terminalState settledAt s =
     fold_result (\<lambda>attempt. settleAttemptUsage attempt reason terminalState settledAt)
       (active_job_attempts job s) s"

section \<open>Lemmas\<close>

lemma go_div_pos: "0 \<le> a \<Longrightarrow> 0 < b \<Longrightarrow> go_div a b = a div b"
  by (cases "a = 0") (simp_all add: go_div_def)

lemma charged_seconds_bounds:
  assumes "0 < au_reserved_seconds u"
  shows "1 \<le> charged_seconds at u" "charged_seconds at u \<le> au_reserved_seconds u"
  using assms by (auto simp: charged_seconds_def)

lemma charged_cost_bounds:
  assumes "0 < au_reserved_cost u" "0 < au_rate u"
  shows "0 \<le> charged_cost at u" "charged_cost at u \<le> au_reserved_cost u"
  using assms by (auto simp: charged_cost_def split: option.splits)

lemma charged_seconds_exact:
  assumes "at \<le> au_started u + seconds (au_reserved_seconds u)" "au_started u < at"
  shows "at - au_started u \<le> seconds (charged_seconds at u)"
    "seconds (charged_seconds at u - 1) < at - au_started u"
proof -
  let ?d = "at - au_started u"
  let ?c = "ceil_div ?d (seconds 1)"
  have s1: "0 < seconds 1" by simp
  have b: "?d \<le> seconds 1 * ?c" "seconds 1 * (?c - 1) < ?d"
    using ceil_div_bounds[OF s1] by blast+
  then have "1 \<le> ?c" using assms(2) by (simp add: seconds_def)
  moreover have "?c \<le> au_reserved_seconds u" using b(2) assms(1) by (simp add: seconds_def)
  ultimately have "charged_seconds at u = ?c" by (simp add: charged_seconds_def)
  with b show "?d \<le> seconds (charged_seconds at u)" "seconds (charged_seconds at u - 1) < ?d"
    by (simp_all add: seconds_def)
qed

lemma settle_row_keys [simp]:
  "au_attempt (settle_row t r u) = au_attempt u" "au_project (settle_row t r u) = au_project u"
  "au_job (settle_row t r u) = au_job u" "\<not> au_active (settle_row t r u)"
  "au_reserved_seconds (settle_row t r u) = au_reserved_seconds u"
  "au_reserved_cost (settle_row t r u) = au_reserved_cost u"
  "au_charged_seconds (settle_row t r u) = charged_seconds t u"
  "au_charged_cost (settle_row t r u) = charged_cost t u"
  "au_day (settle_row t r u) = au_day u" "au_started (settle_row t r u) = au_started u"
  "au_max_runtime (settle_row t r u) = au_max_runtime u"
  by (simp_all add: settle_row_def)

text \<open>
  What a settlement leaves behind: the usage rows of the attempt settled, next attempt times of queued
  jobs, policies and the audit journal changed, everything else untouched.
\<close>

lemma storm_frame:
  assumes "applyFailureStormSuspension p now s = Inr t"
  shows "t\<lparr>project_policies := [], audit_events := []\<rparr> = s\<lparr>project_policies := [], audit_events := []\<rparr>"
  using assms by (auto simp: applyFailureStormSuspension_def Let_def split: option.splits if_splits)

lemma storm_fields:
  assumes "applyFailureStormSuspension p now s = Inr t"
  shows "attempt_usage t = attempt_usage s" "build_jobs t = build_jobs s"
  using arg_cong[OF storm_frame[OF assms], of attempt_usage]
    arg_cong[OF storm_frame[OF assms], of build_jobs] by simp_all

lemma settle_rows:
  assumes "settleAttemptUsage attempt reason st at s = Inr t"
  shows "attempt_usage t = update_where (\<lambda>v. au_attempt v = attempt \<and> au_active v)
           (settle_row at reason) (attempt_usage s)"
proof (cases "find (\<lambda>u. au_attempt u = attempt \<and> au_active u) (attempt_usage s)")
  case None
  then have "\<And>u. u \<in> set (attempt_usage s) \<Longrightarrow> \<not> (au_attempt u = attempt \<and> au_active u)"
    by (auto simp: find_None_iff)
  then show ?thesis using assms None by (simp add: settleAttemptUsage_def update_where_idle)
next
  case (Some u)
  then show ?thesis using assms
    by (auto simp: settleAttemptUsage_def wake_waiters_def Let_def split: if_splits dest!: storm_fields(1))
qed

lemma settle_jobs:
  assumes "settleAttemptUsage attempt reason st at s = Inr t"
  shows "map (\<lambda>j. j\<lparr>bj_next_attempt_at := 0\<rparr>) (build_jobs t) =
         map (\<lambda>j. j\<lparr>bj_next_attempt_at := 0\<rparr>) (build_jobs s)"
  using assms
  by (auto simp: settleAttemptUsage_def wake_waiters_def Let_def map_update_where
      split: if_splits option.splits dest!: storm_fields(2))

lemma settle_frame:
  assumes "settleAttemptUsage attempt reason st at s = Inr t"
  shows "t\<lparr>project_policies := [], audit_events := [], attempt_usage := [], build_jobs := []\<rparr> =
         s\<lparr>project_policies := [], audit_events := [], attempt_usage := [], build_jobs := []\<rparr>"
proof (cases "find (\<lambda>u. au_attempt u = attempt \<and> au_active u) (attempt_usage s)")
  case None
  with assms show ?thesis by (simp add: settleAttemptUsage_def)
next
  case (Some u)
  define w where "w = wake_waiters (au_project u) at (s\<lparr>attempt_usage :=
      update_where (\<lambda>v. au_attempt v = attempt \<and> au_active v) (settle_row at reason) (attempt_usage s)\<rparr>)"
  have "t\<lparr>project_policies := [], audit_events := []\<rparr> = w\<lparr>project_policies := [], audit_events := []\<rparr>"
    using assms Some storm_frame
    by (auto simp: settleAttemptUsage_def Let_def w_def[symmetric] split: if_splits)
  from arg_cong[OF this, of "\<lambda>x. x\<lparr>attempt_usage := [], build_jobs := []\<rparr>"]
  show ?thesis by (simp add: w_def wake_waiters_def)
qed

lemma settle_fields:
  assumes "settleAttemptUsage attempt reason st at s = Inr t"
  shows "workers t = workers s" "worker_leases t = worker_leases s"
    "build_attempts t = build_attempts s" "reservations t = reservations s"
    "phase_items t = phase_items s" "fairness t = fairness s"
    "artifact_generations t = artifact_generations s" "artifact_budgets t = artifact_budgets s"
    "expiry_counters t = expiry_counters s"
proof -
  note f = settle_frame[OF assms]
  show "workers t = workers s" using arg_cong[OF f, of workers] by simp
  show "worker_leases t = worker_leases s" using arg_cong[OF f, of worker_leases] by simp
  show "build_attempts t = build_attempts s" using arg_cong[OF f, of build_attempts] by simp
  show "reservations t = reservations s" using arg_cong[OF f, of reservations] by simp
  show "phase_items t = phase_items s" using arg_cong[OF f, of phase_items] by simp
  show "fairness t = fairness s" using arg_cong[OF f, of fairness] by simp
  show "artifact_generations t = artifact_generations s"
    using arg_cong[OF f, of artifact_generations] by simp
  show "artifact_budgets t = artifact_budgets s" using arg_cong[OF f, of artifact_budgets] by simp
  show "expiry_counters t = expiry_counters s" using arg_cong[OF f, of expiry_counters] by simp
qed

text \<open>Any job column but the next attempt time survives a settlement, row by row.\<close>

lemma settle_job_column:
  assumes "settleAttemptUsage attempt reason st at s = Inr t"
    and "\<And>j n. f (j\<lparr>bj_next_attempt_at := n\<rparr>) = f j"
  shows "map f (build_jobs t) = map f (build_jobs s)"
proof -
  have "map f (map (\<lambda>j. j\<lparr>bj_next_attempt_at := 0\<rparr>) (build_jobs t)) =
        map f (map (\<lambda>j. j\<lparr>bj_next_attempt_at := 0\<rparr>) (build_jobs s))"
    using settle_jobs[OF assms(1)] by simp
  then show ?thesis by (simp add: assms(2) comp_def)
qed

lemma wake_failures [simp]: "project_failures now p (wake_waiters q at s) = project_failures now p s"
proof -
  have "attempt_of_project (wake_waiters q at s) p a = attempt_of_project s p a" for a
    by (simp add: wake_waiters_def attempt_of_project_def lookup_by_update split: option.split)
  then show ?thesis by (simp add: project_failures_def wake_waiters_def)
qed

lemma settle_job_rows:
  assumes "settleJobAttemptUsage job reason st at s = Inr t"
    and "distinct (map au_attempt (attempt_usage s))"
  shows "attempt_usage t = update_where (\<lambda>v. au_job v = job \<and> au_active v)
           (settle_row at reason) (attempt_usage s)"
proof -
  have gen: "attempt_usage t = update_where (\<lambda>v. au_attempt v \<in> set xs \<and> au_active v)
      (settle_row at reason) (attempt_usage s)"
    if "fold_result (\<lambda>a. settleAttemptUsage a reason st at) xs s = Inr t" for xs s
    using that
  proof (induction xs arbitrary: s)
    case (Cons x xs)
    then obtain s' where s': "settleAttemptUsage x reason st at s = Inr s'"
      "fold_result (\<lambda>a. settleAttemptUsage a reason st at) xs s' = Inr t"
      by (auto simp: bind_result_Inr)
    show ?case unfolding Cons.IH[OF s'(2)] settle_rows[OF s'(1)]
      by (auto simp: update_where_def)
  qed (simp add: update_where_idle)
  have key: "au_attempt v \<in> set (active_job_attempts job s) \<and> au_active v \<longleftrightarrow> au_job v = job \<and> au_active v"
    if "v \<in> set (attempt_usage s)" for v
    using that distinct_key_eq[OF assms(2)] by (auto simp: active_job_attempts_def)
  show ?thesis unfolding gen[OF assms(1)[unfolded settleJobAttemptUsage_def]]
    by (rule update_where_cong) (simp_all add: key)
qed

section \<open>Properties\<close>

text \<open>C32: The runtime contract of a request is rejected or well-formed. An accepted contract runs for a
  whole number of minutes between one minute and a day, its reserved cost is exactly minutes times rate
  although the product is computed in 64-bit arithmetic, and the overflow rejection is never taken: the
  bounds checked before it exclude it.\<close>

theorem runtime_budget_bounds:
  "case runtimeBudgetSpecFromRequest request of
     Inl e \<Rightarrow> e \<noteq> Refused ''runtime/cost accounting contract overflows''
   | Inr spec \<Rightarrow>
       60 dvd MaxRuntimeSeconds spec \<and> 60 \<le> MaxRuntimeSeconds spec \<and> MaxRuntimeSeconds spec \<le> 86400 \<and>
       1 \<le> CostPerMinute spec \<and>
       ReservedCloudCost spec = MaxRuntimeSeconds spec div 60 * CostPerMinute spec \<and>
       1 \<le> ReservedCloudCost spec \<and> ReservedCloudCost spec \<le> 1440000000000000"
proof (cases request)
  case None
  then show ?thesis by (simp add: runtimeBudgetSpecFromRequest_def)
next
  case (Some q)
  have key: "\<not> rate > go_div (2 ^ 63 - 1) minutes \<and> int64 (minutes * 60) = minutes * 60 \<and>
      int64 (minutes * rate) = minutes * rate \<and> 1 \<le> minutes * rate \<and> minutes * rate \<le> 1440000000000000"
    if "0 < minutes" "minutes \<le> 24 * 60" "0 < rate" "rate \<le> 1000000000000" for minutes rate :: int
  proof -
    have le: "minutes * rate \<le> 1440 * 1000000000000" using that by (intro mult_mono) auto
    have pos: "1 \<le> minutes * rate" using that by (simp add: int_one_le_iff_zero_less)
    have "1000000000000 * minutes \<le> 2 ^ 63 - 1" using that by simp
    then have "1000000000000 \<le> (2 ^ 63 - 1) div minutes" 
      using zdiv_mono1[of "1000000000000 * minutes" "2 ^ 63 - 1" minutes] that(1) by simp
    then have "rate \<le> go_div (2 ^ 63 - 1) minutes" using that by (simp add: go_div_pos)
    then show ?thesis using le pos that by (simp add: int64_id)
  qed
  obtain minutes rate where mr: "runtime_contract q = (minutes, rate)" by fastforce
  show ?thesis
    using key[of minutes rate] by (auto simp: Some runtimeBudgetSpecFromRequest_def mr)
qed


definition example_usage :: attempt_usage where
  "example_usage = \<lparr>au_attempt = ''a1'', au_project = ''p'', au_job = ''j1'', au_day = 0, au_max_runtime = 3600,
     au_rate = 1000, au_reserved_seconds = 3600, au_reserved_cost = 60000, au_charged_seconds = 0,
     au_charged_cost = 0, au_started = 0, au_cloud_started = Some 0, au_active = True,
     au_settled_at = None, au_reason = []\<rparr>"

definition example_project :: project_policy where
  "example_project = \<lparr>pp_project = ''p'', pp_suspended = False, pp_abuse_until = None, pp_abuse_reason = [],
     pp_abuse_generation = 0, pp_max_active_jobs = 4, pp_max_queued_jobs = 8,
     pp_max_daily_submissions = 100, pp_max_vcpus = 16, pp_max_memory_mib = 65536, pp_max_disk_gib = 500,
     pp_max_claimed = 4, pp_max_provision = 2, pp_max_build = 2, pp_max_verify = 2, pp_max_publish = 2,
     pp_max_build_seconds = 86400, pp_max_cloud_cost = 1000000000, pp_max_failures = 1,
     pp_abuse_cooldown = 600, pp_weight = 100, pp_starvation = 300\<rparr>"


text \<open>C34: The failure-storm gate. When an attempt that failed or expired is settled, and the trailing hour
  holds at least the permitted number of failed or expired attempts of its project, the project is
  suspended for at least the cooldown from now on and an earlier suspension is never shortened;
  otherwise no policy changes.\<close>

theorem failure_storm_suspends:
  assumes "settleAttemptUsage attempt reason terminalState at s = Inr t"
    and "terminalState = ''failed'' \<or> terminalState = ''expired''"
    and "u \<in> set (attempt_usage s)" "au_attempt u = attempt" "au_active u"
    and "distinct (map au_attempt (attempt_usage s))"
    and "lookup_by pp_project (au_project u) (project_policies s) = Some p"
  shows "if int (project_failures at (au_project u) s) < pp_max_failures p
         then project_policies t = project_policies s
         else \<exists>q x. lookup_by pp_project (au_project u) (project_policies t) = Some q \<and>
                pp_abuse_until q = Some x \<and> at + seconds (pp_abuse_cooldown p) \<le> x \<and>
                (\<forall>y. pp_abuse_until p = Some y \<longrightarrow> y \<le> x)"
proof -
  have f: "find (\<lambda>v. au_attempt v = attempt \<and> au_active v) (attempt_usage s) = Some u"
  proof (cases "find (\<lambda>v. au_attempt v = attempt \<and> au_active v) (attempt_usage s)")
    case None
    then show ?thesis using assms(3-5) by (auto simp: find_None_iff)
  next
    case (Some v)
    then have "v \<in> set (attempt_usage s)" "au_attempt v = attempt" by (auto simp: find_Some_iff)
    then show ?thesis using distinct_key_eq[OF assms(6)] assms(3,4) Some by metis
  qed
  define w where "w = wake_waiters (au_project u) at (s\<lparr>attempt_usage :=
      update_where (\<lambda>v. au_attempt v = attempt \<and> au_active v) (settle_row at reason) (attempt_usage s)\<rparr>)"
  have t: "applyFailureStormSuspension (au_project u) at w = Inr t"
    using assms(1,2) f by (auto simp: settleAttemptUsage_def w_def)
  have w: "project_policies w = project_policies s"
    "project_failures at (au_project u) w = project_failures at (au_project u) s"
    by (simp_all add: w_def) (simp_all add: wake_waiters_def project_failures_def attempt_of_project_def)
  show ?thesis using t assms(7) w lookup_by_Some[OF assms(7)]
    by (auto simp: applyFailureStormSuspension_def lookup_by_update Let_def split: if_splits option.splits)
qed

definition example_status :: build_status where
  "example_status = \<lparr>bs_job = ''j1'', bs_project = ''p'', bs_requested_by = ''u'', bs_status = ''queued'',
     bs_error = [], bs_failed_stage = [], bs_created_at = 0, bs_updated_at = 0, bs_attempt = [],
     bs_fence = 0, bs_lease_owner = []\<rparr>"

definition example_job :: build_job where
  "example_job = \<lparr>bj_id = ''j1'', bj_project = ''p'', bj_requested_by = ''u'', bj_idempotency_key = None,
     bj_state = ''queued'', bj_priority = 0, bj_request = example_request, bj_request_digest = [],
     bj_snapshot = example_status, bj_status_digest = [], bj_max_attempts = 3, bj_next_attempt_at = 0,
     bj_created_at = 0, bj_updated_at = 0, bj_completed_at = None, bj_cancel_requested_at = None,
     bj_terminal_reason = [], bj_visible = True, bj_min_protocol = 5,
     bj_required = [''phase:build''], bj_revision = 1\<rparr>"

definition example_attempt :: build_attempt where
  "example_attempt = \<lparr>ba_id = ''a1'', ba_job = ''j1'', ba_no = 1, ba_state = ''claimed'', ba_worker = Some ''w'',
     ba_fence = 1, ba_failure_class = [], ba_failure_detail = [], ba_finished_at = None,
     ba_created_at = 0, ba_updated_at = 0\<rparr>"

theorem failure_storm_suspends_witness:
  "case settleAttemptUsage ''a1'' ''lease_expired'' ''expired'' (seconds 90)
      (empty_db\<lparr>attempt_usage := [example_usage], project_policies := [example_project],
        build_jobs := [example_job],
        build_attempts := [example_attempt\<lparr>ba_state := ''expired'', ba_finished_at := Some (seconds 90)\<rparr>]\<rparr>) of
     Inl _ \<Rightarrow> False
   | Inr t \<Rightarrow> \<exists>q x. lookup_by pp_project ''p'' (project_policies t) = Some q \<and>
       pp_abuse_until q = Some x \<and> seconds 90 + seconds 600 \<le> x"
proof -
  let ?s = "empty_db\<lparr>attempt_usage := [example_usage], project_policies := [example_project],
      build_jobs := [example_job],
      build_attempts := [example_attempt\<lparr>ba_state := ''expired'', ba_finished_at := Some (seconds 90)\<rparr>]\<rparr>"
  have n: "project_failures (seconds 90) ''p'' ?s = 1"
    by (simp add: project_failures_def attempt_of_project_def recent_failure_def example_job_def
        example_attempt_def seconds_def)
  obtain t where t: "settleAttemptUsage ''a1'' ''lease_expired'' ''expired'' (seconds 90) ?s = Inr t"
    by (cases "project_failures (seconds 90) ''p'' ?s = 0")
      (fastforce simp: settleAttemptUsage_def example_usage_def applyFailureStormSuspension_def
        wake_waiters_def example_project_def Let_def)+
  have "lookup_by pp_project (au_project example_usage) (project_policies ?s) = Some example_project"
    by (simp add: example_usage_def example_project_def)
  from failure_storm_suspends[OF t _ _ _ _ _ this] n
  show ?thesis unfolding t by (auto simp: example_usage_def example_project_def)
qed

end
