(* ===== verification/Fairness.thy ===== *)
theory Fairness
  imports Usage_Budgets
begin

text \<open>
  \<^verbatim>\<open>src/internal/persistence/fairness.go\<close>: which project is served next. Every project has a row with a
  virtual runtime per kind of work; a dispatch charges the project a virtual time inversely proportional
  to its weight, and among the projects with eligible work the one with the smallest virtual runtime is
  served, unless a project has waited longer than its starvation threshold. \<open>locked\<close> says which fairness
  rows another transaction holds (\<^verbatim>\<open>FOR UPDATE OF fairness SKIP LOCKED\<close>).
\<close>

section \<open>States\<close>

definition isLedgerTerminal :: "string \<Rightarrow> bool" where
  "isLedgerTerminal st = (st \<in> {''completed'', ''success'', ''failed'', ''canceled''})"

definition active_state :: "string \<Rightarrow> bool" where
  "active_state st = (st \<in> {''claimed'', ''provisioning'', ''forwarding'', ''deploying'', ''building'',
     ''collecting'', ''verifying'', ''signing'', ''publishing''})"

lemma active_not_queued [simp]: "active_state st \<Longrightarrow> st \<noteq> ''queued''"
  by (auto simp: active_state_def)

section \<open>Fairness rows\<close>

definition fairnessVRuntimeScale :: int where
  "fairnessVRuntimeScale = 1000"

definition max_or_0 :: "int list \<Rightarrow> int" where
  "max_or_0 xs = (case xs of [] \<Rightarrow> 0 | y # ys \<Rightarrow> fold max ys y)"

text \<open>\<^verbatim>\<open>INSERT ... SELECT ... ON CONFLICT DO NOTHING\<close>: a project without a row joins at the largest virtual
  runtime in the table, so it gets no credit for the time before it existed.\<close>

definition ensureProjectFairnessRows :: "db \<Rightarrow> db" where
  "ensureProjectFairnessRows s =
     s\<lparr>fairness := fairness s @
        map (\<lambda>p. \<lparr>sf_project = pp_project p,
               sf_admission_vruntime = max_or_0 (map sf_admission_vruntime (fairness s)),
               sf_phase_vruntime = max_or_0 (map sf_phase_vruntime (fairness s)),
               sf_admission_dispatches = 0, sf_phase_dispatches = 0,
               sf_admission_wait = 0, sf_phase_wait = 0\<rparr>)
          (filter (\<lambda>p. lookup_by sf_project (pp_project p) (fairness s) = None) (project_policies s))\<rparr>"

record fair_selection =
  fs_project :: string
  fs_weight :: int
  fs_threshold :: int
  fs_vruntime :: int
  fs_oldest :: time
  fs_starved :: bool

definition oldest :: "time list \<Rightarrow> time option" where
  "oldest xs = (case xs of [] \<Rightarrow> None | y # ys \<Rightarrow> Some (fold min ys y))"

definition fair_candidate ::
    "time \<Rightarrow> (fairness_row \<Rightarrow> int) \<Rightarrow> (string \<Rightarrow> time option) \<Rightarrow> db \<Rightarrow> fairness_row \<Rightarrow> fair_selection option" where
  "fair_candidate now vruntime oldest_at s f =
     (case (lookup_by pp_project (sf_project f) (project_policies s), oldest_at (sf_project f)) of
        (Some p, Some o1) \<Rightarrow>
          Some \<lparr>fs_project = sf_project f, fs_weight = pp_weight p, fs_threshold = pp_starvation p,
                fs_vruntime = vruntime f, fs_oldest = o1,
                fs_starved = (o1 \<le> now - seconds (pp_starvation p))\<rparr>
      | _ \<Rightarrow> None)"

text \<open>The \<^verbatim>\<open>ORDER BY\<close>: starved projects first and among them the longest waiting one, then the smallest
  virtual runtime, the oldest work and the project identifier.\<close>

definition fair_key :: "fair_selection \<Rightarrow> bool \<times> time \<times> int \<times> time \<times> string" where
  "fair_key c = (\<not> fs_starved c, if fs_starved c then fs_oldest c else 0,
                 fs_vruntime c, fs_oldest c, fs_project c)"

section \<open>Admission\<close>

definition policy_open :: "time \<Rightarrow> project_policy \<Rightarrow> bool" where
  "policy_open now p =
     (\<not> pp_suspended p \<and> (case pp_abuse_until p of None \<Rightarrow> True | Some t \<Rightarrow> t \<le> now))"

definition active_jobs :: "string \<Rightarrow> db \<Rightarrow> nat" where
  "active_jobs project s =
     count_where (\<lambda>j. bj_project j = project \<and> bj_visible j \<and> active_state (bj_state j)) (build_jobs s)"

definition admission_eligible :: "time \<Rightarrow> db \<Rightarrow> worker \<Rightarrow> build_job \<Rightarrow> bool" where
  "admission_eligible now s executor j =
     (bj_state j = ''queued'' \<and> bj_cancel_requested_at j = None \<and> bj_visible j \<and>
      bj_next_attempt_at j \<le> now \<and>
      (case lookup_by pp_project (bj_project j) (project_policies s) of
         None \<Rightarrow> False
       | Some p \<Rightarrow> policy_open now p \<and> int (active_jobs (bj_project j) s) < pp_max_active_jobs p) \<and>
      worker_serves now (bj_min_protocol j) (bj_required j) executor)"

definition oldest_admission :: "time \<Rightarrow> db \<Rightarrow> worker \<Rightarrow> string \<Rightarrow> time option" where
  "oldest_admission now s executor project =
     oldest (map bj_created_at
       (filter (\<lambda>j. bj_project j = project \<and> admission_eligible now s executor j) (build_jobs s)))"

definition admission_candidates :: "time \<Rightarrow> db \<Rightarrow> worker \<Rightarrow> fair_selection list" where
  "admission_candidates now s executor =
     List.map_filter (fair_candidate now sf_admission_vruntime (oldest_admission now s executor) s) (fairness s)"

definition selectFairAdmissionProject ::
    "(string \<Rightarrow> bool) \<Rightarrow> time \<Rightarrow> string \<Rightarrow> db \<Rightarrow> fair_selection option \<times> db" where
  "selectFairAdmissionProject locked now workerID s =
     (let s1 = ensureProjectFairnessRows s in
      (case lookup_by w_id workerID (workers s1) of
         None \<Rightarrow> None
       | Some executor \<Rightarrow>
           order_limit1 fair_key
             (filter (\<lambda>c. \<not> locked (fs_project c)) (admission_candidates now s1 executor)), s1))"

section \<open>Phases\<close>

definition phase_limit :: "project_policy \<Rightarrow> string \<Rightarrow> int option" where
  "phase_limit p phase =
     (if phase = ''claimed'' then Some (pp_max_claimed p)
      else if phase = ''provision'' then Some (pp_max_provision p)
      else if phase = ''build'' then Some (pp_max_build p)
      else if phase = ''verify'' then Some (pp_max_verify p)
      else if phase = ''publish'' then Some (pp_max_publish p)
      else None)"

definition phase_used :: "string \<Rightarrow> string \<Rightarrow> string \<Rightarrow> db \<Rightarrow> nat" where
  "phase_used project phase attempt s =
     count_where (\<lambda>r. rr_project r = project \<and> rr_active r \<and> rr_phase r = phase \<and> rr_attempt r \<noteq> attempt)
       (reservations s)"

definition active_reservation :: "string \<Rightarrow> db \<Rightarrow> reservation option" where
  "active_reservation attempt s = find (\<lambda>r. rr_attempt r = attempt \<and> rr_active r) (reservations s)"

definition active_usage :: "string \<Rightarrow> db \<Rightarrow> attempt_usage option" where
  "active_usage attempt s = find (\<lambda>u. au_attempt u = attempt \<and> au_active u) (attempt_usage s)"

text \<open>The joins and conditions \<^verbatim>\<open>selectFairPhaseProject\<close> and \<^verbatim>\<open>ClaimPhaseWork\<close> share: a ready item of an
  active plan whose attempt is live, fenced and within its runtime, served by the polling executor.\<close>

definition phase_servable :: "time \<Rightarrow> db \<Rightarrow> worker \<Rightarrow> string list \<Rightarrow> phase_item \<Rightarrow> bool" where
  "phase_servable now s executor phases w =
     (pi_state w = PReady \<and> pi_active w \<and> pi_available_at w \<le> now \<and>
      (phases = [] \<or> pi_phase w \<in> set phases) \<and>
      active_reservation (pi_attempt w) s \<noteq> None \<and>
      (case (lookup_by ba_id (pi_attempt w) (build_attempts s), lookup_by bj_id (pi_job w) (build_jobs s),
             active_usage (pi_attempt w) s, lookup_by wl_attempt (pi_attempt w) (worker_leases s)) of
         (Some a, Some j, Some u, Some l) \<Rightarrow>
           worker_serves now (bj_min_protocol j) (pi_required w) executor \<and>
           \<not> isLedgerTerminal (bj_state j) \<and> \<not> isLedgerTerminal (ba_state a) \<and>
           wl_fence l = ba_fence a \<and> wl_expires l > now \<and> runtime_end u > now
       | _ \<Rightarrow> False))"

definition phase_replay :: "db \<Rightarrow> phase_item \<Rightarrow> bool" where
  "phase_replay s w =
     (case active_reservation (pi_attempt w) s of None \<Rightarrow> False | Some r \<Rightarrow> rr_phase r = pi_phase w)"

definition phase_eligible :: "time \<Rightarrow> db \<Rightarrow> worker \<Rightarrow> string list \<Rightarrow> phase_item \<Rightarrow> bool" where
  "phase_eligible now s executor phases w =
     (phase_servable now s executor phases w \<and>
      (case lookup_by pp_project (pi_project w) (project_policies s) of
         None \<Rightarrow> False
       | Some p \<Rightarrow>
           phase_replay s w \<or>
           (case (if pi_phase w = ''claimed'' then None else phase_limit p (pi_phase w)) of
              None \<Rightarrow> False
            | Some limit \<Rightarrow> int (phase_used (pi_project w) (pi_phase w) (pi_attempt w) s) < limit)))"

definition ready_at :: "phase_item \<Rightarrow> time" where
  "ready_at w = (case pi_ready_since w of None \<Rightarrow> pi_available_at w | Some t \<Rightarrow> t)"

definition eligible_items :: "time \<Rightarrow> db \<Rightarrow> worker \<Rightarrow> string list \<Rightarrow> string \<Rightarrow> phase_item list" where
  "eligible_items now s executor phases project =
     filter (\<lambda>w. pi_project w = project \<and> phase_eligible now s executor phases w) (phase_items s)"

definition phase_candidates :: "time \<Rightarrow> db \<Rightarrow> worker \<Rightarrow> string list \<Rightarrow> fair_selection list" where
  "phase_candidates now s executor phases =
     List.map_filter (fair_candidate now sf_phase_vruntime
         (\<lambda>p. oldest (map ready_at (eligible_items now s executor phases p))) s) (fairness s)"

definition has_replay :: "time \<Rightarrow> db \<Rightarrow> worker \<Rightarrow> string list \<Rightarrow> string \<Rightarrow> bool" where
  "has_replay now s executor phases project =
     list_ex (phase_replay s) (eligible_items now s executor phases project)"

definition selectFairPhaseProject ::
    "(string \<Rightarrow> bool) \<Rightarrow> time \<Rightarrow> string \<Rightarrow> string list \<Rightarrow> db \<Rightarrow> fair_selection option \<times> db" where
  "selectFairPhaseProject locked now workerID phases s =
     (let s1 = ensureProjectFairnessRows s in
      (case lookup_by w_id workerID (workers s1) of
         None \<Rightarrow> None
       | Some executor \<Rightarrow>
           order_limit1 (\<lambda>c. (\<not> has_replay now s1 executor phases (fs_project c), fair_key c))
             (filter (\<lambda>c. \<not> locked (fs_project c)) (phase_candidates now s1 executor phases)), s1))"

section \<open>Charging a dispatch\<close>

definition dispatch_charge :: "int \<Rightarrow> int" where
  "dispatch_charge weight = max 1 ((fairnessVRuntimeScale + weight - 1) div weight)"

definition wait_seconds :: "time \<Rightarrow> time \<Rightarrow> int" where
  "wait_seconds now queuedAt = max 0 ((now - queuedAt) div seconds 1)"

definition recordFairDispatch ::
    "time \<Rightarrow> fair_selection \<Rightarrow> string \<Rightarrow> time \<Rightarrow> db \<Rightarrow> (ledger_error, (int \<times> int) \<times> db) result" where
  "recordFairDispatch now sel kind queuedAt s =
     (if kind \<noteq> ''admission'' \<and> kind \<noteq> ''phase'' then Inl (Refused ''unsupported fairness dispatch kind'')
      else case (lookup_by sf_project (fs_project sel) (fairness s),
                 lookup_by pp_project (fs_project sel) (project_policies s)) of
        (Some f, Some p) \<Rightarrow>
          (let charge = dispatch_charge (pp_weight p); waited = wait_seconds now queuedAt in
           if kind = ''admission''
           then Inr ((sf_admission_vruntime f + charge, waited),
             s\<lparr>fairness := update_where (\<lambda>g. sf_project g = fs_project sel)
                (\<lambda>g. g\<lparr>sf_admission_vruntime := sf_admission_vruntime g + charge,
                       sf_admission_dispatches := sf_admission_dispatches g + 1,
                       sf_admission_wait := waited\<rparr>) (fairness s)\<rparr>)
           else Inr ((sf_phase_vruntime f + charge, waited),
             s\<lparr>fairness := update_where (\<lambda>g. sf_project g = fs_project sel)
                (\<lambda>g. g\<lparr>sf_phase_vruntime := sf_phase_vruntime g + charge,
                       sf_phase_dispatches := sf_phase_dispatches g + 1,
                       sf_phase_wait := waited\<rparr>) (fairness s)\<rparr>))
      | _ \<Rightarrow> Inl (Missing ''record fairness dispatch''))"

section \<open>The operator view\<close>

record fairness_status =
  EligibleProjects :: int
  StarvedProjects :: int
  AdmissionDispatches :: int
  PhaseDispatches :: int
  MaxQueueWaitSeconds :: int

definition min_opt :: "time option \<Rightarrow> time option \<Rightarrow> time option" where
  "min_opt a b = (case (a, b) of (None, _) \<Rightarrow> b | (_, None) \<Rightarrow> a | (Some x, Some y) \<Rightarrow> Some (min x y))"

definition project_wait :: "db \<Rightarrow> string \<Rightarrow> time option" where
  "project_wait s project =
     min_opt
       (oldest (map bj_created_at
          (filter (\<lambda>j. bj_project j = project \<and> bj_state j = ''queued'' \<and> bj_visible j) (build_jobs s))))
       (oldest (map ready_at
          (filter (\<lambda>w. pi_project w = project \<and> pi_active w \<and> pi_state w = PReady) (phase_items s))))"

definition readFairnessRuntimeStatus :: "time \<Rightarrow> db \<Rightarrow> fairness_status" where
  "readFairnessRuntimeStatus now s =
     (let rows = List.map_filter (\<lambda>f. case lookup_by pp_project (sf_project f) (project_policies s) of
                    None \<Rightarrow> None
                  | Some p \<Rightarrow> if policy_open now p then Some (f, p, project_wait s (sf_project f)) else None)
                (fairness s) in
      \<lparr>EligibleProjects = int (count_where (\<lambda>(f, p, w). w \<noteq> None) rows),
       StarvedProjects = int (count_where (\<lambda>(f, p, w).
          case w of None \<Rightarrow> False | Some t \<Rightarrow> t \<le> now - seconds (pp_starvation p)) rows),
       AdmissionDispatches = sum_list (map (\<lambda>(f, _). sf_admission_dispatches f) rows),
       PhaseDispatches = sum_list (map (\<lambda>(f, _). sf_phase_dispatches f) rows),
       MaxQueueWaitSeconds = max (max_or_0 (map (\<lambda>(f, _). sf_admission_wait f) rows))
                                 (max_or_0 (map (\<lambda>(f, _). sf_phase_wait f) rows))\<rparr>)"

section \<open>Lemmas\<close>

lemma oldest_None [simp]: "oldest xs = None \<longleftrightarrow> xs = []"
  by (simp add: oldest_def split: list.splits)

lemma fold_min: "fold min ys y \<in> insert y (set ys) \<and> (\<forall>x \<in> insert y (set ys). fold min ys y \<le> x)"
  for y :: "'a::linorder"
proof (induction ys arbitrary: y)
  case (Cons z zs)
  show ?case using Cons[of "min z y"] by (auto simp: min_def split: if_splits)
qed simp

lemma oldest_Some: "oldest xs = Some m \<Longrightarrow> m \<in> set xs \<and> (\<forall>x \<in> set xs. m \<le> x)"
  using fold_min by (cases xs) (auto simp: oldest_def)

lemma set_map_filter: "y \<in> set (List.map_filter f xs) \<longleftrightarrow> (\<exists>x \<in> set xs. f x = Some y)"
  by (induction xs) (auto simp: List.map_filter_simps split: option.splits)

lemma fair_candidate_Some:
  assumes "fair_candidate now v old s f = Some c"
  obtains p t where "lookup_by pp_project (sf_project f) (project_policies s) = Some p"
    "old (sf_project f) = Some t" "fs_project c = sf_project f" "fs_vruntime c = v f" "fs_oldest c = t"
    "fs_starved c = (t \<le> now - seconds (pp_starvation p))" "fs_weight c = pp_weight p"
  using assms that by (auto simp: fair_candidate_def split: option.splits)

lemma fair_key_le:
  assumes "fair_key c \<le> fair_key d"
  shows "fs_starved d \<Longrightarrow> fs_starved c \<and> fs_oldest c \<le> fs_oldest d"
    and "\<not> fs_starved c \<Longrightarrow> fs_vruntime c \<le> fs_vruntime d"
  using assms by (auto simp: fair_key_def split: if_splits)

lemma dispatch_charge_bounds:
  assumes "1 \<le> w" "w \<le> 1000"
  shows "1 \<le> dispatch_charge w" "dispatch_charge w \<le> 1000" "1000 \<le> w * dispatch_charge w"
    "w * dispatch_charge w < 1000 + w"
proof -
  define q r where "q = (1000 + w - 1) div w" and "r = (1000 + w - 1) mod w"
  have eq: "w * q + r = 1000 + w - 1" unfolding q_def r_def by (rule mult_div_mod_eq)
  have r: "0 \<le> r" "r < w" using assms by (simp_all add: r_def)
  have "1 \<le> q"
  proof (rule ccontr)
    assume "\<not> 1 \<le> q"
    then have "w * q \<le> 0" using assms by (simp add: mult_nonneg_nonpos)
    with eq r show False by linarith
  qed
  then have c: "dispatch_charge w = q" by (simp add: dispatch_charge_def fairnessVRuntimeScale_def q_def)
  have "w * q < w * 1001 - r"
  proof -
    have "999 \<le> 999 * w" using assms by simp
    then show ?thesis using eq r by linarith
  qed
  then have "w * q < w * 1001" using r by linarith
  then have "q \<le> 1000" using assms by simp
  with \<open>1 \<le> q\<close> eq r show "1 \<le> dispatch_charge w" "dispatch_charge w \<le> 1000"
    "1000 \<le> w * dispatch_charge w" "w * dispatch_charge w < 1000 + w" unfolding c by linarith+
qed

lemma ensure_idle:
  assumes "\<And>p. p \<in> set (project_policies s) \<Longrightarrow> pp_project p \<in> sf_project ` set (fairness s)"
  shows "ensureProjectFairnessRows s = s"
proof -
  have "filter (\<lambda>p. lookup_by sf_project (pp_project p) (fairness s) = None) (project_policies s) = []"
    using assms by (auto simp: filter_empty_conv lookup_by_None)
  then show ?thesis by (simp add: ensureProjectFairnessRows_def)
qed

lemma ensure_covers:
  assumes "p \<in> set (project_policies s)"
  shows "pp_project p \<in> sf_project ` set (fairness (ensureProjectFairnessRows s))"
proof (cases "lookup_by sf_project (pp_project p) (fairness s)")
  case None
  then show ?thesis using assms by (auto simp: ensureProjectFairnessRows_def image_Un image_image)
next
  case (Some f)
  then have "f \<in> set (fairness (ensureProjectFairnessRows s))" "pp_project p = sf_project f"
    by (auto simp: ensureProjectFairnessRows_def dest: lookup_by_Some)
  then show ?thesis by simp
qed

lemma ensure_fields [simp]:
  "project_policies (ensureProjectFairnessRows s) = project_policies s"
  "build_jobs (ensureProjectFairnessRows s) = build_jobs s"
  "workers (ensureProjectFairnessRows s) = workers s"
  "build_attempts (ensureProjectFairnessRows s) = build_attempts s"
  "reservations (ensureProjectFairnessRows s) = reservations s"
  "attempt_usage (ensureProjectFairnessRows s) = attempt_usage s"
  "worker_leases (ensureProjectFairnessRows s) = worker_leases s"
  "phase_items (ensureProjectFairnessRows s) = phase_items s"
  "expiry_counters (ensureProjectFairnessRows s) = expiry_counters s"
  by (simp_all add: ensureProjectFairnessRows_def)

lemma admission_eligible_cong:
  assumes "project_policies t = project_policies s" "build_jobs t = build_jobs s"
  shows "admission_eligible now t w j = admission_eligible now s w j"
  by (simp add: admission_eligible_def active_jobs_def assms split: option.split)

lemma record_dispatch_rows:
  assumes "recordFairDispatch now sel kind q s = Inr (r, t)"
  shows "\<exists>fs. t = s\<lparr>fairness := fs\<rparr>"
  using assms by (auto simp: recordFairDispatch_def Let_def split: if_splits option.splits)

lemma admission_dispatch_rows:
  assumes "recordFairDispatch now sel ''admission'' q s = Inr (r, t)"
    and "lookup_by pp_project (fs_project sel) (project_policies s) = Some p"
  shows "fairness t = update_where (\<lambda>g. sf_project g = fs_project sel)
      (\<lambda>g. g\<lparr>sf_admission_vruntime := sf_admission_vruntime g + dispatch_charge (pp_weight p),
             sf_admission_dispatches := sf_admission_dispatches g + 1,
             sf_admission_wait := wait_seconds now q\<rparr>) (fairness s)"
  using assms by (auto simp: recordFairDispatch_def Let_def split: option.splits)

lemma record_dispatch_fields:
  assumes "recordFairDispatch now sel kind q s = Inr (r, t)"
  shows "workers t = workers s" "worker_leases t = worker_leases s" "build_jobs t = build_jobs s"
    "build_attempts t = build_attempts s" "reservations t = reservations s"
    "attempt_usage t = attempt_usage s" "phase_items t = phase_items s"
    "project_policies t = project_policies s" "expiry_counters t = expiry_counters s"
  using record_dispatch_rows[OF assms] by auto

section \<open>Properties\<close>

text \<open>C35: Admission selection. If some queued job is eligible for the polling worker and its project's
  fairness row is not held by another replica, a project is selected. The selected project itself has an
  eligible job, a project starved for longer is never passed over, and when the selected project is not
  starved no candidate has a smaller virtual runtime.\<close>

theorem fair_admission_selection:
  assumes "lookup_by w_id workerID (workers s) = Some executor"
    and "j \<in> set (build_jobs s)" "admission_eligible now s executor j" "\<not> locked (bj_project j)"
  shows "case selectFairAdmissionProject locked now workerID s of
      (None, _) \<Rightarrow> False
    | (Some sel, t) \<Rightarrow>
        \<not> locked (fs_project sel) \<and>
        (\<exists>k \<in> set (build_jobs s). bj_project k = fs_project sel \<and> admission_eligible now s executor k) \<and>
        (\<forall>c \<in> set (admission_candidates now t executor). \<not> locked (fs_project c) \<longrightarrow>
           (fs_starved c \<longrightarrow> fs_starved sel \<and> fs_oldest sel \<le> fs_oldest c) \<and>
           (\<not> fs_starved sel \<longrightarrow> fs_vruntime sel \<le> fs_vruntime c))"
proof -
  let ?t = "ensureProjectFairnessRows s"
  let ?cs = "filter (\<lambda>c. \<not> locked (fs_project c)) (admission_candidates now ?t executor)"
  have el: "admission_eligible now ?t executor k = admission_eligible now s executor k" for k
    by (rule admission_eligible_cong) simp_all
  obtain p where p: "p \<in> set (project_policies s)" "pp_project p = bj_project j"
    "lookup_by pp_project (bj_project j) (project_policies s) = Some p"
    using assms(3) by (auto simp: admission_eligible_def split: option.splits dest: lookup_by_Some)
  obtain f where f: "f \<in> set (fairness ?t)" "sf_project f = bj_project j"
    using ensure_covers[OF p(1)] p(2) by (auto simp: image_iff)
  obtain t where "oldest_admission now ?t executor (bj_project j) = Some t"
  proof (cases "oldest_admission now ?t executor (bj_project j)")
    case None
    then show ?thesis using assms(2,3) el by (auto simp: oldest_admission_def filter_empty_conv)
  qed auto
  then obtain c where "fair_candidate now sf_admission_vruntime (oldest_admission now ?t executor) ?t f = Some c"
    "fs_project c = bj_project j"
    using f(2) p(3) by (auto simp: fair_candidate_def)
  then have "c \<in> set ?cs" using f(1) assms(4) by (auto simp: admission_candidates_def set_map_filter)
  then obtain sel where sel: "order_limit1 fair_key ?cs = Some sel" by (meson order_limit1_ex)
  have "sel \<in> set ?cs" by (rule order_limit1_in[OF sel])
  then obtain g where "fair_candidate now sf_admission_vruntime (oldest_admission now ?t executor) ?t g = Some sel"
    and nl: "\<not> locked (fs_project sel)"
    by (auto simp: admission_candidates_def set_map_filter)
  then obtain u where "oldest_admission now ?t executor (fs_project sel) = Some u"
    by (metis fair_candidate_Some)
  then have "\<exists>k \<in> set (build_jobs s). bj_project k = fs_project sel \<and> admission_eligible now s executor k"
    using el by (auto simp: oldest_admission_def dest!: oldest_Some)
  moreover have "fair_key sel \<le> fair_key d"
    if "d \<in> set (admission_candidates now ?t executor)" "\<not> locked (fs_project d)" for d
    using order_limit1_min[OF sel, of d] that by simp
  ultimately show ?thesis
    using sel assms(1) nl fair_key_le by (simp add: selectFairAdmissionProject_def Let_def) blast
qed

text \<open>
  A backlogged run: at every dispatch all projects have eligible work, none is starved and no row is
  held. Between two dispatches anything but the fairness rows may change, as long as the weights stay.
\<close>

definition backlogged :: "(string \<Rightarrow> int) \<Rightarrow> time \<Rightarrow> worker \<Rightarrow> db \<Rightarrow> bool" where
  "backlogged weight now executor s =
     ((\<forall>p \<in> set (project_policies s). pp_weight p = weight (pp_project p) \<and>
         pp_project p \<in> sf_project ` set (fairness s)) \<and>
      (\<forall>f \<in> set (fairness s). \<exists>c \<in> set (admission_candidates now s executor). fs_project c = sf_project f) \<and>
      (\<forall>c \<in> set (admission_candidates now s executor). \<not> fs_starved c))"

inductive fair_run :: "(string \<Rightarrow> int) \<Rightarrow> db \<Rightarrow> bool" for weight where
  start: "\<lbrakk>distinct (map sf_project (fairness s));
           \<And>f. f \<in> set (fairness s) \<Longrightarrow> sf_admission_vruntime f = 0 \<and> sf_admission_dispatches f = 0\<rbrakk>
          \<Longrightarrow> fair_run weight s"
| dispatch: "\<lbrakk>fair_run weight s; fairness s' = fairness s;
           lookup_by w_id workerID (workers s') = Some executor; backlogged weight now executor s';
           selectFairAdmissionProject (\<lambda>_. False) now workerID s' = (Some sel, s1);
           recordFairDispatch now sel ''admission'' queuedAt s1 = Inr (r, t)\<rbrakk>
          \<Longrightarrow> fair_run weight t"

definition fair_inv :: "(string \<Rightarrow> int) \<Rightarrow> fairness_row list \<Rightarrow> bool" where
  "fair_inv weight fs =
     (distinct (map sf_project fs) \<and>
      (\<forall>f \<in> set fs. sf_admission_vruntime f =
         sf_admission_dispatches f * dispatch_charge (weight (sf_project f))) \<and>
      (\<forall>f \<in> set fs. \<forall>g \<in> set fs. sf_admission_vruntime f - sf_admission_vruntime g \<le> 1000))"

lemma candidate_row:
  assumes "c \<in> set (admission_candidates now s executor)"
  obtains f where "f \<in> set (fairness s)" "fs_project c = sf_project f"
    "fs_vruntime c = sf_admission_vruntime f"
  using assms that by (auto simp: admission_candidates_def set_map_filter elim!: fair_candidate_Some)

lemma fair_inv_charge:
  assumes inv: "fair_inv weight fs" and row: "f0 \<in> set fs" "sf_project f0 = p"
    and min: "\<And>f. f \<in> set fs \<Longrightarrow> sf_admission_vruntime f0 \<le> sf_admission_vruntime f"
    and c: "c = dispatch_charge (weight p)" "0 \<le> c" "c \<le> 1000"
  shows "fair_inv weight (update_where (\<lambda>g. sf_project g = p)
      (\<lambda>g. g\<lparr>sf_admission_vruntime := sf_admission_vruntime g + c,
             sf_admission_dispatches := sf_admission_dispatches g + 1, sf_admission_wait := wt\<rparr>) fs)"
    (is "fair_inv weight (update_where ?P ?F fs)")
proof -
  have dist: "distinct (map sf_project fs)" using inv by (simp add: fair_inv_def)
  have uniq: "g = f0" if "g \<in> set fs" "?P g" for g
    using distinct_key_eq[OF dist that(1) row(1)] that(2) row(2) by simp
  have set: "g \<in> set fs \<and> g \<noteq> f0 \<or> g = ?F f0" if "g \<in> set (update_where ?P ?F fs)" for g
    using that
  proof (rule in_update_whereE)
    assume "g \<in> set fs" "sf_project g \<noteq> p"
    then show ?thesis using row(2) by blast
  next
    fix q assume q: "q \<in> set fs" "sf_project q = p" and g: "g = ?F q"
    show ?thesis unfolding g uniq[OF q] by blast
  qed
  have "sf_admission_vruntime g = sf_admission_dispatches g * dispatch_charge (weight (sf_project g))"
    if "g \<in> set (update_where ?P ?F fs)" for g
  proof -
    have old: "sf_admission_vruntime x = sf_admission_dispatches x * dispatch_charge (weight (sf_project x))"
      if "x \<in> set fs" for x using inv that by (simp add: fair_inv_def)
    from set[OF that] show ?thesis
    proof (elim disjE conjE)
      assume "g = ?F f0"
      then show ?thesis using old[OF row(1)] row(2) c(1) by (simp add: algebra_simps)
    qed (rule old)
  qed
  moreover have "sf_admission_vruntime g - sf_admission_vruntime h \<le> 1000"
    if "g \<in> set (update_where ?P ?F fs)" "h \<in> set (update_where ?P ?F fs)" for g h
  proof -
    have "sf_admission_vruntime x - sf_admission_vruntime y \<le> 1000" if "x \<in> set fs" "y \<in> set fs" for x y
      using inv that unfolding fair_inv_def by blast
    note sp = this
    have "sf_admission_vruntime (?F f0) = sf_admission_vruntime f0 + c" by simp
    from set[OF that(1)] show ?thesis
    proof (elim disjE conjE)
      assume g: "g \<in> set fs"
      from set[OF that(2)] show ?thesis
      proof (elim disjE conjE)
        assume "h \<in> set fs"
        then show ?thesis by (rule sp[OF g])
      next
        assume "h = ?F f0"
        then show ?thesis using sp[OF g row(1)] c(2) by simp
      qed
    next
      assume g: "g = ?F f0"
      from set[OF that(2)] show ?thesis
      proof (elim disjE conjE)
        assume "h \<in> set fs"
        from min[OF this] show ?thesis using g c(3) by simp
      qed (simp add: g)
    qed
  qed
  moreover have "distinct (map sf_project (update_where ?P ?F fs))"
    using dist by (simp add: map_update_where)
  ultimately show ?thesis by (simp add: fair_inv_def)
qed

lemma fair_run_inv:
  assumes "fair_run weight s" and "\<And>p. 1 \<le> weight p \<and> weight p \<le> 1000"
  shows "fair_inv weight (fairness s)"
  using assms(1)
proof induction
  case (start s)
  then show ?case by (auto simp: fair_inv_def)
next
  case (dispatch s s' workerID executor now sel s1 queuedAt r t)
  have s1: "s1 = s'"
    using dispatch.hyps(4,5) ensure_idle[of s']
    by (auto simp: selectFairAdmissionProject_def Let_def backlogged_def)
  have sel: "order_limit1 fair_key (admission_candidates now s' executor) = Some sel"
    using dispatch.hyps(3,5) s1 by (auto simp: selectFairAdmissionProject_def Let_def ensure_fields)
  note selin = order_limit1_in[OF sel]
  from selin obtain f0 where f0: "f0 \<in> set (fairness s')" "fs_project sel = sf_project f0"
    "fs_vruntime sel = sf_admission_vruntime f0" by (rule candidate_row)
  have inv: "fair_inv weight (fairness s')" using dispatch.IH dispatch.hyps(2) by simp
  have dist: "distinct (map sf_project (fairness s'))" using inv by (simp add: fair_inv_def)
  have min: "sf_admission_vruntime f0 \<le> sf_admission_vruntime f" if fin: "f \<in> set (fairness s')" for f
  proof -
    obtain c where c: "c \<in> set (admission_candidates now s' executor)" "fs_project c = sf_project f"
      using dispatch.hyps(4) fin unfolding backlogged_def by blast
    obtain g where g: "g \<in> set (fairness s')" "fs_project c = sf_project g"
      "fs_vruntime c = sf_admission_vruntime g" by (rule candidate_row[OF c(1)])
    have "g = f" using distinct_key_eq[OF dist g(1) fin] g(2) c(2) by simp
    moreover have "\<not> fs_starved sel" using selin dispatch.hyps(4) by (auto simp: backlogged_def)
    ultimately show ?thesis
      using fair_key_le(2)[OF order_limit1_min[OF sel c(1)]] g(3) f0(3) by simp
  qed
  obtain p where p: "lookup_by pp_project (fs_project sel) (project_policies s') = Some p"
    using dispatch.hyps(6) s1 by (auto simp: recordFairDispatch_def split: option.splits)
  then have w: "pp_weight p = weight (sf_project f0)"
    using dispatch.hyps(4) f0(2) by (auto simp: backlogged_def dest!: lookup_by_Some)
  have rows: "fairness t = update_where (\<lambda>g. sf_project g = sf_project f0)
      (\<lambda>g. g\<lparr>sf_admission_vruntime := sf_admission_vruntime g + dispatch_charge (weight (sf_project f0)),
             sf_admission_dispatches := sf_admission_dispatches g + 1,
             sf_admission_wait := wait_seconds now queuedAt\<rparr>) (fairness s')"
    using admission_dispatch_rows[OF dispatch.hyps(6)[unfolded s1] p] w f0(2) by simp
  show ?case unfolding rows
    using fair_inv_charge[OF inv f0(1) refl min refl] dispatch_charge_bounds[of "weight (sf_project f0)"]
      assms(2)[of "sf_project f0"] by simp
qed


definition example_row :: "string \<Rightarrow> fairness_row" where
  "example_row p = \<lparr>sf_project = p, sf_admission_vruntime = 0, sf_phase_vruntime = 0,
     sf_admission_dispatches = 0, sf_phase_dispatches = 0, sf_admission_wait = 0, sf_phase_wait = 0\<rparr>"

definition example_queue :: db where
  "example_queue = empty_db\<lparr>workers := [example_worker],
     project_policies := [example_project, example_project\<lparr>pp_project := ''q'', pp_weight := 50\<rparr>],
     fairness := [example_row ''p'', example_row ''q''],
     build_jobs := [example_job, example_job\<lparr>bj_id := ''j2'', bj_project := ''q''\<rparr>]\<rparr>"

definition example_weight :: "string \<Rightarrow> int" where
  "example_weight p = (if p = ''q'' then 50 else 100)"

theorem fair_admission_selection_witness:
  "case selectFairAdmissionProject (\<lambda>p. p = ''p'') 0 ''w'' example_queue of
     (None, _) \<Rightarrow> False | (Some sel, _) \<Rightarrow> fs_project sel = ''q''"
proof -
  have 1: "lookup_by w_id ''w'' (workers example_queue) = Some example_worker" by code_simp
  have 2: "example_job\<lparr>bj_id := ''j2'', bj_project := ''q''\<rparr> \<in> set (build_jobs example_queue)"
    by (simp add: example_queue_def)
  have 3: "admission_eligible 0 example_queue example_worker (example_job\<lparr>bj_id := ''j2'', bj_project := ''q''\<rparr>)"
    by code_simp
  have q: "fs_project sel = ''q''" if "fs_project sel \<noteq> ''p''"
    "\<exists>k \<in> set (build_jobs example_queue). bj_project k = fs_project sel" for sel
    using that by (auto simp: example_queue_def example_job_def)
  from fair_admission_selection[where locked = "\<lambda>p. p = ''p''", OF 1 2 3] show ?thesis
    by (auto simp: example_job_def split: prod.splits option.splits intro!: q)
qed


end
