(* ===== verification/Claims_Spec.thy ===== *)
theory Claims_Spec
  imports Fairness
begin

text \<open>
  What the job ledger promises, without its tables: the contract of claims. A claim gives one attempt of a
  queued job a lease; a lease is renewed up to the end of the attempt's runtime; while it lasts the job can
  advance; closing a job drops its leases. The plan contract is the same for the phases of an attempt.
  Both are refined by the statements of the persistence layer.
\<close>

section \<open>Refinement\<close>

text \<open>A step relation that simulates a specification whose steps keep an invariant.\<close>

locale refinement =
  fixes abs :: "'s \<Rightarrow> 'a"
    and step :: "'s \<Rightarrow> 's \<Rightarrow> bool"
    and spec :: "'a \<Rightarrow> 'a \<Rightarrow> bool"
    and ok :: "'a \<Rightarrow> bool"
  assumes spec_ok: "spec a b \<Longrightarrow> ok a \<Longrightarrow> ok b"
    and simulates: "step s t \<Longrightarrow> ok (abs s) \<Longrightarrow> spec\<^sup>*\<^sup>* (abs s) (abs t)"
begin

lemma specs_ok: "spec\<^sup>*\<^sup>* a b \<Longrightarrow> ok a \<Longrightarrow> ok b"
  by (induction rule: rtranclp_induct) (auto intro: spec_ok)

lemma reachable_ok:
  assumes "step\<^sup>*\<^sup>* s t" "ok (abs s)"
  shows "ok (abs t)"
  using assms by (induction rule: rtranclp_induct) (auto intro: specs_ok dest: simulates)

lemma reachable_simulates:
  assumes "step\<^sup>*\<^sup>* s t" "ok (abs s)"
  shows "spec\<^sup>*\<^sup>* (abs s) (abs t)"
  using assms
proof (induction rule: rtranclp_induct)
  case (step t u)
  then have "ok (abs t)" using reachable_ok by blast
  with step show ?case using simulates[of t u] by (auto intro: rtranclp_trans)
qed simp

end

section \<open>Claims\<close>

record lease =
  le_id :: string
  le_attempt :: string
  le_fence :: int
  le_expires :: time

record claims =
  cl_jobs :: "(string \<times> string) list"
  cl_attempts :: "(string \<times> string \<times> int) list"
  cl_ends :: "(string \<times> time) list"
  cl_leases :: "lease list"

definition set_state :: "string \<Rightarrow> string \<Rightarrow> (string \<times> string) list \<Rightarrow> (string \<times> string) list" where
  "set_state job st = update_where (\<lambda>j. fst j = job) (\<lambda>j. (fst j, st))"

definition held_job :: "claims \<Rightarrow> lease \<Rightarrow> string \<Rightarrow> bool" where
  "held_job c l job = (\<exists>f. (le_attempt l, job, f) \<in> set (cl_attempts c))"

definition running_state :: "string \<Rightarrow> bool" where
  "running_state st = (st \<noteq> ''queued'' \<and> \<not> isLedgerTerminal st)"

inductive claim_step :: "claims \<Rightarrow> claims \<Rightarrow> bool" where
  submit: "job \<notin> fst ` set (cl_jobs c) \<Longrightarrow> claim_step c (c\<lparr>cl_jobs := cl_jobs c @ [(job, st)]\<rparr>)"
| attempt: "a \<notin> fst ` set (cl_attempts c) \<Longrightarrow> \<forall>l \<in> set (cl_leases c). \<not> held_job c l job \<Longrightarrow>
    claim_step c (c\<lparr>cl_attempts := cl_attempts c @ [(a, job, f)]\<rparr>)"
| claim: "(job, ''queued'') \<in> set (cl_jobs c) \<Longrightarrow> a \<notin> fst ` set (cl_attempts c) \<Longrightarrow>
    a \<notin> fst ` set (cl_ends c) \<Longrightarrow> le_id l \<notin> le_id ` set (cl_leases c) \<Longrightarrow> le_attempt l = a \<Longrightarrow>
    le_fence l = f \<Longrightarrow> le_expires l \<le> fin \<Longrightarrow>
    claim_step c (c\<lparr>cl_jobs := set_state job ''claimed'' (cl_jobs c),
      cl_attempts := cl_attempts c @ [(a, job, f)], cl_ends := cl_ends c @ [(a, fin)],
      cl_leases := cl_leases c @ [l]\<rparr>)"
| advance: "l \<in> set (cl_leases c) \<Longrightarrow> held_job c l job \<Longrightarrow> running_state st \<Longrightarrow>
    claim_step c (c\<lparr>cl_jobs := set_state job st (cl_jobs c)\<rparr>)"
| renew: "(\<And>l. l \<in> set (cl_leases c) \<Longrightarrow> p l \<Longrightarrow> \<exists>fin. (le_attempt l, fin) \<in> set (cl_ends c) \<and> g l \<le> fin) \<Longrightarrow>
    claim_step c (c\<lparr>cl_leases := update_where p (\<lambda>l. l\<lparr>le_expires := g l\<rparr>) (cl_leases c)\<rparr>)"
| close: "(\<And>l. l \<in> set (cl_leases c) \<Longrightarrow> keep l \<Longrightarrow> \<not> held_job c l job) \<Longrightarrow>
    claim_step c (c\<lparr>cl_jobs := set_state job st (cl_jobs c), cl_leases := filter keep (cl_leases c)\<rparr>)"

text \<open>Every lease belongs to one attempt with its fence, whose job is running and has no other lease, and
  ends within the attempt's runtime.\<close>

definition lease_ok :: "claims \<Rightarrow> lease \<Rightarrow> bool" where
  "lease_ok c l =
     (\<exists>job fin st. (le_attempt l, job, le_fence l) \<in> set (cl_attempts c) \<and> (job, st) \<in> set (cl_jobs c) \<and>
        running_state st \<and> (le_attempt l, fin) \<in> set (cl_ends c) \<and> le_expires l \<le> fin)"

definition claims_ok :: "claims \<Rightarrow> bool" where
  "claims_ok c =
     (distinct (map fst (cl_jobs c)) \<and> distinct (map fst (cl_attempts c)) \<and> distinct (map fst (cl_ends c)) \<and>
      distinct (map le_id (cl_leases c)) \<and> list_all (lease_ok c) (cl_leases c) \<and>
      (\<forall>l \<in> set (cl_leases c). \<forall>m \<in> set (cl_leases c). \<forall>job. held_job c l job \<longrightarrow> held_job c m job \<longrightarrow> l = m))"

lemma map_fst_set_state [simp]: "map fst (set_state job st js) = map fst js"
  by (simp add: set_state_def map_update_where)

lemma set_state_other: "(j, st) \<in> set js \<Longrightarrow> j \<noteq> job \<Longrightarrow> (j, st) \<in> set (set_state job st' js)"
  unfolding set_state_def by (rule in_update_where_keep) auto

lemma set_state_same: "(job, st) \<in> set js \<Longrightarrow> (job, st') \<in> set (set_state job st' js)"
  unfolding set_state_def using in_update_whereI[of "(job, st)" js "\<lambda>j. fst j = job" "\<lambda>j. (fst j, st')"] by simp

lemma set_state_running:
  assumes "(j, st) \<in> set js" "running_state st" "running_state st'"
  shows "\<exists>st''. (j, st'') \<in> set (set_state job st' js) \<and> running_state st''"
  using assms set_state_other[of j st js job st'] set_state_same[of j st js st'] by (cases "j = job") blast+

lemma held_unique:
  assumes "distinct (map fst (cl_attempts c))" "held_job c l j" "held_job c l k"
  shows "j = k"
  using assms unfolding held_job_def by (auto dest: eq_key_imp_eq_value)

lemma lease_ok_held:
  assumes "distinct (map fst (cl_attempts c))" "lease_ok c l" "held_job c l job"
  obtains st where "(job, st) \<in> set (cl_jobs c)" "running_state st"
proof -
  from assms(2) obtain k f st where k: "(le_attempt l, k, f) \<in> set (cl_attempts c)" "(k, st) \<in> set (cl_jobs c)"
    "running_state st" unfolding lease_ok_def by blast
  then have "k = job" using held_unique[OF assms(1) _ assms(3)] by (auto simp: held_job_def)
  with k show thesis using that by simp
qed

lemma queued_not_held:
  assumes "claims_ok c" "(job, st) \<in> set (cl_jobs c)" "\<not> running_state st" "l \<in> set (cl_leases c)"
  shows "\<not> held_job c l job"
proof
  assume "held_job c l job"
  moreover have "lease_ok c l" using assms by (auto simp: claims_ok_def list_all_iff)
  ultimately obtain st' where "(job, st') \<in> set (cl_jobs c)" "running_state st'"
    using lease_ok_held assms(1) unfolding claims_ok_def by metis
  then show False using assms(1-3) unfolding claims_ok_def by (auto dest: eq_key_imp_eq_value)
qed

text \<open>A lease stays good when the attempts and ends only grow and its job keeps running.\<close>

lemma lease_ok_mono:
  assumes "lease_ok c l" "set (cl_attempts c) \<subseteq> set (cl_attempts d)" "set (cl_ends c) \<subseteq> set (cl_ends d)"
    and "\<And>job st. held_job c l job \<Longrightarrow> (job, st) \<in> set (cl_jobs c) \<Longrightarrow> running_state st \<Longrightarrow>
       \<exists>st'. (job, st') \<in> set (cl_jobs d) \<and> running_state st'"
  shows "lease_ok d l"
proof -
  from assms(1) obtain job fin st where l: "(le_attempt l, job, le_fence l) \<in> set (cl_attempts c)"
    "(job, st) \<in> set (cl_jobs c)" "running_state st" "(le_attempt l, fin) \<in> set (cl_ends c)" "le_expires l \<le> fin"
    unfolding lease_ok_def by blast
  moreover from l obtain st' where "(job, st') \<in> set (cl_jobs d)" "running_state st'"
    using assms(4)[of job st] unfolding held_job_def by blast
  ultimately show ?thesis using assms(2,3) unfolding lease_ok_def by blast
qed

lemma claims_okI:
  assumes "distinct (map fst (cl_jobs c))" "distinct (map fst (cl_attempts c))" "distinct (map fst (cl_ends c))"
    "distinct (map le_id (cl_leases c))" "\<And>l. l \<in> set (cl_leases c) \<Longrightarrow> lease_ok c l"
    "\<And>l m job. l \<in> set (cl_leases c) \<Longrightarrow> m \<in> set (cl_leases c) \<Longrightarrow> held_job c l job \<Longrightarrow> held_job c m job \<Longrightarrow> l = m"
  shows "claims_ok c"
  using assms unfolding claims_ok_def list_all_iff by blast

lemma claims_okD:
  assumes "claims_ok c"
  shows "distinct (map fst (cl_jobs c))" "distinct (map fst (cl_attempts c))" "distinct (map fst (cl_ends c))"
    "distinct (map le_id (cl_leases c))" "\<And>l. l \<in> set (cl_leases c) \<Longrightarrow> lease_ok c l"
    "\<And>l m job. l \<in> set (cl_leases c) \<Longrightarrow> m \<in> set (cl_leases c) \<Longrightarrow> held_job c l job \<Longrightarrow> held_job c m job \<Longrightarrow> l = m"
  using assms unfolding claims_ok_def list_all_iff by blast+

lemma lease_attempt_known: "claims_ok c \<Longrightarrow> l \<in> set (cl_leases c) \<Longrightarrow> le_attempt l \<in> fst ` set (cl_attempts c)"
  using claims_okD(5)[of c l] unfolding lease_ok_def by force

lemma claim_ok:
  assumes ok: "claims_ok c" and q: "(job, ''queued'') \<in> set (cl_jobs c)" and fresh: "a \<notin> fst ` set (cl_attempts c)"
    "a \<notin> fst ` set (cl_ends c)" "le_id l \<notin> le_id ` set (cl_leases c)"
    and l: "le_attempt l = a" "le_fence l = f" "le_expires l \<le> fin"
  shows "claims_ok (c\<lparr>cl_jobs := set_state job ''claimed'' (cl_jobs c),
      cl_attempts := cl_attempts c @ [(a, job, f)], cl_ends := cl_ends c @ [(a, fin)],
      cl_leases := cl_leases c @ [l]\<rparr>)" (is "claims_ok ?d")
proof (rule claims_okI)
  have run: "running_state ''claimed''" by (simp add: running_state_def isLedgerTerminal_def)
  have free: "\<not> held_job c m job" if "m \<in> set (cl_leases c)" for m
    using queued_not_held[OF ok q _ that] by (simp add: running_state_def)
  have held: "held_job ?d m k \<longleftrightarrow> held_job c m k" if "m \<in> set (cl_leases c)" for m k
    using lease_attempt_known[OF ok that] fresh(1) unfolding held_job_def by auto
  have new: "held_job ?d l k \<longleftrightarrow> k = job" for k using fresh(1) l(1) unfolding held_job_def by (force simp: image_iff)
  show "lease_ok ?d m" if "m \<in> set (cl_leases ?d)" for m
  proof (cases "m = l")
    case True
    then show ?thesis unfolding lease_ok_def using l set_state_same[OF q, of "''claimed''"] run by auto
  next
    case False
    with that have m: "m \<in> set (cl_leases c)" by simp
    show ?thesis
      by (rule lease_ok_mono[OF claims_okD(5)[OF ok m]]) (auto intro: set_state_running run)
  qed
  show "m = n" if "m \<in> set (cl_leases ?d)" "n \<in> set (cl_leases ?d)" "held_job ?d m k" "held_job ?d n k" for m n k
    using that free held new claims_okD(6)[OF ok, of m n k] by auto
qed (use claims_okD(1-4)[OF ok] fresh in simp_all)

lemma claim_step_ok:
  assumes "claim_step c d" "claims_ok c"
  shows "claims_ok d"
  using assms
proof (induction rule: claim_step.induct)
  case (submit job c st)
  note ok = claims_okD[OF submit.prems]
  let ?d = "c\<lparr>cl_jobs := cl_jobs c @ [(job, st)]\<rparr>"
  show ?case
  proof (rule claims_okI)
    show "lease_ok ?d l" if "l \<in> set (cl_leases ?d)" for l
      using that by (intro lease_ok_mono[OF ok(5)]) auto
    show "l = m" if "l \<in> set (cl_leases ?d)" "m \<in> set (cl_leases ?d)" "held_job ?d l k" "held_job ?d m k" for l m k
      using that ok(6)[of l m k] by (simp add: held_job_def)
  qed (use ok(1-4) submit.hyps in simp_all)
next
  case (attempt a c job f)
  note ok = claims_okD[OF attempt.prems]
  let ?d = "c\<lparr>cl_attempts := cl_attempts c @ [(a, job, f)]\<rparr>"
  have held: "held_job ?d m k \<longleftrightarrow> held_job c m k"
    if "m \<in> set (cl_leases c)" for m k
    using lease_attempt_known[OF attempt.prems that] attempt.hyps(1) unfolding held_job_def by auto
  show ?case
  proof (rule claims_okI)
    show "lease_ok ?d l" if "l \<in> set (cl_leases ?d)" for l
      using that by (intro lease_ok_mono[OF ok(5)]) auto
    show "l = m" if "l \<in> set (cl_leases ?d)" "m \<in> set (cl_leases ?d)" "held_job ?d l k" "held_job ?d m k" for l m k
      using that ok(6)[of l m k] held by simp
  qed (use ok(1-4) attempt.hyps in simp_all)
next
  case (claim job c a l f fin)
  then show ?case by (intro claim_ok)
next
  case (advance l c job st)
  note ok = claims_okD[OF advance.prems]
  let ?d = "c\<lparr>cl_jobs := set_state job st (cl_jobs c)\<rparr>"
  show ?case
  proof (rule claims_okI)
    show "lease_ok ?d m" if "m \<in> set (cl_leases ?d)" for m
      using that by (intro lease_ok_mono[OF ok(5)]) (auto intro: set_state_running advance.hyps(3))
    show "l = m" if "l \<in> set (cl_leases ?d)" "m \<in> set (cl_leases ?d)" "held_job ?d l k" "held_job ?d m k" for l m k
      using that ok(6)[of l m k] by (simp add: held_job_def)
  qed (use ok(1-4) in simp_all)
next
  case (renew c p g)
  note ok = claims_okD[OF renew.prems]
  let ?d = "c\<lparr>cl_leases := update_where p (\<lambda>l. l\<lparr>le_expires := g l\<rparr>) (cl_leases c)\<rparr>"
  show ?case
  proof (rule claims_okI)
    show "lease_ok ?d l" if "l \<in> set (cl_leases ?d)" for l
    proof -
      from that obtain m where m: "m \<in> set (cl_leases c)" "l = (if p m then m\<lparr>le_expires := g m\<rparr> else m)"
        by (auto simp: set_update_where)
      show ?thesis
      proof (cases "p m")
        case True
        with renew.hyps[OF m(1)] ok(5)[OF m(1)] show ?thesis unfolding m(2) lease_ok_def by auto
      next
        case False
        with ok(5)[OF m(1)] show ?thesis unfolding m(2) lease_ok_def by auto
      qed
    qed
    show "l = m" if "l \<in> set (cl_leases ?d)" "m \<in> set (cl_leases ?d)" "held_job ?d l j" "held_job ?d m j" for l m j
    proof -
      from that(1,2) obtain l' m' where l: "l' \<in> set (cl_leases c)" "l = (if p l' then l'\<lparr>le_expires := g l'\<rparr> else l')"
        and m: "m' \<in> set (cl_leases c)" "m = (if p m' then m'\<lparr>le_expires := g m'\<rparr> else m')"
        by (auto simp: set_update_where)
      have "held_job c l' j" "held_job c m' j" using that(3,4) unfolding l(2) m(2) held_job_def by (auto split: if_splits)
      then have "l' = m'" using ok(6)[OF l(1) m(1)] by blast
      then show ?thesis unfolding l(2) m(2) by simp
    qed
  qed (use ok(1-4) in \<open>simp_all add: map_update_where\<close>)
next
  case (close c keep job st)
  note ok = claims_okD[OF close.prems]
  let ?d = "c\<lparr>cl_jobs := set_state job st (cl_jobs c), cl_leases := filter keep (cl_leases c)\<rparr>"
  show ?case
  proof (rule claims_okI)
    show "lease_ok ?d m" if "m \<in> set (cl_leases ?d)" for m
    proof (rule lease_ok_mono[OF ok(5)])
      show "\<exists>st'. (k, st') \<in> set (cl_jobs ?d) \<and> running_state st'"
        if "held_job c m k" "(k, st0) \<in> set (cl_jobs c)" "running_state st0" for k st0
        using that set_state_other[OF that(2), of job st] close.hyps[of m] \<open>m \<in> set (cl_leases ?d)\<close> by auto
    qed (use that in simp_all)
    show "l = m" if "l \<in> set (cl_leases ?d)" "m \<in> set (cl_leases ?d)" "held_job ?d l k" "held_job ?d m k" for l m k
      using that ok(6)[of l m k] by (simp add: held_job_def)
  qed (use ok(1-4) in \<open>simp_all add: distinct_map_filter\<close>)
qed

text \<open>Two leases of one job are one lease.\<close>

lemma claims_exclusive:
  assumes "claims_ok c" "l \<in> set (cl_leases c)" "m \<in> set (cl_leases c)" "held_job c l job" "held_job c m job"
  shows "l = m"
  using assms claims_okD(6) by blast

end
