(* ===== verification/Plan_Spec.thy ===== *)
theory Plan_Spec
  imports Claims_Spec
begin

text \<open>
  What the phase plans promise, without lease times and worker selection: the rows of
  \<^verbatim>\<open>phase_work_items\<close> reduced to what their \<^verbatim>\<open>CHECK\<close> constraints and the order of phases speak about, and
  one step for every kind of statement that writes them. The invariant is the table's constraints, unique
  phases per attempt, and that a phase starts only after every earlier phase of its attempt completed.
\<close>

section \<open>Rows and steps\<close>

record plan_row =
  pr_id :: string
  pr_job :: string
  pr_attempt :: string
  pr_phase :: string
  pr_sequence :: int
  pr_state :: phase_state
  pr_owner :: string
  pr_fence :: int
  pr_leased :: bool
  pr_started :: bool
  pr_finished :: bool

definition plan_open :: "phase_state \<Rightarrow> bool" where
  "plan_open st = (st \<in> {PBlocked, PReady, PClaimed})"

definition new_row :: "string \<Rightarrow> string \<Rightarrow> string \<Rightarrow> string \<Rightarrow> int \<Rightarrow> phase_state \<Rightarrow> plan_row" where
  "new_row i job attempt phase sequence st =
     \<lparr>pr_id = i, pr_job = job, pr_attempt = attempt, pr_phase = phase, pr_sequence = sequence, pr_state = st,
      pr_owner = [], pr_fence = 0, pr_leased = False, pr_started = False, pr_finished = False\<rparr>"

definition new_plan :: "string list \<Rightarrow> string \<Rightarrow> string \<Rightarrow> plan_row list" where
  "new_plan ids job attempt =
     [new_row (ids ! 0) job attempt ''provision'' 10 PReady, new_row (ids ! 1) job attempt ''build'' 20 PBlocked,
      new_row (ids ! 2) job attempt ''verify'' 30 PBlocked, new_row (ids ! 3) job attempt ''publish'' 40 PBlocked]"

definition lost_row :: "plan_row \<Rightarrow> plan_row" where
  "lost_row r = r\<lparr>pr_state := PReady, pr_owner := [], pr_leased := False\<rparr>"

definition taken_row :: "string \<Rightarrow> plan_row \<Rightarrow> plan_row" where
  "taken_row owner r =
     r\<lparr>pr_state := PClaimed, pr_owner := owner, pr_fence := pr_fence r + 1, pr_leased := True, pr_started := True\<rparr>"

definition ended_row :: "phase_state \<Rightarrow> plan_row \<Rightarrow> plan_row" where
  "ended_row st r = r\<lparr>pr_state := st, pr_leased := False, pr_finished := True\<rparr>"

definition offered_row :: "plan_row \<Rightarrow> plan_row" where
  "offered_row r = r\<lparr>pr_state := PReady\<rparr>"

definition after_row :: "string \<Rightarrow> int \<Rightarrow> plan_row \<Rightarrow> bool" where
  "after_row attempt sequence r = (pr_attempt r = attempt \<and> pr_sequence r > sequence)"

definition next_blocked :: "string \<Rightarrow> int \<Rightarrow> plan_row list \<Rightarrow> plan_row \<Rightarrow> bool" where
  "next_blocked attempt sequence rows r =
     (after_row attempt sequence r \<and> pr_state r = PBlocked \<and>
      list_all (\<lambda>v. after_row attempt sequence v \<and> pr_state v = PBlocked \<longrightarrow> pr_sequence r \<le> pr_sequence v) rows)"

inductive plan_step :: "plan_row list \<Rightarrow> plan_row list \<Rightarrow> bool" where
  plan: "attempt \<notin> pr_attempt ` set rows \<Longrightarrow> distinct (map pr_id (rows @ new_plan ids job attempt)) \<Longrightarrow>
    plan_step rows (rows @ new_plan ids job attempt)"
| reclaim: "(\<And>r. r \<in> set rows \<Longrightarrow> p r \<Longrightarrow> pr_state r = PClaimed) \<Longrightarrow>
    plan_step rows (update_where p lost_row rows)"
| claim: "owner \<noteq> [] \<Longrightarrow>
    plan_step rows (update_where (\<lambda>r. pr_id r = i \<and> pr_state r = PReady) (taken_row owner) rows)"
| finish: "r \<in> set rows \<Longrightarrow> pr_id r = i \<Longrightarrow> pr_state r = PClaimed \<Longrightarrow> st \<in> {PCompleted, PFailed} \<Longrightarrow>
    plan_step rows (update_where (\<lambda>r. pr_id r = i) (ended_row st) rows)"
| offer: "r \<in> set rows \<Longrightarrow> pr_attempt r = attempt \<Longrightarrow> pr_sequence r = sequence \<Longrightarrow> pr_state r = PCompleted \<Longrightarrow>
    (\<And>v. v \<in> set rows \<Longrightarrow> after_row attempt sequence v \<Longrightarrow> pr_state v = PBlocked) \<Longrightarrow>
    plan_step rows (update_where (next_blocked attempt sequence rows) offered_row rows)"
| cancel_later: "r \<in> set rows \<Longrightarrow> pr_attempt r = attempt \<Longrightarrow> pr_sequence r = sequence \<Longrightarrow> pr_state r = PFailed \<Longrightarrow>
    plan_step rows (update_where (\<lambda>r. after_row attempt sequence r \<and> pr_state r \<in> {PBlocked, PReady})
      (ended_row PCanceled) rows)"
| cancel: "(\<And>v w. v \<in> set rows \<Longrightarrow> w \<in> set rows \<Longrightarrow> pr_attempt v = pr_attempt w \<Longrightarrow> p v = p w) \<Longrightarrow>
    plan_step rows (update_where (\<lambda>r. p r \<and> plan_open (pr_state r)) (ended_row PCanceled) rows)"

section \<open>The invariant\<close>

definition row_ok :: "plan_row \<Rightarrow> bool" where
  "row_ok r =
     ((pr_phase r, pr_sequence r) \<in> {(''provision'', 10), (''build'', 20), (''verify'', 30), (''publish'', 40)} \<and>
      0 \<le> pr_fence r \<and>
      (if pr_state r = PClaimed
       then pr_owner r \<noteq> [] \<and> 0 < pr_fence r \<and> pr_leased r \<and> pr_started r \<and> \<not> pr_finished r
       else \<not> pr_leased r) \<and>
      (pr_finished r \<longleftrightarrow> \<not> plan_open (pr_state r)))"

definition order_ok :: "phase_state \<Rightarrow> phase_state \<Rightarrow> bool" where
  "order_ok earlier later =
     ((later \<in> {PReady, PClaimed, PCompleted, PFailed} \<longrightarrow> earlier = PCompleted) \<and>
      (later = PCanceled \<longrightarrow> \<not> plan_open earlier))"

definition pair_ok :: "plan_row \<Rightarrow> plan_row \<Rightarrow> bool" where
  "pair_ok w v =
     (pr_attempt w = pr_attempt v \<longrightarrow>
        pr_job w = pr_job v \<and> (pr_sequence w = pr_sequence v \<longrightarrow> w = v) \<and>
        (pr_sequence w < pr_sequence v \<longrightarrow> order_ok (pr_state w) (pr_state v)))"

definition plan_ok :: "plan_row list \<Rightarrow> bool" where
  "plan_ok rows =
     (distinct (map pr_id rows) \<and> list_all row_ok rows \<and> list_all (\<lambda>w. list_all (pair_ok w) rows) rows)"

lemma plan_okD:
  assumes "plan_ok rows"
  shows "distinct (map pr_id rows)" "\<And>r. r \<in> set rows \<Longrightarrow> row_ok r"
    "\<And>w v. w \<in> set rows \<Longrightarrow> v \<in> set rows \<Longrightarrow> pair_ok w v"
  using assms by (auto simp: plan_ok_def list_all_iff)

lemma row_open:
  "row_ok r \<Longrightarrow> pr_state r \<noteq> PClaimed \<Longrightarrow> \<not> pr_leased r"
  "row_ok r \<Longrightarrow> pr_finished r \<longleftrightarrow> \<not> plan_open (pr_state r)"
  by (auto simp: row_ok_def)

text \<open>Rewriting rows in place.\<close>

definition same_row :: "plan_row \<Rightarrow> plan_row \<Rightarrow> bool" where
  "same_row r q =
     (pr_id q = pr_id r \<and> pr_job q = pr_job r \<and> pr_attempt q = pr_attempt r \<and> pr_phase q = pr_phase r \<and>
      pr_sequence q = pr_sequence r)"

lemma same_rowI [simp, intro]:
  "same_row r r" "same_row r (lost_row r)" "same_row r (taken_row owner r)" "same_row r (ended_row st r)"
  "same_row r (offered_row r)"
  by (simp_all add: same_row_def lost_row_def taken_row_def ended_row_def offered_row_def)

lemma plan_ok_update:
  assumes ok: "plan_ok rows" and same: "\<And>r. same_row r (f r)"
    and row: "\<And>r. r \<in> set rows \<Longrightarrow> p r \<Longrightarrow> row_ok (f r)"
    and order: "\<And>w v. w \<in> set rows \<Longrightarrow> v \<in> set rows \<Longrightarrow> pr_attempt w = pr_attempt v \<Longrightarrow>
       pr_sequence w < pr_sequence v \<Longrightarrow> order_ok (pr_state w) (pr_state v) \<Longrightarrow>
       order_ok (pr_state (if p w then f w else w)) (pr_state (if p v then f v else v))"
  shows "plan_ok (update_where p f rows)"
proof -
  define g where "g = (\<lambda>r. if p r then f r else r)"
  have u: "update_where p f rows = map g rows" by (simp add: update_where_def g_def)
  have gs: "same_row r (g r)" for r using same by (simp add: g_def)
  have "map pr_id (map g rows) = map pr_id rows" using gs by (simp add: same_row_def)
  then have "distinct (map pr_id (map g rows))" using plan_okD(1)[OF ok] by metis
  moreover have "row_ok (g r)" if "r \<in> set rows" for r
    using row[OF that] plan_okD(2)[OF ok that] by (simp add: g_def)
  moreover have "pair_ok (g w) (g v)" if "w \<in> set rows" "v \<in> set rows" for w v
    using plan_okD(3)[OF ok that] order[OF that] gs[of w] gs[of v] unfolding pair_ok_def same_row_def
    by (auto simp: g_def)
  ultimately show ?thesis unfolding u plan_ok_def list_all_iff set_map by blast
qed

lemma id_row_unique:
  assumes "plan_ok rows" "r \<in> set rows" "q \<in> set rows" "pr_id q = pr_id r"
  shows "q = r"
  using distinct_key_eq[OF plan_okD(1)[OF assms(1)]] assms(2-4) by blast

lemma same_sequence_unique:
  assumes "plan_ok rows" "r \<in> set rows" "q \<in> set rows" "pr_attempt q = pr_attempt r" "pr_sequence q = pr_sequence r"
  shows "q = r"
  using plan_okD(3)[OF assms(1,3,2)] assms(4,5) by (simp add: pair_ok_def)

lemma order_rows:
  assumes "plan_ok rows" "w \<in> set rows" "v \<in> set rows" "pr_attempt w = pr_attempt v" "pr_sequence w < pr_sequence v"
  shows "order_ok (pr_state w) (pr_state v)"
  using plan_okD(3)[OF assms(1-3)] assms(4,5) by (simp add: pair_ok_def)

lemma later_blocked:
  assumes "plan_ok rows" "r \<in> set rows" "pr_state r = PClaimed" "v \<in> set rows"
    "after_row (pr_attempt r) (pr_sequence r) v"
  shows "pr_state v = PBlocked"
  using order_rows[OF assms(1,2,4)] assms(3,5)
  by (cases "pr_state v") (auto simp: after_row_def order_ok_def plan_open_def)

lemma new_plan_ok: "plan_ok rows \<Longrightarrow> attempt \<notin> pr_attempt ` set rows \<Longrightarrow>
  distinct (map pr_id (rows @ new_plan ids job attempt)) \<Longrightarrow> plan_ok (rows @ new_plan ids job attempt)"
proof -
  assume ok: "plan_ok rows" and a: "attempt \<notin> pr_attempt ` set rows"
    and d: "distinct (map pr_id (rows @ new_plan ids job attempt))"
  have new: "row_ok r" "pr_attempt r = attempt" if "r \<in> set (new_plan ids job attempt)" for r
    using that by (auto simp: new_plan_def new_row_def row_ok_def plan_open_def)
  have "pair_ok w v" if "w \<in> set (new_plan ids job attempt)" "v \<in> set (new_plan ids job attempt)" for w v
    using that by (auto simp: new_plan_def new_row_def pair_ok_def order_ok_def plan_open_def)
  moreover have "pair_ok w v" "pair_ok v w" if "w \<in> set rows" "v \<in> set (new_plan ids job attempt)" for w v
  proof -
    have "pr_attempt w \<noteq> pr_attempt v" using new(2)[OF that(2)] a that(1) by (metis image_eqI)
    then show "pair_ok w v" "pair_ok v w" by (simp_all add: pair_ok_def)
  qed
  ultimately show ?thesis using d new(1) plan_okD[OF ok] unfolding plan_ok_def list_all_iff by auto
qed

lemma plan_step_ok:
  assumes "plan_step rows rows'" "plan_ok rows"
  shows "plan_ok rows'"
  using assms
proof (induction rule: plan_step.induct)
  case (plan attempt rows ids job)
  then show ?case by (intro new_plan_ok)
next
  case (reclaim rows p)
  show ?case
  proof (rule plan_ok_update[OF reclaim.prems])
    show "row_ok (lost_row r)" if "r \<in> set rows" "p r" for r
      using plan_okD(2)[OF reclaim.prems that(1)] reclaim.hyps[OF that]
      by (auto simp: row_ok_def lost_row_def plan_open_def)
    show "order_ok (pr_state (if p w then lost_row w else w)) (pr_state (if p v then lost_row v else v))"
      if "w \<in> set rows" "v \<in> set rows" "order_ok (pr_state w) (pr_state v)" for w v
      using that(3) reclaim.hyps[OF that(1)] reclaim.hyps[OF that(2)]
      by (auto simp: order_ok_def lost_row_def plan_open_def)
  qed simp
next
  case (claim owner rows i)
  show ?case
  proof (rule plan_ok_update[OF claim.prems])
    show "row_ok (taken_row owner r)" if "r \<in> set rows" "pr_id r = i \<and> pr_state r = PReady" for r
      using plan_okD(2)[OF claim.prems that(1)] that(2) claim.hyps
      by (auto simp: row_ok_def taken_row_def plan_open_def)
    show "order_ok (pr_state (if pr_id w = i \<and> pr_state w = PReady then taken_row owner w else w))
        (pr_state (if pr_id v = i \<and> pr_state v = PReady then taken_row owner v else v))"
      if "order_ok (pr_state w) (pr_state v)" for w v
      using that by (auto simp: order_ok_def taken_row_def plan_open_def)
  qed simp
next
  case (finish r rows i st)
  have only: "q = r" if "q \<in> set rows" "pr_id q = i" for q
    using id_row_unique[OF finish.prems finish.hyps(1) that(1)] that(2) finish.hyps(2) by simp
  show ?case
  proof (rule plan_ok_update[OF finish.prems])
    show "row_ok (ended_row st q)" if "q \<in> set rows" "pr_id q = i" for q
      using plan_okD(2)[OF finish.prems finish.hyps(1)] only[OF that] finish.hyps(3,4)
      by (auto simp: row_ok_def ended_row_def plan_open_def)
    show "order_ok (pr_state (if pr_id w = i then ended_row st w else w)) (pr_state (if pr_id v = i then ended_row st v else v))"
      if "w \<in> set rows" "v \<in> set rows" "order_ok (pr_state w) (pr_state v)" for w v
      using that(3) only[OF that(1)] only[OF that(2)] finish.hyps(3,4)
      by (auto simp: order_ok_def ended_row_def plan_open_def)
  qed simp
next
  case (offer r rows attempt sequence)
  have nb: "pr_state v = PBlocked" "after_row attempt sequence v" if "next_blocked attempt sequence rows v" for v
    using that by (simp_all add: next_blocked_def)
  show ?case
  proof (rule plan_ok_update[OF offer.prems])
    show "row_ok (offered_row v)" if "v \<in> set rows" "next_blocked attempt sequence rows v" for v
      using plan_okD(2)[OF offer.prems that(1)] nb(1)[OF that(2)] by (auto simp: row_ok_def offered_row_def plan_open_def)
    show "order_ok (pr_state (if next_blocked attempt sequence rows w then offered_row w else w))
        (pr_state (if next_blocked attempt sequence rows v then offered_row v else v))"
      if wv: "w \<in> set rows" "v \<in> set rows" "pr_attempt w = pr_attempt v" "pr_sequence w < pr_sequence v"
        "order_ok (pr_state w) (pr_state v)" for w v
    proof (cases "next_blocked attempt sequence rows v")
      case True
      have "pr_sequence w \<le> sequence"
        using True offer.hyps(5)[OF wv(1)] wv(1,3,4) by (force simp: next_blocked_def after_row_def list_all_iff)
      then have "pr_state w = PCompleted"
        using same_sequence_unique[OF offer.prems offer.hyps(1) wv(1)] order_rows[OF offer.prems wv(1) offer.hyps(1)]
          offer.hyps(2-4) True wv(3) by (cases "pr_sequence w = sequence") (auto simp: next_blocked_def after_row_def order_ok_def)
      then show ?thesis by (auto simp: order_ok_def plan_open_def next_blocked_def)
    next
      case False
      then show ?thesis using wv(5) nb(1)[of w] by (auto simp: order_ok_def offered_row_def plan_open_def)
    qed
  qed simp
next
  case (cancel_later r rows attempt sequence)
  let ?p = "\<lambda>r. after_row attempt sequence r \<and> pr_state r \<in> {PBlocked, PReady}"
  show ?case
  proof (rule plan_ok_update[OF cancel_later.prems])
    show "row_ok (ended_row PCanceled v)" if "v \<in> set rows" "?p v" for v
      using plan_okD(2)[OF cancel_later.prems that(1)] that(2) by (auto simp: row_ok_def ended_row_def plan_open_def)
    show "order_ok (pr_state (if ?p w then ended_row PCanceled w else w)) (pr_state (if ?p v then ended_row PCanceled v else v))"
      if wv: "w \<in> set rows" "v \<in> set rows" "pr_attempt w = pr_attempt v" "pr_sequence w < pr_sequence v"
        "order_ok (pr_state w) (pr_state v)" for w v
    proof (cases "pr_attempt v = attempt \<and> \<not> ?p w \<and> ?p v")
      case True
      have "\<not> plan_open (pr_state w)"
      proof (cases "pr_sequence w \<le> sequence")
        case le: True
        then show ?thesis
          using same_sequence_unique[OF cancel_later.prems cancel_later.hyps(1) wv(1)]
            order_rows[OF cancel_later.prems wv(1) cancel_later.hyps(1)] cancel_later.hyps(2-4) True wv(3)
          by (cases "pr_sequence w = sequence") (auto simp: order_ok_def plan_open_def)
      next
        case False
        then show ?thesis
          using order_rows[OF cancel_later.prems cancel_later.hyps(1) wv(1)] cancel_later.hyps(2-4) True wv(3)
          by (cases "pr_state w") (auto simp: order_ok_def plan_open_def after_row_def)
      qed
      with True show ?thesis by (auto simp: order_ok_def ended_row_def)
    next
      case False
      then show ?thesis using wv(3,5) by (auto simp: order_ok_def ended_row_def plan_open_def after_row_def)
    qed
  qed simp
next
  case (cancel rows p)
  show ?case
  proof (rule plan_ok_update[OF cancel.prems])
    show "row_ok (ended_row PCanceled v)" if "v \<in> set rows" "p v \<and> plan_open (pr_state v)" for v
      using plan_okD(2)[OF cancel.prems that(1)] that(2) by (auto simp: row_ok_def ended_row_def plan_open_def split: if_splits)
    show "order_ok (pr_state (if p w \<and> plan_open (pr_state w) then ended_row PCanceled w else w))
        (pr_state (if p v \<and> plan_open (pr_state v) then ended_row PCanceled v else v))"
      if "w \<in> set rows" "v \<in> set rows" "pr_attempt w = pr_attempt v" "order_ok (pr_state w) (pr_state v)" for w v
      using that(4) cancel.hyps[OF that(1-3)] by (auto simp: order_ok_def ended_row_def plan_open_def)
  qed simp
qed

section \<open>Claims that were lost\<close>

text \<open>A claim on a row is lost once the row is no longer claimed under its fence; it stays lost.\<close>

definition row_lost :: "string \<Rightarrow> int \<Rightarrow> plan_row list \<Rightarrow> bool" where
  "row_lost i f rows =
     (i \<in> pr_id ` set rows \<and>
      list_all (\<lambda>r. pr_id r = i \<longrightarrow> pr_fence r > f \<or> pr_fence r = f \<and> pr_state r \<noteq> PClaimed) rows)"

lemma row_lost_update:
  assumes "row_lost i f rows" and "\<And>r. pr_id (g r) = pr_id r"
    and "\<And>r. r \<in> set rows \<Longrightarrow> p r \<Longrightarrow>
       pr_fence (g r) = pr_fence r \<and> (pr_state (g r) = PClaimed \<longrightarrow> pr_state r = PClaimed) \<or> pr_fence (g r) > pr_fence r"
  shows "row_lost i f (update_where p g rows)"
proof -
  have "pr_id ` set (update_where p g rows) = pr_id ` set rows"
    using arg_cong[OF map_update_where[of p pr_id g rows], of set] assms(2) by simp
  moreover have "pr_fence r > f \<or> pr_fence r = f \<and> pr_state r \<noteq> PClaimed"
    if r: "r \<in> set (update_where p g rows)" "pr_id r = i" for r
  proof -
    from r(1) obtain q where q: "q \<in> set rows" "r = (if p q then g q else q)" by (auto simp: set_update_where)
    then have "pr_id q = i" using r(2) assms(2) by (simp split: if_splits)
    then have "pr_fence q > f \<or> pr_fence q = f \<and> pr_state q \<noteq> PClaimed"
      using assms(1) q(1) by (auto simp: row_lost_def list_all_iff)
    then show ?thesis using assms(3)[OF q(1)] unfolding q(2) by (cases "p q") auto
  qed
  ultimately show ?thesis using assms(1) by (simp add: row_lost_def list_all_iff)
qed

lemma row_lost_step:
  assumes "plan_step rows rows'" "row_lost i f rows"
  shows "row_lost i f rows'"
  using assms
proof (induction rule: plan_step.induct)
  case (plan attempt rows ids job)
  have "pr_id r \<noteq> i" if "r \<in> set (new_plan ids job attempt)" for r
  proof -
    have "pr_id r \<notin> pr_id ` set rows" using plan.hyps(2) that by (auto simp: distinct_append)
    then show ?thesis using plan.prems by (auto simp: row_lost_def)
  qed
  with plan.prems show ?case unfolding row_lost_def list_all_iff set_append image_Un by blast
next
  case (reclaim rows p)
  show ?case by (rule row_lost_update[OF reclaim.prems]) (simp_all add: lost_row_def)
next
  case (claim owner rows j)
  show ?case by (rule row_lost_update[OF claim.prems]) (simp_all add: taken_row_def)
next
  case (finish r rows j st)
  show ?case by (rule row_lost_update[OF finish.prems]) (use finish.hyps(4) in \<open>auto simp: ended_row_def\<close>)
next
  case (offer r rows attempt sequence)
  show ?case by (rule row_lost_update[OF offer.prems]) (simp_all add: offered_row_def)
next
  case (cancel_later r rows attempt sequence)
  show ?case by (rule row_lost_update[OF cancel_later.prems]) (simp_all add: ended_row_def)
next
  case (cancel rows p)
  show ?case by (rule row_lost_update[OF cancel.prems]) (simp_all add: ended_row_def)
qed

lemma row_lost_steps: "plan_step\<^sup>*\<^sup>* rows rows' \<Longrightarrow> row_lost i f rows \<Longrightarrow> row_lost i f rows'"
  by (induction rule: rtranclp_induct) (auto intro: row_lost_step)

end
