(* ===== verification/Jobs.thy ===== *)
theory Jobs
  imports Fairness
begin

text \<open>
  \<^verbatim>\<open>src/internal/persistence/jobs.go\<close>: the job ledger. Submission with idempotency keys and project
  admission, fenced status transitions and what a terminal transition releases, project phase capacity,
  hiding and retention. The digests of request and status documents are the parameters \<open>rd\<close> and \<open>sd\<close>
  (hexadecimal SHA-256 of the JSON documents). A transaction that waits for a row lock reads the state
  committed meanwhile: submission takes the state at its first read and the state after the lock.
\<close>

section \<open>Documents\<close>

definition maxLedgerErrorBytes :: nat where
  "maxLedgerErrorBytes = 64 * 1024"

definition truncation_note :: string where
  "truncation_note = CHR 0x0A # ''[... error truncated in ledger ...]''"

text \<open>The digest of a request ignores who asked and the stamps resolution itself generates.\<close>

definition digest_document :: "build_request \<Rightarrow> build_request" where
  "digest_document q =
     q\<lparr>br_requested_by := [],
       br_resolved := map_option (\<lambda>r. r\<lparr>rc_resolved_at := 0\<rparr>) (br_resolved q),
       br_bundle := map_option (\<lambda>b. b\<lparr>cb_created_at := []\<rparr>) (br_bundle q)\<rparr>"

definition requestDocument ::
    "(build_request \<Rightarrow> string) \<Rightarrow> build_request option \<Rightarrow> (ledger_error, build_request \<times> string) result" where
  "requestDocument rd request =
     (case request of
        None \<Rightarrow> Inl (Refused ''nil build request'')
      | Some q \<Rightarrow> Inr (q, rd (digest_document q)))"

text \<open>The stored status has no claim identity, and a long error is cut.\<close>

definition statusDocument ::
    "(build_status \<Rightarrow> string) \<Rightarrow> build_status option \<Rightarrow> (ledger_error, build_status \<times> string) result" where
  "statusDocument sd status =
     (case status of
        None \<Rightarrow> Inl (Refused ''nil build status'')
      | Some st \<Rightarrow>
        (let doc = st\<lparr>bs_error := (if length (bs_error st) > maxLedgerErrorBytes
                        then take maxLedgerErrorBytes (bs_error st) @ truncation_note else bs_error st),
                      bs_attempt := [], bs_fence := 0, bs_lease_owner := []\<rparr> in
         Inr (doc, sd doc)))"

definition insertJobEvent :: "string \<Rightarrow> string \<Rightarrow> db \<Rightarrow> db" where
  "insertJobEvent job eventType s = s\<lparr>job_events := job_events s @ [(job, eventType)]\<rparr>"

section \<open>Resource requests\<close>

record resource_vector =
  VCPUs :: int
  MemoryMiB :: int
  DiskGiB :: int

definition digits_value :: "string \<Rightarrow> int" where
  "digits_value ds = foldl (\<lambda>v c. 10 * v + (of_char c - 48)) 0 ds"

text \<open>\<^verbatim>\<open>strconv.Atoi\<close>: an optional sign and decimal digits within the 64-bit range.\<close>

definition Atoi :: "string \<Rightarrow> int option" where
  "Atoi s =
     (let neg = (take 1 s = ''-'');
          ds = (if take 1 s = ''-'' \<or> take 1 s = ''+'' then drop 1 s else s);
          v = digits_value ds in
      if ds = [] \<or> \<not> list_all digit ds then None
      else if neg then (if v > 2 ^ 63 then None else Some (- v))
      else (if v \<ge> 2 ^ 63 then None else Some v))"

definition parse_resource :: "(string \<times> string) list \<Rightarrow> string \<Rightarrow> (ledger_error, int) result" where
  "parse_resource spec key =
     (case Atoi (TrimSpace (case map_of spec key of None \<Rightarrow> [] | Some v \<Rightarrow> v)) of
        None \<Rightarrow> Inl (Refused (''invalid or missing '' @ key))
      | Some v \<Rightarrow> if v \<le> 0 then Inl (Refused (''invalid or missing '' @ key)) else Inr v)"

definition resourceVectorFromRequest ::
    "build_request option \<Rightarrow> (ledger_error, resource_vector) result" where
  "resourceVectorFromRequest request =
     (case request of
        None \<Rightarrow> Inl (Refused ''resource accounting requires a build request'')
      | Some q \<Rightarrow>
        (let spec = (case br_resolved q of
               Some r \<Rightarrow> if br_machine_spec q = [] then rc_machine_spec r else br_machine_spec q
             | None \<Rightarrow> br_machine_spec q) in
         if spec = [] \<and> br_resource_class q = [] then Inr \<lparr>VCPUs = 4, MemoryMiB = 8192, DiskGiB = 50\<rparr>
         else
           bind_result (parse_resource spec ''cores'') (\<lambda>c.
           bind_result (parse_resource spec ''memory'') (\<lambda>m.
           bind_result (parse_resource spec ''disk_size'') (\<lambda>d.
           Inr \<lparr>VCPUs = c, MemoryMiB = m, DiskGiB = d\<rparr>)))))"

section \<open>Admission of a submission\<close>

definition lockSubmissionPolicy :: "string \<Rightarrow> db \<Rightarrow> (ledger_error, project_policy) result" where
  "lockSubmissionPolicy project s =
     (case lookup_by pp_project project (project_policies s) of
        None \<Rightarrow> Inl (Missing ''lock project admission policy'') | Some p \<Rightarrow> Inr p)"

definition checkRuntimeRequestLimits ::
    "build_request option \<Rightarrow> int \<Rightarrow> int \<Rightarrow> (ledger_error, unit) result" where
  "checkRuntimeRequestLimits request maxBuildSeconds maxCloudCost =
     (case runtimeBudgetSpecFromRequest request of
        Inl _ \<Rightarrow> Inl (Admission ''runtime_budget_request_invalid'' 0 0 0)
      | Inr spec \<Rightarrow>
        if MaxRuntimeSeconds spec > maxBuildSeconds
        then Inl (Admission ''build_minute_request_exceeds_daily_limit'' maxBuildSeconds
                    (MaxRuntimeSeconds spec) 0)
        else if ReservedCloudCost spec > maxCloudCost
        then Inl (Admission ''cloud_cost_request_exceeds_daily_limit'' maxCloudCost
                    (ReservedCloudCost spec) 0)
        else Inr ())"

definition checkResourceRequestLimits ::
    "build_request option \<Rightarrow> int \<Rightarrow> int \<Rightarrow> int \<Rightarrow> (ledger_error, unit) result" where
  "checkResourceRequestLimits request maxVCPUs maxMemoryMiB maxDiskGiB =
     (case resourceVectorFromRequest request of
        Inl _ \<Rightarrow> Inl (Admission ''resource_request_invalid'' 0 0 0)
      | Inr r \<Rightarrow>
        if VCPUs r > maxVCPUs then Inl (Admission ''vcpu_request_exceeds_limit'' maxVCPUs (VCPUs r) 0)
        else if MemoryMiB r > maxMemoryMiB
        then Inl (Admission ''memory_request_exceeds_limit'' maxMemoryMiB (MemoryMiB r) 0)
        else if DiskGiB r > maxDiskGiB
        then Inl (Admission ''disk_request_exceeds_limit'' maxDiskGiB (DiskGiB r) 0)
        else Inr ())"

definition queued_jobs :: "string \<Rightarrow> db \<Rightarrow> nat" where
  "queued_jobs project s =
     count_where (\<lambda>j. bj_project j = project \<and> bj_state j = ''queued'' \<and> bj_visible j) (build_jobs s)"

definition daily_jobs :: "time \<Rightarrow> string \<Rightarrow> db \<Rightarrow> nat" where
  "daily_jobs now project s =
     count_where (\<lambda>j. bj_project j = project \<and> bj_created_at j \<ge> utc_day now * day_length \<and>
                      bj_created_at j < utc_day now * day_length + day_length) (build_jobs s)"

definition suspension_error :: "time \<Rightarrow> project_policy \<Rightarrow> ledger_error option" where
  "suspension_error now p =
     (if pp_suspended p then Some (Admission ''project_suspended'' 0 0 0)
      else case pp_abuse_until p of
             None \<Rightarrow> None
           | Some t \<Rightarrow> if t > now then Some (Admission ''project_abuse_suspended'' 0 0 (t - now)) else None)"

definition checkSubmissionAdmission ::
    "time \<Rightarrow> time \<Rightarrow> string \<Rightarrow> project_policy \<Rightarrow> build_request option \<Rightarrow> db \<Rightarrow> (ledger_error, unit) result" where
  "checkSubmissionAdmission wall now project p request s =
     (case suspension_error now p of
        Some e \<Rightarrow> Inl e
      | None \<Rightarrow>
        bind_result (checkResourceRequestLimits request (pp_max_vcpus p) (pp_max_memory_mib p)
                       (pp_max_disk_gib p)) (\<lambda>_.
        bind_result (checkRuntimeRequestLimits request (pp_max_build_seconds p) (pp_max_cloud_cost p)) (\<lambda>_.
        let queued = int (queued_jobs project s); daily = int (daily_jobs now project s);
            dayEnds = utc_day now * day_length + day_length in
        if queued \<ge> pp_max_queued_jobs p
        then Inl (Admission ''queued_limit_reached'' (pp_max_queued_jobs p) queued (seconds 30))
        else if daily \<ge> pp_max_daily_submissions p
        then Inl (Admission ''daily_submission_limit_reached'' (pp_max_daily_submissions p) daily
                    (max (seconds 1) (dayEnds - wall)))
        else Inr ())))"

section \<open>Submission\<close>

record create_result =
  lc_job :: string
  lc_status :: build_status
  lc_created :: bool

definition resolveJobProject :: "string \<Rightarrow> db \<Rightarrow> (ledger_error, string) result" where
  "resolveJobProject requested s =
     (if TrimSpace requested = []
      then (case find (\<lambda>(i, n). n = ''default'') (projects s) of
              None \<Rightarrow> Inl (Missing ''resolve default project'') | Some (i, _) \<Rightarrow> Inr i)
      else (case find (\<lambda>(i, n). i = requested) (projects s) of
              None \<Rightarrow> Inl (Missing ''resolve build project'') | Some (i, _) \<Rightarrow> Inr i))"

definition loadIdempotentJob ::
    "string \<Rightarrow> string \<Rightarrow> string \<Rightarrow> db \<Rightarrow> (ledger_error, create_result option) result" where
  "loadIdempotentJob project key requestDigest s =
     (case find (\<lambda>j. bj_project j = project \<and> bj_idempotency_key j = Some key) (build_jobs s) of
        None \<Rightarrow> Inr None
      | Some j \<Rightarrow>
        if bj_request_digest j \<noteq> requestDigest then Inl Conflict
        else Inr (Some \<lparr>lc_job = bj_id j, lc_status = bj_snapshot j, lc_created = False\<rparr>))"

definition load_keyed ::
    "build_request \<Rightarrow> string \<Rightarrow> string \<Rightarrow> db \<Rightarrow> (ledger_error, create_result option) result" where
  "load_keyed q project requestDigest s =
     (if br_idempotency_key q \<noteq> [] then loadIdempotentJob project (br_idempotency_key q) requestDigest s
      else Inr None)"

definition prepareJobCreation ::
    "time \<Rightarrow> time \<Rightarrow> string \<Rightarrow> build_request \<Rightarrow> string \<Rightarrow> string \<Rightarrow> db \<Rightarrow> db \<Rightarrow>
     (ledger_error, create_result option) result" where
  "prepareJobCreation wall now project q requestDigest source s0 s =
     bind_result (load_keyed q project requestDigest s0) (\<lambda>first.
     if first \<noteq> None then Inr first
     else if source \<noteq> ''api'' then Inr None
     else
       bind_result (lockSubmissionPolicy project s) (\<lambda>p.
       bind_result (load_keyed q project requestDigest s) (\<lambda>second.
       if second \<noteq> None then Inr second
       else bind_result (checkSubmissionAdmission wall now project p (Some q) s) (\<lambda>_. Inr None))))"

definition ExecutorProtocolVersion :: int where
  "ExecutorProtocolVersion = 5"

definition upsertAttemptSnapshot :: "string \<Rightarrow> build_status \<Rightarrow> db \<Rightarrow> (ledger_error, db) result" where
  "upsertAttemptSnapshot attemptID st s =
     (let finished = (if isLedgerTerminal (bs_status st) then Some (bs_updated_at st) else None) in
      if list_ex (\<lambda>a. ba_job a = bs_job st \<and> ba_no a = 1) (build_attempts s)
      then Inr (s\<lparr>build_attempts := update_where (\<lambda>a. ba_job a = bs_job st \<and> ba_no a = 1)
              (\<lambda>a. a\<lparr>ba_state := bs_status st,
                    ba_failure_detail := (if bs_status st = ''failed'' then bs_error st else ba_failure_detail a),
                    ba_finished_at := (case finished of None \<Rightarrow> ba_finished_at a | Some t \<Rightarrow> Some t),
                    ba_updated_at := bs_updated_at st\<rparr>) (build_attempts s)\<rparr>)
      else if list_ex (\<lambda>a. ba_id a = attemptID \<or> (ba_job a = bs_job st \<and> ba_fence a = 1)) (build_attempts s)
      then Inl (Refused ''upsert build attempt snapshot'')
      else Inr (s\<lparr>build_attempts := build_attempts s @
             [\<lparr>ba_id = attemptID, ba_job = bs_job st, ba_no = 1, ba_state = bs_status st, ba_worker = None,
               ba_fence = 1, ba_failure_class = [], ba_failure_detail = bs_error st,
               ba_finished_at = finished, ba_created_at = bs_created_at st,
               ba_updated_at = bs_updated_at st\<rparr>]\<rparr>))"

definition new_job ::
    "time \<Rightarrow> string \<Rightarrow> string \<Rightarrow> build_request \<Rightarrow> string \<Rightarrow> build_status \<Rightarrow> build_status \<Rightarrow> string \<Rightarrow>
     string list \<Rightarrow> build_job" where
  "new_job now project source q requestDigest st doc statusDigest requirements =
     \<lparr>bj_id = bs_job st, bj_project = project, bj_requested_by = br_requested_by q,
      bj_idempotency_key = (if br_idempotency_key q = [] then None else Some (br_idempotency_key q)),
      bj_state = bs_status st, bj_priority = 0, bj_request = q, bj_request_digest = requestDigest,
      bj_snapshot = doc, bj_status_digest = statusDigest, bj_max_attempts = 3, bj_next_attempt_at = now,
      bj_created_at = (if source = ''api'' then now else bs_created_at st),
      bj_updated_at = bs_updated_at st, bj_completed_at = None, bj_cancel_requested_at = None,
      bj_terminal_reason = [], bj_visible = True, bj_min_protocol = ExecutorProtocolVersion,
      bj_required = requirements, bj_revision = 1\<rparr>"

definition insert_job ::
    "string \<Rightarrow> build_status \<Rightarrow> build_request \<Rightarrow> string \<Rightarrow> build_job \<Rightarrow> db \<Rightarrow>
     (ledger_error, create_result \<times> db) result" where
  "insert_job attemptID st q requestDigest j s =
     (if br_idempotency_key q \<noteq> [] \<and>
         list_ex (\<lambda>k. bj_project k = bj_project j \<and> bj_idempotency_key k = bj_idempotency_key j) (build_jobs s)
      then bind_result (loadIdempotentJob (bj_project j) (br_idempotency_key q) requestDigest s) (\<lambda>found.
             case found of
               None \<Rightarrow> Inl (Refused ''idempotency conflict did not return an existing job'')
             | Some existing \<Rightarrow> Inr (existing, s))
      else if list_ex (\<lambda>k. bj_id k = bj_id j) (build_jobs s) then Inl (Refused ''insert job ledger row'')
      else
        bind_result
          (if bs_status st \<noteq> ''queued''
           then upsertAttemptSnapshot attemptID st (s\<lparr>build_jobs := build_jobs s @ [j]\<rparr>)
           else Inr (s\<lparr>build_jobs := build_jobs s @ [j]\<rparr>)) (\<lambda>s1.
        Inr (\<lparr>lc_job = bj_id j, lc_status = st, lc_created = True\<rparr>,
             insertJobEvent (bs_job st) ''job.created'' s1)))"

definition createJob ::
    "(string \<Rightarrow> string) \<Rightarrow> (build_request \<Rightarrow> string) \<Rightarrow> (build_status \<Rightarrow> string) \<Rightarrow> time \<Rightarrow> time \<Rightarrow> string \<Rightarrow>
     build_request option \<Rightarrow> build_status option \<Rightarrow> string \<Rightarrow> db \<Rightarrow> db \<Rightarrow>
     (ledger_error, create_result \<times> db) result" where
  "createJob sha256 rd sd wall now attemptID request status source s0 s =
     bind_result (requestDocument rd request) (\<lambda>(q, requestDigest).
     bind_result (statusDocument sd status) (\<lambda>(doc, statusDigest).
     bind_result (map_error BadCapabilities (PhaseCapabilityRequirements sha256 request ''provision'')) (\<lambda>req.
     bind_result (resolveJobProject (br_project q) s0) (\<lambda>project.
     bind_result (prepareJobCreation wall now project q requestDigest source s0 s) (\<lambda>found.
     case found of
       Some existing \<Rightarrow> Inr (existing, s)
     | None \<Rightarrow>
         insert_job attemptID (the status) q requestDigest
           (new_job now project source q requestDigest (the status) doc statusDigest req) s)))))"

section \<open>Releases\<close>

definition release_reservation :: "time \<Rightarrow> string \<Rightarrow> reservation \<Rightarrow> reservation" where
  "release_reservation at reason r =
     r\<lparr>rr_active := False, rr_released_at := Some at, rr_release_reason := reason\<rparr>"

definition releaseResourceReservation :: "string \<Rightarrow> string \<Rightarrow> time \<Rightarrow> db \<Rightarrow> db" where
  "releaseResourceReservation attempt reason at s =
     s\<lparr>reservations := update_where (\<lambda>r. rr_attempt r = attempt \<and> rr_active r)
        (release_reservation at reason) (reservations s)\<rparr>"

definition releaseArtifactBudgetReservation :: "string \<Rightarrow> string \<Rightarrow> db \<Rightarrow> db" where
  "releaseArtifactBudgetReservation attempt reason s =
     s\<lparr>artifact_generations := update_where (\<lambda>r. ar_attempt r = attempt \<and> ar_active r)
          (\<lambda>r. r\<lparr>ar_active := False, ar_reason := reason\<rparr>) (artifact_generations s),
       artifact_budgets := update_where (\<lambda>r. ar_attempt r = attempt \<and> ar_active r)
          (\<lambda>r. r\<lparr>ar_active := False, ar_bytes := 0, ar_reason := reason\<rparr>) (artifact_budgets s)\<rparr>"

definition item_open :: "phase_item \<Rightarrow> bool" where
  "item_open w = (pi_state w \<in> {PBlocked, PReady, PClaimed})"

definition cancel_item :: "time \<Rightarrow> string \<Rightarrow> phase_item \<Rightarrow> phase_item" where
  "cancel_item at reason w =
     w\<lparr>pi_state := PCanceled, pi_lease := None, pi_finished_at := Some at, pi_updated_at := at,
       pi_error := reason\<rparr>"

definition cancelPhaseWorkItems :: "string \<Rightarrow> string \<Rightarrow> time \<Rightarrow> db \<Rightarrow> db" where
  "cancelPhaseWorkItems attempt reason at s =
     s\<lparr>phase_items := update_where (\<lambda>w. pi_attempt w = attempt \<and> item_open w) (cancel_item at reason)
        (phase_items s)\<rparr>"

text \<open>\<^verbatim>\<open>src/internal/persistence/worker_gateway.go\<close>: certificates and the session of an attempt are revoked,
  its undelivered commands and open uploads cancelled.\<close>

definition revoke_certificate :: "string \<Rightarrow> time \<Rightarrow> workload_certificate \<Rightarrow> workload_certificate" where
  "revoke_certificate reason at c = c\<lparr>wc_state := CRevoked, wc_revoked_at := Some at, wc_reason := reason\<rparr>"

definition revoke_session :: "string \<Rightarrow> time \<Rightarrow> gateway_session \<Rightarrow> gateway_session" where
  "revoke_session reason at g = g\<lparr>gs_state := CRevoked, gs_revoked_at := Some at, gs_reason := reason\<rparr>"

definition command_open :: "gateway_command \<Rightarrow> bool" where
  "command_open c = (gc_state c = CmdQueued \<or> gc_state c = CmdDelivered)"

definition cancel_command :: "string \<Rightarrow> time \<Rightarrow> gateway_command \<Rightarrow> gateway_command" where
  "cancel_command reason at c =
     c\<lparr>gc_state := CmdCanceled, gc_lease := None, gc_error := (if gc_error c = [] then reason else gc_error c),
       gc_completed_at := Some at\<rparr>"

definition upload_open :: "gateway_upload \<Rightarrow> bool" where
  "upload_open u = (gu_state u = UpReady \<or> gu_state u = UpUploading)"

definition cancel_upload :: "gateway_upload \<Rightarrow> gateway_upload" where
  "cancel_upload u = u\<lparr>gu_state := UpCanceled, gu_lease := None\<rparr>"

definition revokeWorkerGatewayAttempt :: "string \<Rightarrow> string \<Rightarrow> time \<Rightarrow> db \<Rightarrow> db" where
  "revokeWorkerGatewayAttempt attempt reason at s =
     s\<lparr>gateway_certificates := update_where (\<lambda>c. wc_attempt c = attempt \<and> wc_state c = CActive)
          (revoke_certificate reason at) (gateway_certificates s),
       gateway_sessions := update_where (\<lambda>g. gs_attempt g = attempt \<and> gs_state g = CActive)
          (revoke_session reason at) (gateway_sessions s),
       gateway_commands := update_where (\<lambda>c. gc_attempt c = attempt \<and> command_open c)
          (cancel_command reason at) (gateway_commands s),
       gateway_uploads := update_where (\<lambda>u. gu_attempt u = attempt \<and> upload_open u) cancel_upload
          (gateway_uploads s)\<rparr>"

definition revokeWorkerGatewayJob :: "string \<Rightarrow> string \<Rightarrow> time \<Rightarrow> db \<Rightarrow> db" where
  "revokeWorkerGatewayJob job reason at s =
     fold (\<lambda>a. revokeWorkerGatewayAttempt (ba_id a) reason at)
       (filter (\<lambda>a. ba_job a = job) (build_attempts s)) s"

section \<open>Phase capacity\<close>

definition reservationPhase :: "string \<Rightarrow> string" where
  "reservationPhase st =
     (if st = ''claimed'' then ''claimed''
      else if st = ''provisioning'' \<or> st = ''deploying'' then ''provision''
      else if st = ''forwarding'' \<or> st = ''building'' then ''build''
      else if st = ''collecting'' \<or> st = ''verifying'' then ''verify''
      else if st = ''signing'' \<or> st = ''publishing'' then ''publish''
      else [])"

definition updateResourceReservationPhase ::
    "string \<Rightarrow> string \<Rightarrow> db \<Rightarrow> (ledger_error, db) result" where
  "updateResourceReservationPhase attempt st s =
     (let phase = reservationPhase st in
      if phase = [] then Inr s
      else case active_reservation attempt s of
        None \<Rightarrow> Inl (Missing ''lock project phase reservation'')
      | Some r \<Rightarrow>
        (case lookup_by pp_project (rr_project r) (project_policies s) of
           None \<Rightarrow> Inl (Missing ''lock project phase reservation'')
         | Some p \<Rightarrow>
           (case phase_limit p phase of
              None \<Rightarrow> Inl (Missing ''lock project phase reservation'')
            | Some limit \<Rightarrow>
              if rr_phase r = phase then Inr s
              else
                let used = int (phase_used (rr_project r) phase attempt s) in
                if used \<ge> limit then Inl (PhaseFull phase used limit)
                else Inr (s\<lparr>reservations :=
                       update_where (\<lambda>q. rr_attempt q = attempt \<and> rr_active q \<and> rr_phase q \<noteq> phase)
                         (\<lambda>q. q\<lparr>rr_phase := phase\<rparr>) (reservations s)\<rparr>))))"

section \<open>Fenced transitions\<close>

definition validateTransitionClaim :: "time \<Rightarrow> build_status \<Rightarrow> db \<Rightarrow> (ledger_error, unit) result" where
  "validateTransitionClaim now current s =
     (if bs_attempt current = [] then Inr ()
      else case find (\<lambda>a. ba_id a = bs_attempt current \<and> ba_job a = bs_job current) (build_attempts s) of
        None \<Rightarrow> Inl (Refused ''durable claim is no longer active'')
      | Some a \<Rightarrow>
        (case (lookup_by wl_attempt (ba_id a) (worker_leases s),
               lookup_by au_attempt (ba_id a) (attempt_usage s)) of
           (Some l, Some u) \<Rightarrow>
             (case lookup_by w_id (wl_worker l) (workers s) of
                None \<Rightarrow> Inl (Refused ''durable claim is no longer active'')
              | Some w \<Rightarrow>
                if wl_expires l > now \<and> wl_fence l = bs_fence current \<and> w_name w = bs_lease_owner current \<and>
                   au_active u \<and> runtime_end u > now
                then Inr () else Inl (Refused ''durable claim is stale or expired''))
         | _ \<Rightarrow> Inl (Refused ''durable claim is no longer active'')))"

text \<open>What every terminal path does to the resources of an attempt.\<close>

definition release_attempt :: "string \<Rightarrow> string \<Rightarrow> time \<Rightarrow> db \<Rightarrow> db" where
  "release_attempt attempt reason at s =
     revokeWorkerGatewayAttempt attempt reason at
       (cancelPhaseWorkItems attempt reason at
         (releaseArtifactBudgetReservation attempt reason
           (releaseResourceReservation attempt reason at s)))"

definition delete_attempt_leases :: "string \<Rightarrow> db \<Rightarrow> db" where
  "delete_attempt_leases attempt s =
     s\<lparr>worker_leases := filter (\<lambda>l. wl_attempt l \<noteq> attempt) (worker_leases s)\<rparr>"

definition fenced_attempt :: "build_status \<Rightarrow> build_attempt \<Rightarrow> bool" where
  "fenced_attempt c a = (ba_id a = bs_attempt c \<and> ba_job a = bs_job c \<and> ba_fence a = bs_fence c)"

definition update_fenced_attempt :: "build_status \<Rightarrow> time \<Rightarrow> db \<Rightarrow> db" where
  "update_fenced_attempt c at s =
     s\<lparr>build_attempts := update_where (fenced_attempt c)
        (\<lambda>a. a\<lparr>ba_state := bs_status c,
               ba_failure_detail := (if bs_status c = ''failed'' then bs_error c else ba_failure_detail a),
               ba_finished_at := (if isLedgerTerminal (bs_status c) then Some at else ba_finished_at a),
               ba_updated_at := at\<rparr>) (build_attempts s)\<rparr>"

definition recordAttemptTransitionTx ::
    "string \<Rightarrow> build_status \<Rightarrow> time \<Rightarrow> db \<Rightarrow> (ledger_error, db) result" where
  "recordAttemptTransitionTx newID current at s =
     (if bs_attempt current = []
      then (if bs_status current = ''queued'' then Inr s else upsertAttemptSnapshot newID current s)
      else
        (let s1 = update_fenced_attempt current at s; reason = ''job_'' @ bs_status current in
         if count_where (fenced_attempt current) (build_attempts s) \<noteq> 1
         then Inl (Refused ''fenced attempt was replaced'')
         else if \<not> isLedgerTerminal (bs_status current) then
           updateResourceReservationPhase (bs_attempt current) (bs_status current)
             (if reservationPhase (bs_status current) = ''provision''
              then markAttemptCloudStarted (bs_attempt current) at s1 else s1)
         else
           bind_result (settleAttemptUsage (bs_attempt current) reason (bs_status current) at s1) (\<lambda>s2.
           Inr (release_attempt (bs_attempt current) reason at
                  (delete_attempt_leases (bs_attempt current) s2)))))"

definition update_job_row ::
    "build_status \<Rightarrow> build_status \<Rightarrow> string \<Rightarrow> int \<Rightarrow> time \<Rightarrow> db \<Rightarrow> db" where
  "update_job_row c doc statusDigest revision at s =
     s\<lparr>build_jobs := update_where (\<lambda>k. bj_id k = bs_job c)
        (\<lambda>k. k\<lparr>bj_state := bs_status c, bj_snapshot := doc, bj_status_digest := statusDigest,
               bj_terminal_reason := bs_error c, bj_updated_at := at,
               bj_completed_at := (if isLedgerTerminal (bs_status c) then Some at else bj_completed_at k),
               bj_revision := revision\<rparr>) (build_jobs s)\<rparr>"

definition recordTransition ::
    "(build_status \<Rightarrow> string) \<Rightarrow> time \<Rightarrow> string \<Rightarrow> build_status option \<Rightarrow> build_status option \<Rightarrow> db \<Rightarrow>
     (ledger_error, unit \<times> db) result" where
  "recordTransition sd now newID previous current s =
     bind_result (statusDocument sd current) (\<lambda>(doc, statusDigest).
     let c = the current in
     case find (\<lambda>j. bj_id j = bs_job c \<and> bj_visible j) (build_jobs s) of
       None \<Rightarrow> Inl (Missing ''lock job ledger row'')
     | Some j \<Rightarrow>
       if bj_state j = bs_status c \<and> bj_status_digest j = statusDigest then Inr ((), s)
       else if previous \<noteq> None \<and> bj_state j \<noteq> bs_status (the previous)
       then Inl (Refused ''ledger state is not the expected one'')
       else
         bind_result (validateTransitionClaim now c s) (\<lambda>_.
         bind_result (recordAttemptTransitionTx newID c now
           (update_job_row c doc statusDigest (bj_revision j + 1) now s)) (\<lambda>s1.
         Inr ((), insertJobEvent (bs_job c)
           (if previous = None \<or> bs_status (the previous) \<noteq> bs_status c
            then ''job.state_changed'' else ''job.snapshot_updated'') s1))))"

section \<open>Hiding and retention\<close>

definition hide :: "build_job \<Rightarrow> build_job" where
  "hide j = j\<lparr>bj_visible := False, bj_revision := bj_revision j + 1\<rparr>"

definition HideJob :: "time \<Rightarrow> build_status \<Rightarrow> db \<Rightarrow> (ledger_error, unit \<times> db) result" where
  "HideJob now st s =
     (if count_where (\<lambda>j. bj_id j = bs_job st \<and> bj_visible j) (build_jobs s) \<noteq> 1
      then Inl (Refused ''job is missing or already hidden'')
      else Inr ((), insertJobEvent (bs_job st) ''job.hidden''
        (s\<lparr>build_jobs := update_where (\<lambda>j. bj_id j = bs_job st \<and> bj_visible j)
           (\<lambda>j. (hide j)\<lparr>bj_updated_at := now\<rparr>) (build_jobs s)\<rparr>)))"

definition terminalRetentionBatchSize :: nat where
  "terminalRetentionBatchSize = 256"

definition expirable :: "time \<Rightarrow> build_job \<Rightarrow> bool" where
  "expirable before j = (bj_visible j \<and> isLedgerTerminal (bj_state j) \<and> bj_updated_at j < before)"

definition expire_ids :: "time \<Rightarrow> (string \<Rightarrow> bool) \<Rightarrow> db \<Rightarrow> string list" where
  "expire_ids before locked s =
     map bj_id (take terminalRetentionBatchSize
       (sort_key (\<lambda>j. (bj_updated_at j, bj_id j))
         (filter (\<lambda>j. expirable before j \<and> \<not> locked (bj_id j)) (build_jobs s))))"

definition expire_batch :: "string list \<Rightarrow> db \<Rightarrow> db" where
  "expire_batch ids s =
     fold (\<lambda>i. insertJobEvent i ''job.retention_hidden'') ids
       (s\<lparr>build_jobs := update_where (\<lambda>j. bj_id j \<in> set ids) hide (build_jobs s)\<rparr>)"

lemma fold_insertJobEvent:
  "fold (\<lambda>i. insertJobEvent i e) ids s = s\<lparr>job_events := job_events s @ map (\<lambda>i. (i, e)) ids\<rparr>"
  by (induction ids arbitrary: s) (simp_all add: insertJobEvent_def)

lemma expire_batch_jobs [simp]:
  "build_jobs (expire_batch ids s) = update_where (\<lambda>j. bj_id j \<in> set ids) hide (build_jobs s)"
  by (simp add: expire_batch_def fold_insertJobEvent)

lemma expire_ids_visible:
  assumes "i \<in> set (expire_ids before locked s)"
  shows "\<exists>j \<in> set (build_jobs s). bj_id j = i \<and> expirable before j \<and> \<not> locked i"
  using assms by (auto simp: expire_ids_def dest!: in_set_takeD)

lemma count_where_less:
  assumes "\<And>r. r \<in> set xs \<Longrightarrow> p r \<Longrightarrow> q r" and "r0 \<in> set xs" "q r0" "\<not> p r0"
  shows "count_where p xs < count_where q xs"
  using assms
proof (induction xs)
  case (Cons x xs)
  have "count_where p xs \<le> count_where q xs" by (rule count_where_mono) (simp add: Cons.prems(1))
  moreover have "r0 \<noteq> x \<Longrightarrow> count_where p xs < count_where q xs"
    using Cons.prems by (intro Cons.IH) auto
  ultimately show ?case using Cons.prems(1)[of x] Cons.prems(3,4) by (cases "r0 = x") auto
qed simp

text \<open>Each round hides a batch in its own transaction; \<open>locked n\<close> are the rows held by others in round \<open>n\<close>.\<close>

function ExpireTerminal :: "time \<Rightarrow> (nat \<Rightarrow> string \<Rightarrow> bool) \<Rightarrow> nat \<Rightarrow> db \<Rightarrow> nat \<times> db" where
  "ExpireTerminal before locked n s =
     (let ids = expire_ids before (locked n) s; t = expire_batch ids s in
      if length ids < terminalRetentionBatchSize then (length ids, t)
      else (case ExpireTerminal before locked (Suc n) t of (m, u) \<Rightarrow> (length ids + m, u)))"
  by pat_completeness auto
termination
proof (relation "measure (\<lambda>(before, locked, n, s). count_where bj_visible (build_jobs s))", simp)
  fix before :: time and locked :: "nat \<Rightarrow> string \<Rightarrow> bool" and n and s :: db and ids t
  assume ids: "ids = expire_ids before (locked n) s" and t: "t = expire_batch ids s"
    and full: "\<not> length ids < terminalRetentionBatchSize"
  from full obtain i where "i \<in> set ids" by (cases ids) (auto simp: terminalRetentionBatchSize_def)
  then obtain j where "j \<in> set (build_jobs s)" "bj_visible j" "bj_id j \<in> set ids"
    using expire_ids_visible[of i before "locked n" s] unfolding ids by (auto simp: expirable_def)
  then have "count_where bj_visible (build_jobs t) < count_where bj_visible (build_jobs s)"
    unfolding t expire_batch_jobs count_where_update
    by (intro count_where_less[of _ _ _ j]) (auto simp: hide_def split: if_splits)
  then show "((before, locked, Suc n, t), before, locked, n, s)
      \<in> measure (\<lambda>(before, locked, n, s). count_where bj_visible (build_jobs s))"
    by simp
qed

declare ExpireTerminal.simps [simp del]

end
