(* ===== verification/Scheduler.thy ===== *)
theory Scheduler
  imports Jobs
begin

text \<open>
  \<^verbatim>\<open>src/internal/persistence/scheduler.go\<close>: durable claims. A poll registers its worker, recovers expired
  leases, selects a project and a job, checks the project's limits under the policy lock and writes the
  attempt, its reservation, usage row, phase plan and lease in one transaction. \<open>now\<close> is the database
  clock, fresh UUIDs are arguments, \<open>busy\<close> says which rows other transactions hold (\<^verbatim>\<open>SKIP LOCKED\<close>).
\<close>

section \<open>Claim identities\<close>

record row_locks =
  lock_fairness :: "string \<Rightarrow> bool"
  lock_job :: "string \<Rightarrow> bool"
  lock_lease :: "string \<Rightarrow> bool"
  lock_item :: "string \<Rightarrow> bool"

record claim_ids =
  id_worker :: string
  id_attempt :: string
  id_lease :: string
  id_items :: "string list"

record scheduler_claim =
  sc_request :: build_request
  sc_status :: build_status

definition schedulerLeaseKind :: "string list \<Rightarrow> lease_kind" where
  "schedulerLeaseKind capabilities =
     (if ''worker-kind:admission'' \<in> set capabilities then AdmissionLease else AttemptLease)"

section \<open>Worker registration\<close>

text \<open>
  \<^verbatim>\<open>INSERT INTO workers ... ON CONFLICT (stable_name) DO UPDATE\<close>: an existing worker keeps its identifier
  and desired state; its generation grows when labels, role or protocol changed.
\<close>

definition register_worker ::
    "time \<Rightarrow> string \<Rightarrow> string \<Rightarrow> string \<Rightarrow> string list \<Rightarrow> int \<Rightarrow> db \<Rightarrow> string \<times> db" where
  "register_worker now newID name role labels pressure s =
     (case lookup_by w_name name (workers s) of
        None \<Rightarrow> (newID, s\<lparr>workers := workers s @
          [\<lparr>w_id = newID, w_name = name, w_active = True, w_role = role, w_labels = labels,
            w_pressure = Some pressure, w_protocol = ExecutorProtocolVersion, w_last_seen = Some now,
            w_generation = 1\<rparr>]\<rparr>)
      | Some w \<Rightarrow> (w_id w, s\<lparr>workers := update_where (\<lambda>v. w_name v = name)
          (\<lambda>v. v\<lparr>w_last_seen := Some now, w_role := role, w_labels := labels, w_pressure := Some pressure,
                 w_protocol := ExecutorProtocolVersion,
                 w_generation := w_generation v +
                   (if w_labels v \<noteq> labels \<or> w_role v \<noteq> role \<or> w_protocol v \<noteq> ExecutorProtocolVersion
                    then 1 else 0)\<rparr>) (workers s)\<rparr>))"

text \<open>
  \<^verbatim>\<open>src/internal/builder/sysinfo.go\<close>: the telemetry an executor reports. A host sample holds the load of CPU,
  memory and disk in permille and the two totals that tell whether sampling works on this platform;
  taking the sample is left to the caller of a poll.
\<close>

record system_info =
  si_cpu :: int
  si_memory :: int
  si_disk :: int
  si_memory_total :: int
  si_disk_total :: int

record executor_telemetry =
  ObservedAt :: time
  Available :: bool
  CPUPressure :: int
  MemoryPressure :: int
  DiskPressure :: int
  PressureScore :: int
  CacheKeys :: "string list"

definition HasPrefix :: "string \<Rightarrow> string \<Rightarrow> bool" where
  "HasPrefix s p = (take (length p) s = p)"

definition cache_label :: "string \<Rightarrow> bool" where
  "cache_label l = (HasPrefix l ''capacity-pool:'' \<or> HasPrefix l ''profile:'' \<or> HasPrefix l ''image:'')"

definition executorTelemetryFromSystemInfo ::
    "system_info option \<Rightarrow> string list \<Rightarrow> time \<Rightarrow> executor_telemetry" where
  "executorTelemetryFromSystemInfo info labels observedAt =
     (case info of
        None \<Rightarrow> \<lparr>ObservedAt = observedAt, Available = False, CPUPressure = 0, MemoryPressure = 0,
          DiskPressure = 0, PressureScore = 500, CacheKeys = sort (filter cache_label labels)\<rparr>
      | Some i \<Rightarrow>
        (let available = (si_memory_total i > 0 \<and> si_disk_total i > 0) in
         \<lparr>ObservedAt = observedAt, Available = available, CPUPressure = si_cpu i, MemoryPressure = si_memory i,
          DiskPressure = si_disk i,
          PressureScore = (if available then max (max (si_cpu i) (si_memory i)) (si_disk i) else 500),
          CacheKeys = sort (filter cache_label labels)\<rparr>))"

text \<open>What \<^verbatim>\<open>CaptureExecutorTelemetry\<close> reads from the host: a sample and the time it was taken.\<close>

record host_sample =
  hs_info :: system_info
  hs_at :: time

definition CaptureExecutorTelemetry :: "host_sample \<Rightarrow> string list \<Rightarrow> executor_telemetry" where
  "CaptureExecutorTelemetry h labels = executorTelemetryFromSystemInfo (Some (hs_info h)) labels (hs_at h)"

text \<open>The process remembers which worker row it registered, when and with which capabilities, and skips
  the statement for fifteen seconds. The key is the whole capability document, telemetry and its
  observation time included. The cache is not part of the transaction.\<close>

record cached_worker =
  cw_id :: string
  cw_heartbeat :: time
  cw_key :: "string list \<times> executor_telemetry"

type_synonym worker_cache = "(string \<times> cached_worker) list"

definition schedulerWorker ::
    "time \<Rightarrow> time \<Rightarrow> string \<Rightarrow> string \<Rightarrow> string list \<Rightarrow> host_sample \<Rightarrow> worker_cache \<Rightarrow> db \<Rightarrow>
     string \<times> worker_cache \<times> db" where
  "schedulerWorker wall now newID name labels sample cache s =
     (let telemetry = CaptureExecutorTelemetry sample labels; key = (labels, telemetry) in
      case map_of cache name of
        Some c \<Rightarrow>
          if cw_key c = key \<and> wall - cw_heartbeat c < seconds 15 then (cw_id c, cache, s)
          else (case register_worker now (cw_id c) name ''control-plane-admission'' labels (PressureScore telemetry) s of
                  (i, t) \<Rightarrow> (i, (name, \<lparr>cw_id = i, cw_heartbeat = wall, cw_key = key\<rparr>) # cache, t))
      | None \<Rightarrow>
          (case register_worker now newID name ''control-plane-admission'' labels (PressureScore telemetry) s of
             (i, t) \<Rightarrow> (i, (name, \<lparr>cw_id = i, cw_heartbeat = wall, cw_key = key\<rparr>) # cache, t)))"

section \<open>Selecting a job\<close>

definition pressure_score :: "worker \<Rightarrow> int" where
  "pressure_score w =
     (case w_pressure w of
        None \<Rightarrow> 500 | Some p \<Rightarrow> if 0 \<le> p \<and> p \<le> 9999 then min 1000 p else 500)"

definition kind_label :: "string \<Rightarrow> bool" where
  "kind_label l = HasPrefix l ''worker-kind:''"

definition same_kind :: "worker \<Rightarrow> worker \<Rightarrow> bool" where
  "same_kind executor candidate =
     (\<not> list_ex kind_label (w_labels executor) \<or>
      list_ex (\<lambda>l. kind_label l \<and> has_label candidate l) (w_labels executor))"

definition claim_worker :: "time \<Rightarrow> db \<Rightarrow> worker \<Rightarrow> build_job \<Rightarrow> worker \<Rightarrow> bool" where
  "claim_worker now s executor j candidate =
     (worker_fresh now 5 candidate \<and> w_protocol candidate \<ge> bj_min_protocol j \<and>
      has_labels candidate (bj_required j) \<and>
      (has_label candidate ''worker-kind:admission'' \<or>
       \<not> list_ex (\<lambda>l. wl_worker l = w_id candidate \<and> wl_expires l > now) (worker_leases s)) \<and>
      same_kind executor candidate)"

definition recent_worker_failures :: "time \<Rightarrow> db \<Rightarrow> worker \<Rightarrow> nat" where
  "recent_worker_failures now s w =
     count_where (\<lambda>a. ba_worker a = Some (w_id w) \<and> ba_state a = ''failed'' \<and>
                      ba_updated_at a > now - seconds 3600) (build_attempts s)"

record claim_candidate =
  cc_job :: build_job
  cc_fairness :: fair_selection
  cc_workers :: nat
  cc_pressure :: int
  cc_failures :: nat

definition selectClaimCandidate ::
    "row_locks \<Rightarrow> time \<Rightarrow> string \<Rightarrow> db \<Rightarrow> claim_candidate option \<times> db" where
  "selectClaimCandidate busy now workerID s =
     (case selectFairAdmissionProject (lock_fairness busy) now workerID s of
        (None, t) \<Rightarrow> (None, t)
      | (Some sel, t) \<Rightarrow>
        (case lookup_by w_id workerID (workers t) of
           None \<Rightarrow> (None, t)
         | Some executor \<Rightarrow>
           (map_option
              (\<lambda>j. \<lparr>cc_job = j, cc_fairness = sel,
                    cc_workers = count_where (claim_worker now t executor j) (workers t),
                    cc_pressure = pressure_score executor,
                    cc_failures = recent_worker_failures now t executor\<rparr>)
              (order_limit1 (\<lambda>j. (- bj_priority j, bj_next_attempt_at j, bj_created_at j, bj_id j))
                 (filter (\<lambda>j. bj_project j = fs_project sel \<and> \<not> lock_job busy (bj_id j) \<and>
                              admission_eligible now t executor j \<and> claim_worker now t executor j executor)
                    (build_jobs t))), t)))"

text \<open>The stored documents of the selected job, completed from its columns.\<close>

definition candidate_request :: "build_job \<Rightarrow> build_request" where
  "candidate_request j = (bj_request j)\<lparr>br_project := bj_project j, br_requested_by := bj_requested_by j\<rparr>"

definition candidate_status :: "build_job \<Rightarrow> build_status" where
  "candidate_status j =
     (bj_snapshot j)\<lparr>bs_job := bj_id j, bs_project := bj_project j, bs_requested_by := bj_requested_by j\<rparr>"

section \<open>Admission of a claim\<close>

definition used_resources :: "string \<Rightarrow> db \<Rightarrow> resource_vector" where
  "used_resources project s =
     (let rs = filter (\<lambda>r. rr_project r = project \<and> rr_active r) (reservations s) in
      \<lparr>VCPUs = sum_list (map rr_vcpus rs), MemoryMiB = sum_list (map rr_memory_mib rs),
       DiskGiB = sum_list (map rr_disk_gib rs)\<rparr>)"

definition claimed_count :: "string \<Rightarrow> db \<Rightarrow> nat" where
  "claimed_count project s =
     count_where (\<lambda>r. rr_project r = project \<and> rr_active r \<and> rr_phase r = ''claimed'') (reservations s)"

definition used_seconds :: "int \<Rightarrow> string \<Rightarrow> db \<Rightarrow> int" where
  "used_seconds day project s =
     sum_list (map (\<lambda>u. if au_active u then au_reserved_seconds u else au_charged_seconds u)
       (filter (\<lambda>u. au_project u = project \<and> au_day u = day) (attempt_usage s)))"

definition used_cost :: "int \<Rightarrow> string \<Rightarrow> db \<Rightarrow> int" where
  "used_cost day project s =
     sum_list (map (\<lambda>u. if au_active u then au_reserved_cost u else au_charged_cost u)
       (filter (\<lambda>u. au_project u = project \<and> au_day u = day) (attempt_usage s)))"

definition lockAndCheckClaimAdmission ::
    "time \<Rightarrow> string \<Rightarrow> string \<Rightarrow> resource_vector \<Rightarrow> runtime_budget \<Rightarrow> db \<Rightarrow>
     (ledger_error, bool \<times> time option) result" where
  "lockAndCheckClaimAdmission now project excludeJob request budget s =
     (case lookup_by pp_project project (project_policies s) of
        None \<Rightarrow> Inl (Missing ''lock project claim policy'')
      | Some p \<Rightarrow>
        let active = int (count_where (\<lambda>j. bj_project j = project \<and> bj_id j \<noteq> excludeJob \<and> bj_visible j \<and>
                       active_state (bj_state j)) (build_jobs s));
            used = used_resources project s in
        if pp_suspended p then Inr (False, None)
        else if \<not> policy_open now p then Inr (False, pp_abuse_until p)
        else if active \<ge> pp_max_active_jobs p then Inr (False, None)
        else if int (claimed_count project s) \<ge> pp_max_claimed p then Inr (False, None)
        else if \<not> (VCPUs used + VCPUs request \<le> pp_max_vcpus p \<and>
                   MemoryMiB used + MemoryMiB request \<le> pp_max_memory_mib p \<and>
                   DiskGiB used + DiskGiB request \<le> pp_max_disk_gib p) then Inr (False, None)
        else if int64 (used_seconds (utc_day now) project s + MaxRuntimeSeconds budget) > pp_max_build_seconds p \<or>
                int64 (used_cost (utc_day now) project s + ReservedCloudCost budget) > pp_max_cloud_cost p
        then Inr (False, Some ((utc_day now + 1) * day_length))
        else Inr (True, None))"

definition defer_job :: "time \<Rightarrow> string \<Rightarrow> time option \<Rightarrow> db \<Rightarrow> db" where
  "defer_job now job retryAt s =
     s\<lparr>build_jobs := update_where (\<lambda>j. bj_id j = job \<and> bj_state j = ''queued'')
        (\<lambda>j. j\<lparr>bj_next_attempt_at :=
           (case retryAt of None \<Rightarrow> now + milliseconds 250 | Some t \<Rightarrow> max t (now + milliseconds 250))\<rparr>)
        (build_jobs s)\<rparr>"

definition prepareClaimAccounting ::
    "time \<Rightarrow> string \<Rightarrow> string \<Rightarrow> build_request \<Rightarrow> db \<Rightarrow>
     (ledger_error, (resource_vector \<times> runtime_budget) option \<times> db) result" where
  "prepareClaimAccounting now project job request s =
     bind_result (resourceVectorFromRequest (Some request)) (\<lambda>resources.
     bind_result (runtimeBudgetSpecFromRequest (Some request)) (\<lambda>budget.
     bind_result (lockAndCheckClaimAdmission now project job resources budget s) (\<lambda>(allowed, retryAt).
     if allowed then Inr (Some (resources, budget), s)
     else Inr (None, defer_job now job retryAt s))))"

section \<open>Writing a claim\<close>

definition allocateAttemptFence :: "string \<Rightarrow> int \<Rightarrow> db \<Rightarrow> (ledger_error, int \<times> int) result" where
  "allocateAttemptFence job maxAttempts s =
     (let mine = filter (\<lambda>a. ba_job a = job) (build_attempts s);
          attemptNo = max_or_0 (map ba_no mine) + 1;
          fence = max_or_0 (map ba_fence mine) + 1 in
      if attemptNo > maxAttempts then Inl (Refused ''job exceeded max attempts'')
      else Inr (attemptNo, fence))"

definition phase_plan_item ::
    "string \<Rightarrow> string \<Rightarrow> string \<Rightarrow> time \<Rightarrow> string \<Rightarrow> string \<Rightarrow> int \<Rightarrow> bool \<Rightarrow> string list \<Rightarrow> phase_item" where
  "phase_plan_item project job attempt at i phase sequence ready required =
     \<lparr>pi_id = i, pi_project = project, pi_job = job, pi_attempt = attempt, pi_phase = phase,
      pi_sequence = sequence, pi_active = False, pi_state = (if ready then PReady else PBlocked),
      pi_required = required, pi_available_at = at, pi_ready_since = (if ready then Some at else None),
      pi_owner = [], pi_fence = 0, pi_lease = None, pi_started_at = None, pi_finished_at = None,
      pi_error = [], pi_created_at = at, pi_updated_at = at\<rparr>"

definition insertPhaseWorkPlan ::
    "(string \<Rightarrow> string) \<Rightarrow> string list \<Rightarrow> string \<Rightarrow> string \<Rightarrow> string \<Rightarrow> build_request \<Rightarrow> time \<Rightarrow> db \<Rightarrow>
     (ledger_error, db) result" where
  "insertPhaseWorkPlan sha256 ids project job attempt request at s =
     bind_result (map_error BadCapabilities (PhaseCapabilityRequirements sha256 (Some request) ''provision'')) (\<lambda>r1.
     bind_result (map_error BadCapabilities (PhaseCapabilityRequirements sha256 (Some request) ''build'')) (\<lambda>r2.
     bind_result (map_error BadCapabilities (PhaseCapabilityRequirements sha256 (Some request) ''verify'')) (\<lambda>r3.
     bind_result (map_error BadCapabilities (PhaseCapabilityRequirements sha256 (Some request) ''publish'')) (\<lambda>r4.
     Inr (s\<lparr>phase_items := phase_items s @
        [phase_plan_item project job attempt at (ids ! 0) ''provision'' 10 True r1,
         phase_plan_item project job attempt at (ids ! 1) ''build'' 20 False r2,
         phase_plan_item project job attempt at (ids ! 2) ''verify'' 30 False r3,
         phase_plan_item project job attempt at (ids ! 3) ''publish'' 40 False r4]\<rparr>)))))"

definition insert_attempt ::
    "time \<Rightarrow> string \<Rightarrow> string \<Rightarrow> string \<Rightarrow> int \<Rightarrow> int \<Rightarrow> db \<Rightarrow> db" where
  "insert_attempt now attempt job workerID attemptNo fence s =
     s\<lparr>build_attempts := build_attempts s @
        [\<lparr>ba_id = attempt, ba_job = job, ba_no = attemptNo, ba_state = ''claimed'', ba_worker = Some workerID,
          ba_fence = fence, ba_failure_class = [], ba_failure_detail = [], ba_finished_at = None,
          ba_created_at = now, ba_updated_at = now\<rparr>]\<rparr>"

definition insert_reservation :: "string \<Rightarrow> string \<Rightarrow> string \<Rightarrow> resource_vector \<Rightarrow> db \<Rightarrow> db" where
  "insert_reservation attempt project job v s =
     s\<lparr>reservations := reservations s @
        [\<lparr>rr_attempt = attempt, rr_project = project, rr_job = job, rr_vcpus = VCPUs v,
          rr_memory_mib = MemoryMiB v, rr_disk_gib = DiskGiB v, rr_phase = ''claimed'', rr_active = True,
          rr_released_at = None, rr_release_reason = []\<rparr>]\<rparr>"

definition insert_lease ::
    "string \<Rightarrow> string \<Rightarrow> string \<Rightarrow> int \<Rightarrow> lease_kind \<Rightarrow> time \<Rightarrow> db \<Rightarrow> db" where
  "insert_lease i workerID attempt fence kind expires s =
     s\<lparr>worker_leases := worker_leases s @
        [\<lparr>wl_id = i, wl_worker = workerID, wl_attempt = attempt, wl_fence = fence, wl_kind = kind,
          wl_expires = expires\<rparr>]\<rparr>"

definition claimed_status :: "time \<Rightarrow> string \<Rightarrow> int \<Rightarrow> string \<Rightarrow> build_status \<Rightarrow> build_status" where
  "claimed_status now attempt fence owner st =
     st\<lparr>bs_status := ''claimed'', bs_updated_at := now, bs_error := [], bs_attempt := attempt,
        bs_fence := fence, bs_lease_owner := owner\<rparr>"

definition mark_job_claimed :: "time \<Rightarrow> string \<Rightarrow> build_status \<Rightarrow> string \<Rightarrow> db \<Rightarrow> db" where
  "mark_job_claimed now job doc statusDigest s =
     s\<lparr>build_jobs := update_where (\<lambda>j. bj_id j = job)
        (\<lambda>j. j\<lparr>bj_state := ''claimed'', bj_snapshot := doc, bj_status_digest := statusDigest,
               bj_updated_at := now, bj_terminal_reason := [], bj_revision := bj_revision j + 1\<rparr>)
        (build_jobs s)\<rparr>"

definition persistClaim ::
    "(string \<Rightarrow> string) \<Rightarrow> (build_status \<Rightarrow> string) \<Rightarrow> time \<Rightarrow> claim_ids \<Rightarrow> build_job \<Rightarrow> resource_vector \<Rightarrow>
     runtime_budget \<Rightarrow> string \<Rightarrow> string \<Rightarrow> lease_kind \<Rightarrow> duration \<Rightarrow> int \<Rightarrow> int \<Rightarrow> db \<Rightarrow>
     (ledger_error, scheduler_claim \<times> db) result" where
  "persistClaim sha256 sd now ids j resources budget workerID name kind lease attemptNo fence s =
     (let s1 = insert_attempt now (id_attempt ids) (bj_id j) workerID attemptNo fence s;
          s2 = insert_reservation (id_attempt ids) (bj_project j) (bj_id j) resources s1;
          s3 = insertAttemptUsage (id_attempt ids) (bj_project j) (bj_id j) budget now s2 in
      bind_result (insertPhaseWorkPlan sha256 (id_items ids) (bj_project j) (bj_id j) (id_attempt ids)
                     (candidate_request j) now s3) (\<lambda>s4.
      let s5 = insert_lease (id_lease ids) workerID (id_attempt ids) fence kind
                 (min (now + lease) (now + seconds (MaxRuntimeSeconds budget))) s4;
          status = claimed_status now (id_attempt ids) fence name (candidate_status j) in
      bind_result (statusDocument sd (Some status)) (\<lambda>(doc, statusDigest).
      Inr (\<lparr>sc_request = candidate_request j, sc_status = status\<rparr>,
           insertJobEvent (bj_id j) ''job.claimed'' (mark_job_claimed now (bj_id j) doc statusDigest s5)))))"

definition claimNextTx ::
    "(string \<Rightarrow> string) \<Rightarrow> (build_status \<Rightarrow> string) \<Rightarrow> row_locks \<Rightarrow> time \<Rightarrow> claim_ids \<Rightarrow> string \<Rightarrow> string \<Rightarrow>
     lease_kind \<Rightarrow> duration \<Rightarrow> db \<Rightarrow> (ledger_error, scheduler_claim option \<times> db) result" where
  "claimNextTx sha256 sd busy now ids workerID name kind lease s =
     (case selectClaimCandidate busy now workerID s of
        (None, t) \<Rightarrow> Inr (None, t)
      | (Some c, t) \<Rightarrow>
        bind_result (prepareClaimAccounting now (bj_project (cc_job c)) (bj_id (cc_job c))
                       (candidate_request (cc_job c)) t) (\<lambda>(admitted, s1).
        case admitted of
          None \<Rightarrow> Inr (None, s1)
        | Some (resources, budget) \<Rightarrow>
          bind_result (allocateAttemptFence (bj_id (cc_job c)) (bj_max_attempts (cc_job c)) s1) (\<lambda>(no, fence).
          bind_result (persistClaim sha256 sd now ids (cc_job c) resources budget workerID name kind lease
                         no fence s1) (\<lambda>(claim, s2).
          let s3 = s2\<lparr>worker_decisions := worker_decisions s2 @
                [\<lparr>wd_kind = ''admission'', wd_job = bj_id (cc_job c), wd_phase = [], wd_worker = workerID,
                  wd_candidates = int (cc_workers c), wd_pressure = cc_pressure c,
                  wd_failures = int (cc_failures c)\<rparr>]\<rparr> in
          bind_result (recordFairDispatch now (cc_fairness c) ''admission'' (bj_created_at (cc_job c)) s3) (\<lambda>(_, s4).
          Inr (Some claim, insertJobEvent (bj_id (cc_job c)) ''scheduler.fair_dispatch'' s4))))))"

section \<open>Expired leases\<close>

definition schedulerRecoveryBatch :: nat where
  "schedulerRecoveryBatch = 32"

record expired_lease =
  el_lease :: string
  el_attempt :: string
  el_job :: string
  el_no :: int
  el_max :: int
  el_canceled :: bool
  el_kind :: lease_kind
  el_status :: build_status

definition expired_row :: "time \<Rightarrow> db \<Rightarrow> worker_lease \<Rightarrow> expired_lease option" where
  "expired_row now s l =
     (if wl_expires l > now then None
      else case lookup_by ba_id (wl_attempt l) (build_attempts s) of
        None \<Rightarrow> None
      | Some a \<Rightarrow>
        (case lookup_by bj_id (ba_job a) (build_jobs s) of
           None \<Rightarrow> None
         | Some j \<Rightarrow>
           if isLedgerTerminal (bj_state j) then None
           else Some \<lparr>el_lease = wl_id l, el_attempt = ba_id a, el_job = bj_id j, el_no = ba_no a,
                      el_max = bj_max_attempts j, el_canceled = (bj_cancel_requested_at j \<noteq> None),
                      el_kind = wl_kind l, el_status = bj_snapshot j\<rparr>))"

definition loadExpiredLeases :: "row_locks \<Rightarrow> time \<Rightarrow> nat \<Rightarrow> db \<Rightarrow> expired_lease list" where
  "loadExpiredLeases busy now limit s =
     take limit (List.map_filter (expired_row now s)
       (sort_key wl_expires (filter (\<lambda>l. \<not> lock_lease busy (wl_id l)) (worker_leases s))))"

definition expiredLeaseOutcome :: "expired_lease \<Rightarrow> string \<times> string" where
  "expiredLeaseOutcome row =
     (if el_canceled row then (''canceled'', ''job canceled while executor lease was active'')
      else if el_no row \<ge> el_max row
      then (''failed'', ''executor lease expired and maximum attempts were exhausted'')
      else (''queued'', ''previous executor lease expired; job queued for a fenced retry''))"

definition leaseExpiryResult :: "string \<Rightarrow> expiry_result option" where
  "leaseExpiryResult st =
     (if st = ''queued'' then Some ResRequeued
      else if st = ''failed'' then Some ResFailed
      else if st = ''canceled'' then Some ResCanceled
      else None)"

definition expiry_kind_of :: "lease_kind \<Rightarrow> expiry_kind" where
  "expiry_kind_of k = (case k of AttemptLease \<Rightarrow> ExpAttempt | AdmissionLease \<Rightarrow> ExpAdmission)"

text \<open>The counters of a batch: a map from counter keys to counts, in first-use order.\<close>

type_synonym expiry_key = "expiry_kind \<times> expiry_result"
type_synonym expiry_tally = "(expiry_key \<times> int) list"

fun tally_add :: "expiry_key \<Rightarrow> int \<Rightarrow> expiry_tally \<Rightarrow> expiry_tally" where
  "tally_add k n [] = [(k, n)]"
| "tally_add k n ((k', m) # t) = (if k' = k then (k', m + n) # t else (k', m) # tally_add k n t)"

definition validLeaseExpiryCounter :: "expiry_kind \<Rightarrow> expiry_result \<Rightarrow> bool" where
  "validLeaseExpiryCounter k r =
     (if k = ExpPhase then r = ResReclaimed else r \<in> {ResRequeued, ResFailed, ResCanceled})"

definition kind_text :: "expiry_kind \<Rightarrow> string" where
  "kind_text k = (case k of ExpAttempt \<Rightarrow> ''attempt'' | ExpAdmission \<Rightarrow> ''admission'' | ExpPhase \<Rightarrow> ''phase'')"

definition result_text :: "expiry_result \<Rightarrow> string" where
  "result_text r = (case r of ResRequeued \<Rightarrow> ''requeued'' | ResFailed \<Rightarrow> ''failed''
     | ResCanceled \<Rightarrow> ''canceled'' | ResReclaimed \<Rightarrow> ''reclaimed'')"

definition recordLeaseExpiry :: "expiry_kind \<Rightarrow> expiry_result \<Rightarrow> int \<Rightarrow> db \<Rightarrow> (ledger_error, db) result" where
  "recordLeaseExpiry k r n s =
     (if \<not> validLeaseExpiryCounter k r \<or> n \<le> 0 then Inl (Refused ''invalid lease expiry counter update'')
      else if count_where (\<lambda>c. ec_kind c = k \<and> ec_result c = r) (expiry_counters s) \<noteq> 1
      then Inl (Refused ''lease expiry counter is missing'')
      else Inr (s\<lparr>expiry_counters := update_where (\<lambda>c. ec_kind c = k \<and> ec_result c = r)
                   (\<lambda>c. c\<lparr>ec_total := ec_total c + n\<rparr>) (expiry_counters s)\<rparr>))"

definition flushLeaseExpiries :: "expiry_tally \<Rightarrow> db \<Rightarrow> (ledger_error, db) result" where
  "flushLeaseExpiries tally s =
     fold_result (\<lambda>((k, r), n). recordLeaseExpiry k r n)
       (sort_key (\<lambda>((k, r), n). (kind_text k, result_text r)) tally) s"

definition withDeferredLeaseExpiries ::
    "(expiry_tally \<Rightarrow> db \<Rightarrow> (ledger_error, ('a \<times> expiry_tally) \<times> db) result) \<Rightarrow> db \<Rightarrow>
     (ledger_error, 'a \<times> db) result" where
  "withDeferredLeaseExpiries body s =
     bind_result (body [] s) (\<lambda>((v, tally), t).
     bind_result (flushLeaseExpiries tally t) (\<lambda>u. Inr (v, u)))"

definition expire_attempt :: "string \<Rightarrow> string \<Rightarrow> time \<Rightarrow> db \<Rightarrow> db" where
  "expire_attempt attempt reason at s =
     s\<lparr>build_attempts := update_where (\<lambda>a. ba_id a = attempt)
        (\<lambda>a. a\<lparr>ba_state := ''expired'', ba_failure_class := ''lease_expired'', ba_failure_detail := reason,
               ba_finished_at := Some at, ba_updated_at := at\<rparr>) (build_attempts s)\<rparr>"

definition delete_lease :: "string \<Rightarrow> db \<Rightarrow> db" where
  "delete_lease i s = s\<lparr>worker_leases := filter (\<lambda>l. wl_id l \<noteq> i) (worker_leases s)\<rparr>"

definition requeue_job ::
    "string \<Rightarrow> string \<Rightarrow> string \<Rightarrow> build_status \<Rightarrow> string \<Rightarrow> time \<Rightarrow> db \<Rightarrow> db" where
  "requeue_job job st reason doc statusDigest at s =
     s\<lparr>build_jobs := update_where (\<lambda>j. bj_id j = job)
        (\<lambda>j. j\<lparr>bj_state := st, bj_snapshot := doc, bj_status_digest := statusDigest,
               bj_terminal_reason := reason, bj_updated_at := at,
               bj_completed_at := (if st = ''failed'' \<or> st = ''canceled'' then Some at else None),
               bj_next_attempt_at := at, bj_revision := bj_revision j + 1\<rparr>) (build_jobs s)\<rparr>"

definition recoverExpiredLease ::
    "(build_status \<Rightarrow> string) \<Rightarrow> time \<Rightarrow> expired_lease \<Rightarrow> expiry_tally \<times> db \<Rightarrow>
     (ledger_error, expiry_tally \<times> db) result" where
  "recoverExpiredLease sd now row ts =
     (case (ts, expiredLeaseOutcome row) of ((tally, s), (st, reason)) \<Rightarrow>
      bind_result (statusDocument sd (Some ((el_status row)\<lparr>bs_status := st, bs_error := reason,
          bs_updated_at := now, bs_attempt := [], bs_fence := 0, bs_lease_owner := []\<rparr>))) (\<lambda>(doc, dg).
      bind_result (settleAttemptUsage (el_attempt row) ''lease_expired'' ''expired'' now
          (expire_attempt (el_attempt row) reason now s)) (\<lambda>s1.
      let s2 = release_attempt (el_attempt row) ''lease_expired'' now (delete_lease (el_lease row) s1);
          s3 = insertJobEvent (el_job row) ''job.lease_expired''
                 (requeue_job (el_job row) st reason doc dg now s2) in
      case leaseExpiryResult st of
        None \<Rightarrow> Inl (Refused ''invalid lease expiry counter update'')
      | Some r \<Rightarrow>
        if \<not> validLeaseExpiryCounter (expiry_kind_of (el_kind row)) r
        then Inl (Refused ''invalid lease expiry counter update'')
        else Inr (tally_add (expiry_kind_of (el_kind row), r) 1 tally, s3))))"

definition recoverExpiredTx ::
    "(build_status \<Rightarrow> string) \<Rightarrow> row_locks \<Rightarrow> time \<Rightarrow> nat \<Rightarrow> db \<Rightarrow> (ledger_error, nat \<times> db) result" where
  "recoverExpiredTx sd busy now limit s =
     (let expired = loadExpiredLeases busy now limit s in
      bind_result (fold_result (recoverExpiredLease sd now) expired ([], s)) (\<lambda>(tally, s1).
      bind_result (flushLeaseExpiries tally s1) (\<lambda>s2. Inr (length expired, s2))))"

section \<open>Polling\<close>

text \<open>The result of the transaction with the committed database, and the cache, which keeps what the
  registration wrote into it even when the transaction rolls back.\<close>

definition ClaimNext ::
    "(string \<Rightarrow> string) \<Rightarrow> (build_status \<Rightarrow> string) \<Rightarrow> row_locks \<Rightarrow> time \<Rightarrow> time \<Rightarrow> claim_ids \<Rightarrow> host_sample \<Rightarrow> string \<Rightarrow>
     duration \<Rightarrow> string list option \<Rightarrow> worker_cache \<Rightarrow> db \<Rightarrow>
     (ledger_error, scheduler_claim option \<times> db) result \<times> worker_cache" where
  "ClaimNext sha256 sd busy wall now ids sample name lease executorCapabilities cache s =
     (if name = [] then (Inl (Refused ''stable worker name is required''), cache)
      else if lease \<le> 0 then (Inl (Refused ''lease duration must be positive''), cache)
      else case NormalizeExecutorCapabilities
             (case executorCapabilities of None \<Rightarrow> [''phase:provision'', ''context:legacy''] | Some c \<Rightarrow> c) of
        Inl e \<Rightarrow> (Inl (BadCapabilities e), cache)
      | Inr capabilities \<Rightarrow>
        (case schedulerWorker wall now (id_worker ids) name capabilities sample cache s of
           (workerID, cache', s1) \<Rightarrow>
             (bind_result (recoverExpiredTx sd busy now schedulerRecoveryBatch s1) (\<lambda>(_, s2).
              claimNextTx sha256 sd busy now ids workerID name (schedulerLeaseKind capabilities) lease s2),
              cache')))"

section \<open>Holding a claim\<close>

definition renewable :: "time \<Rightarrow> build_status \<Rightarrow> db \<Rightarrow> worker_lease \<Rightarrow> bool" where
  "renewable now st s l =
     (wl_attempt l = bs_attempt st \<and> wl_fence l = bs_fence st \<and> wl_expires l > now \<and>
      list_ex (\<lambda>a. ba_id a = bs_attempt st \<and> ba_job a = bs_job st) (build_attempts s) \<and>
      (case lookup_by w_id (wl_worker l) (workers s) of None \<Rightarrow> False | Some w \<Rightarrow> w_name w = bs_lease_owner st) \<and>
      (case lookup_by au_attempt (bs_attempt st) (attempt_usage s) of
         None \<Rightarrow> False | Some u \<Rightarrow> au_active u \<and> runtime_end u > now))"

definition RenewClaim :: "time \<Rightarrow> build_status option \<Rightarrow> duration \<Rightarrow> db \<Rightarrow> (ledger_error, unit \<times> db) result" where
  "RenewClaim now status lease s =
     (case status of
        None \<Rightarrow> Inl (Refused ''missing durable claim identity'')
      | Some st \<Rightarrow>
        if bs_attempt st = [] \<or> bs_fence st \<le> 0 \<or> bs_lease_owner st = []
        then Inl (Refused ''missing durable claim identity'')
        else if count_where (renewable now st s) (worker_leases s) \<noteq> 1
        then Inl (Refused ''durable claim is stale, expired, or no longer owned'')
        else Inr ((), s\<lparr>worker_leases := update_where (renewable now st s)
               (\<lambda>l. l\<lparr>wl_expires := min (runtime_end (the (lookup_by au_attempt (bs_attempt st) (attempt_usage s))))
                                      (now + lease)\<rparr>) (worker_leases s)\<rparr>))"

definition CheckClaim :: "time \<Rightarrow> build_status \<Rightarrow> db \<Rightarrow> (ledger_error, unit) result" where
  "CheckClaim now st s =
     (if list_ex (renewable now st s) (worker_leases s) \<and>
         (case find (\<lambda>a. ba_id a = bs_attempt st \<and> ba_job a = bs_job st) (build_attempts s) of
            None \<Rightarrow> False
          | Some a \<Rightarrow> (case lookup_by bj_id (ba_job a) (build_jobs s) of
                        None \<Rightarrow> False | Some j \<Rightarrow> \<not> isLedgerTerminal (bj_state j)))
      then Inr () else Inl (Refused ''durable claim fence is not active''))"

text \<open>The newest attempt of a job with an unexpired lease, reattached to the stored status.\<close>

definition live_attempt :: "time \<Rightarrow> db \<Rightarrow> string \<Rightarrow> build_attempt option" where
  "live_attempt now s job =
     order_limit1 (\<lambda>a. - ba_no a)
       (filter (\<lambda>a. ba_job a = job \<and>
                    list_ex (\<lambda>l. wl_attempt l = ba_id a \<and> wl_expires l > now) (worker_leases s))
          (build_attempts s))"

definition visible_status :: "time \<Rightarrow> db \<Rightarrow> build_job \<Rightarrow> build_status" where
  "visible_status now s j =
     (let base = candidate_status j in
      case live_attempt now s (bj_id j) of
        None \<Rightarrow> base\<lparr>bs_attempt := [], bs_fence := 0, bs_lease_owner := []\<rparr>
      | Some a \<Rightarrow>
          base\<lparr>bs_attempt := ba_id a, bs_fence := ba_fence a,
               bs_lease_owner := (case ba_worker a of
                  None \<Rightarrow> []
                | Some i \<Rightarrow> (case lookup_by w_id i (workers s) of None \<Rightarrow> [] | Some w \<Rightarrow> w_name w))\<rparr>)"

definition LoadVisible :: "time \<Rightarrow> db \<Rightarrow> (string \<times> build_status) list" where
  "LoadVisible now s =
     map (\<lambda>j. (bj_id j, visible_status now s j))
       (sort_key (\<lambda>j. (bj_created_at j, bj_id j)) (filter bj_visible (build_jobs s)))"

section \<open>Cancel and retry\<close>

definition cancel_rows :: "string \<Rightarrow> time \<Rightarrow> db \<Rightarrow> db" where
  "cancel_rows job at s =
     s\<lparr>worker_leases := filter (\<lambda>l. \<not> list_ex (\<lambda>a. ba_job a = job \<and> ba_id a = wl_attempt l) (build_attempts s))
          (worker_leases s),
       reservations := update_where (\<lambda>r. rr_job r = job \<and> rr_active r) (release_reservation at ''job_canceled'')
          (reservations s),
       phase_items := update_where (\<lambda>w. pi_job w = job \<and> item_open w) (cancel_item at ''job_canceled'')
          (phase_items s),
       artifact_generations := update_where
          (\<lambda>r. list_ex (\<lambda>b. ar_job b = job \<and> ar_attempt b = ar_attempt r) (artifact_budgets s) \<and> ar_active r)
          (\<lambda>r. r\<lparr>ar_active := False, ar_reason := ''job_canceled''\<rparr>) (artifact_generations s),
       artifact_budgets := update_where (\<lambda>r. ar_job r = job \<and> ar_active r)
          (\<lambda>r. r\<lparr>ar_active := False, ar_bytes := 0, ar_reason := ''job_canceled''\<rparr>) (artifact_budgets s)\<rparr>"

definition cancel_job_row :: "build_status \<Rightarrow> string \<Rightarrow> string \<Rightarrow> string \<Rightarrow> time \<Rightarrow> db \<Rightarrow> db" where
  "cancel_job_row doc statusDigest job reason at s =
     s\<lparr>build_jobs := update_where (\<lambda>j. bj_id j = job)
          (\<lambda>j. j\<lparr>bj_state := ''canceled'', bj_cancel_requested_at := Some at, bj_terminal_reason := reason,
                 bj_completed_at := Some at, bj_updated_at := at, bj_snapshot := doc,
                 bj_status_digest := statusDigest, bj_revision := bj_revision j + 1\<rparr>) (build_jobs s),
       build_attempts := update_where (\<lambda>a. ba_job a = job \<and> ba_finished_at a = None)
          (\<lambda>a. a\<lparr>ba_state := ''canceled'', ba_failure_class := ''canceled'', ba_failure_detail := reason,
                 ba_finished_at := Some at, ba_updated_at := at\<rparr>) (build_attempts s)\<rparr>"

definition CancelJob ::
    "(build_status \<Rightarrow> string) \<Rightarrow> time \<Rightarrow> string \<Rightarrow> string \<Rightarrow> db \<Rightarrow> (ledger_error, build_status \<times> db) result" where
  "CancelJob sd now job reason s =
     (case find (\<lambda>j. bj_id j = job \<and> bj_visible j) (build_jobs s) of
        None \<Rightarrow> Inl (Missing ''job'')
      | Some j \<Rightarrow>
        if isLedgerTerminal (bj_state j) then Inl (Refused ''job is already terminal'')
        else
          let status = (bj_snapshot j)\<lparr>bs_status := ''canceled'', bs_error := reason, bs_updated_at := now,
                          bs_attempt := [], bs_fence := 0, bs_lease_owner := []\<rparr> in
          bind_result (statusDocument sd (Some status)) (\<lambda>(doc, dg).
          bind_result (settleJobAttemptUsage job ''job_canceled'' ''canceled'' now
                         (cancel_job_row doc dg job reason now s)) (\<lambda>s1.
          Inr (status, insertJobEvent job ''job.canceled''
                 (revokeWorkerGatewayJob job ''job_canceled'' now (cancel_rows job now s1))))))"

definition lockAndCheckRetryAdmission ::
    "time \<Rightarrow> string \<Rightarrow> string \<Rightarrow> build_request \<Rightarrow> db \<Rightarrow> (ledger_error, unit) result" where
  "lockAndCheckRetryAdmission now project job request s =
     (case lookup_by pp_project project (project_policies s) of
        None \<Rightarrow> Inl (Missing ''lock project retry policy'')
      | Some p \<Rightarrow>
        (case suspension_error now p of
           Some e \<Rightarrow> Inl e
         | None \<Rightarrow>
           bind_result (checkResourceRequestLimits (Some request) (pp_max_vcpus p) (pp_max_memory_mib p)
                          (pp_max_disk_gib p)) (\<lambda>_.
           bind_result (checkRuntimeRequestLimits (Some request) (pp_max_build_seconds p)
                          (pp_max_cloud_cost p)) (\<lambda>_.
           let queued = int (count_where (\<lambda>j. bj_project j = project \<and> bj_id j \<noteq> job \<and> bj_visible j \<and>
                                              bj_state j = ''queued'') (build_jobs s)) in
           if queued \<ge> pp_max_queued_jobs p
           then Inl (Admission ''queued_limit_reached'' (pp_max_queued_jobs p) queued (seconds 30))
           else Inr ()))))"

definition requeue_retry :: "build_status \<Rightarrow> string \<Rightarrow> string \<Rightarrow> time \<Rightarrow> db \<Rightarrow> db" where
  "requeue_retry doc statusDigest job at s =
     s\<lparr>build_jobs := update_where (\<lambda>j. bj_id j = job)
        (\<lambda>j. j\<lparr>bj_state := ''queued'', bj_cancel_requested_at := None, bj_terminal_reason := [],
               bj_completed_at := None, bj_next_attempt_at := at, bj_updated_at := at, bj_snapshot := doc,
               bj_status_digest := statusDigest, bj_revision := bj_revision j + 1\<rparr>) (build_jobs s)\<rparr>"

definition RetryJob ::
    "(build_status \<Rightarrow> string) \<Rightarrow> time \<Rightarrow> string \<Rightarrow> db \<Rightarrow> (ledger_error, build_status \<times> db) result" where
  "RetryJob sd now job s =
     (case find (\<lambda>j. bj_id j = job \<and> bj_visible j) (build_jobs s) of
        None \<Rightarrow> Inl (Missing ''job'')
      | Some j \<Rightarrow>
        if bj_state j \<noteq> ''failed'' \<and> bj_state j \<noteq> ''canceled''
        then Inl (Refused ''only failed or canceled jobs can retry'')
        else if int (count_where (\<lambda>a. ba_job a = job) (build_attempts s)) \<ge> bj_max_attempts j
        then Inl (Refused ''job exhausted its attempts'')
        else
          bind_result (lockAndCheckRetryAdmission now (bj_project j) job (bj_request j) s) (\<lambda>_.
          let status = (bj_snapshot j)\<lparr>bs_status := ''queued'', bs_error := [], bs_failed_stage := [],
                          bs_updated_at := now, bs_attempt := [], bs_fence := 0, bs_lease_owner := []\<rparr> in
          bind_result (statusDocument sd (Some status)) (\<lambda>(doc, dg).
          Inr (status, insertJobEvent job ''job.retry_queued'' (requeue_retry doc dg job now s)))))"

section \<open>Stale workers\<close>

definition staleWorkerPruneBatch :: nat where
  "staleWorkerPruneBatch = 256"

definition stale_worker :: "time \<Rightarrow> db \<Rightarrow> worker \<Rightarrow> bool" where
  "stale_worker before s w =
     ((case w_last_seen w of None \<Rightarrow> True | Some t \<Rightarrow> t < before) \<and>
      \<not> list_ex (\<lambda>l. wl_worker l = w_id w) (worker_leases s))"

definition seen_key :: "worker \<Rightarrow> bool \<times> time \<times> string" where
  "seen_key w = (case w_last_seen w of None \<Rightarrow> (False, 0, w_id w) | Some t \<Rightarrow> (True, t, w_id w))"

definition prune_ids :: "time \<Rightarrow> (string \<Rightarrow> bool) \<Rightarrow> db \<Rightarrow> string list" where
  "prune_ids before locked s =
     map w_id (take staleWorkerPruneBatch
       (sort_key seen_key (filter (\<lambda>w. stale_worker before s w \<and> \<not> locked (w_id w)) (workers s))))"

text \<open>Deleting a worker removes its scoring evidence first and clears it from its attempts
  (\<^verbatim>\<open>ON DELETE SET NULL\<close>).\<close>

definition prune_deleted :: "string list \<Rightarrow> db \<Rightarrow> worker \<Rightarrow> bool" where
  "prune_deleted ids s w = (w_id w \<in> set ids \<and> \<not> list_ex (\<lambda>l. wl_worker l = w_id w) (worker_leases s))"

definition prune_batch :: "string list \<Rightarrow> db \<Rightarrow> db" where
  "prune_batch ids s =
     (let gone = map w_id (filter (prune_deleted ids s) (workers s)) in
      s\<lparr>worker_decisions := filter (\<lambda>d. wd_worker d \<notin> set ids) (worker_decisions s),
        workers := filter (\<lambda>w. \<not> prune_deleted ids s w) (workers s),
        build_attempts := update_where
          (\<lambda>a. case ba_worker a of None \<Rightarrow> False | Some i \<Rightarrow> i \<in> set gone)
          (\<lambda>a. a\<lparr>ba_worker := None\<rparr>) (build_attempts s)\<rparr>)"

lemma prune_batch_fields [simp]:
  "workers (prune_batch ids s) = filter (\<lambda>w. \<not> prune_deleted ids s w) (workers s)"
  "worker_leases (prune_batch ids s) = worker_leases s"
  by (simp_all add: prune_batch_def Let_def)

function PruneStaleWorkers :: "time \<Rightarrow> (nat \<Rightarrow> string \<Rightarrow> bool) \<Rightarrow> nat \<Rightarrow> db \<Rightarrow> nat \<times> db" where
  "PruneStaleWorkers before locked n s =
     (let ids = prune_ids before (locked n) s; pruned = count_where (prune_deleted ids s) (workers s);
          t = (if ids = [] then s else prune_batch ids s) in
      if length ids < staleWorkerPruneBatch then (pruned, t)
      else (case PruneStaleWorkers before locked (Suc n) t of (m, u) \<Rightarrow> (pruned + m, u)))"
  by pat_completeness auto
termination
proof (relation "measure (\<lambda>(before, locked, n, s). length (workers s))", simp)
  fix before :: time and locked :: "nat \<Rightarrow> string \<Rightarrow> bool" and n and s :: db and ids pruned t
  assume ids: "ids = prune_ids before (locked n) s"
    and t: "t = (if ids = [] then s else prune_batch ids s)"
    and full: "\<not> length ids < staleWorkerPruneBatch"
  from full have ne: "ids \<noteq> []" by (auto simp: staleWorkerPruneBatch_def)
  then obtain w where w: "w \<in> set (workers s)" "stale_worker before s w" "w_id w \<in> set ids"
    unfolding ids prune_ids_def by (cases "sort_key seen_key (filter (\<lambda>w. stale_worker before s w \<and> \<not> locked n (w_id w)) (workers s))")
      (force dest: arg_cong[of _ _ set] simp: staleWorkerPruneBatch_def)+
  then have "prune_deleted ids s w" by (simp add: prune_deleted_def stale_worker_def)
  then have "length (filter (\<lambda>w. \<not> prune_deleted ids s w) (workers s)) < length (workers s)"
    using w(1) by (intro length_filter_less) auto
  then show "((before, locked, Suc n, t), before, locked, n, s)
      \<in> measure (\<lambda>(before, locked, n, s). length (workers s))"
    by (simp add: t ne)
qed

declare PruneStaleWorkers.simps [simp del]

section \<open>The operator view\<close>

record scheduler_counts =
  QueuedTasks :: nat
  UnschedulableTasks :: nat
  RunningTasks :: nat
  OldestQueuedAt :: "time option"
  ActiveLeases :: nat
  ExpiredLeases :: nat
  OldestLeaseExpires :: "time option"
  RegisteredWorkers :: nat
  ActiveWorkers :: nat
  CapabilityWorkers :: nat
  StaleWorkers :: nat
  AttemptsLastHour :: nat

definition RuntimeStatus :: "time \<Rightarrow> db \<Rightarrow> scheduler_counts" where
  "RuntimeStatus now s =
     (let visible = filter bj_visible (build_jobs s); queued = filter (\<lambda>j. bj_state j = ''queued'') visible in
      \<lparr>QueuedTasks = length queued,
       UnschedulableTasks = count_where
         (\<lambda>j. \<not> list_ex (worker_serves now (bj_min_protocol j) (bj_required j)) (workers s)) queued,
       RunningTasks = count_where (\<lambda>j. active_state (bj_state j)) visible,
       OldestQueuedAt = oldest (map bj_created_at queued),
       ActiveLeases = count_where (\<lambda>l. wl_expires l > now) (worker_leases s),
       ExpiredLeases = count_where (\<lambda>l. wl_expires l \<le> now) (worker_leases s),
       OldestLeaseExpires = oldest (map wl_expires (filter (\<lambda>l. wl_expires l > now) (worker_leases s))),
       RegisteredWorkers = length (workers s),
       ActiveWorkers = count_where (worker_fresh now 45) (workers s),
       CapabilityWorkers = count_where (\<lambda>w. worker_fresh now 45 w \<and> w_labels w \<noteq> []) (workers s),
       StaleWorkers = count_where
         (\<lambda>w. case w_last_seen w of None \<Rightarrow> True | Some t \<Rightarrow> t \<le> now - seconds 45) (workers s),
       AttemptsLastHour = count_where (\<lambda>a. ba_created_at a > now - seconds 3600) (build_attempts s)\<rparr>)"

definition readLeaseExpiryStatus :: "db \<Rightarrow> expiry_kind \<Rightarrow> expiry_result \<Rightarrow> int" where
  "readLeaseExpiryStatus s k r =
     sum_list (map ec_total (filter (\<lambda>c. ec_kind c = k \<and> ec_result c = r) (expiry_counters s)))"

end
