(* ===== verification/Phase_Work.thy ===== *)
theory Phase_Work
  imports Scheduler
begin

text \<open>
  \<^verbatim>\<open>src/internal/persistence/phase_work.go\<close>: the durable plan of an attempt. Its four phases are claimed
  one after the other by independent executors, each claim with its own fence and lease; a claim whose
  lease ran out is offered again, and finishing a phase offers the next one or cancels the rest.
\<close>

section \<open>Claims\<close>

record phase_claim =
  pw_id :: string
  pw_project :: string
  pw_job :: string
  pw_attempt :: string
  pw_attempt_fence :: int
  pw_phase :: string
  pw_sequence :: int
  pw_fence :: int
  pw_owner :: string
  pw_lease :: time
  pw_request :: build_request
  pw_status :: build_status

definition phaseWorkState :: "string \<Rightarrow> string" where
  "phaseWorkState phase =
     (if phase = ''provision'' then ''provisioning''
      else if phase = ''build'' then ''building''
      else if phase = ''verify'' then ''verifying''
      else if phase = ''publish'' then ''publishing''
      else [])"

section \<open>The metadata fence\<close>

text \<open>\<^verbatim>\<open>src/internal/persistence/runtime_metadata.go\<close>: the exact live attempt, or with \<open>allowTerminal\<close> an attempt
  whose job has ended. Without a lease the comparison is \<^verbatim>\<open>NULL\<close>, which is not true.\<close>

definition metadata_live :: "time \<Rightarrow> build_status \<Rightarrow> build_attempt \<Rightarrow> db \<Rightarrow> bool" where
  "metadata_live now st a s =
     (case lookup_by wl_attempt (ba_id a) (worker_leases s) of
        None \<Rightarrow> False
      | Some l \<Rightarrow>
        wl_expires l > now \<and> wl_fence l = bs_fence st \<and> ba_fence a = bs_fence st \<and>
        (case lookup_by w_id (wl_worker l) (workers s) of
           None \<Rightarrow> False | Some w \<Rightarrow> w_name w = bs_lease_owner st))"

definition validateMetadataFence ::
    "time \<Rightarrow> build_status option \<Rightarrow> bool \<Rightarrow> db \<Rightarrow> (ledger_error, string \<times> string) result" where
  "validateMetadataFence now status allowTerminal s =
     (case status of
        None \<Rightarrow> Inl (Refused ''runtime metadata requires a build status'')
      | Some st \<Rightarrow>
        if bs_attempt st = [] \<or> bs_fence st \<le> 0 \<or> bs_lease_owner st = []
        then Inl (Refused ''runtime metadata requires an active durable attempt fence'')
        else case find (\<lambda>a. ba_id a = bs_attempt st \<and> ba_job a = bs_job st) (build_attempts s) of
          None \<Rightarrow> Inl (Refused ''runtime metadata fence is stale or expired'')
        | Some a \<Rightarrow>
          (case lookup_by bj_id (ba_job a) (build_jobs s) of
             None \<Rightarrow> Inl (Refused ''runtime metadata fence is stale or expired'')
           | Some j \<Rightarrow>
             if metadata_live now st a s \<or>
                (allowTerminal \<and> ba_fence a = bs_fence st \<and> isLedgerTerminal (bj_state j) \<and>
                 isLedgerTerminal (ba_state a))
             then Inr (bs_job st, bs_attempt st)
             else Inl (Refused ''runtime metadata fence is stale or expired'')))"

section \<open>Activating a plan\<close>

definition shadow_item :: "string \<Rightarrow> phase_item \<Rightarrow> bool" where
  "shadow_item attempt w =
     (pi_attempt w = attempt \<and> \<not> pi_active w \<and>
      (pi_phase w = ''provision'' \<and> pi_state w = PReady \<or> pi_phase w \<noteq> ''provision'' \<and> pi_state w = PBlocked))"

definition ActivatePhasePlan :: "time \<Rightarrow> build_status option \<Rightarrow> db \<Rightarrow> (ledger_error, unit \<times> db) result" where
  "ActivatePhasePlan now status s =
     bind_result (validateMetadataFence now status False s) (\<lambda>(_, attempt).
     case active_reservation attempt s of
       None \<Rightarrow> Inl (Missing ''lock phase-plan reservation'')
     | Some r \<Rightarrow>
       if rr_phase r \<noteq> ''claimed'' \<or> bs_status (the status) \<noteq> ''claimed''
       then Inl (Refused ''phase plan can only activate at the claimed boundary'')
       else if count_where (shadow_item attempt) (phase_items s) \<noteq> 4
       then Inl (Refused ''phase work plan is incomplete or already activated'')
       else Inr ((), s\<lparr>phase_items := update_where (shadow_item attempt)
              (\<lambda>w. w\<lparr>pi_active := True,
                     pi_ready_since := (if pi_state w = PReady
                        then Some (case pi_ready_since w of None \<Rightarrow> now | Some t \<Rightarrow> t) else pi_ready_since w),
                     pi_updated_at := now\<rparr>) (phase_items s)\<rparr>))"

section \<open>Claiming a phase\<close>

definition phase_lease_expired :: "time \<Rightarrow> phase_item \<Rightarrow> bool" where
  "phase_lease_expired now w =
     (pi_state w = PClaimed \<and> (case pi_lease w of None \<Rightarrow> False | Some t \<Rightarrow> t \<le> now))"

definition reclaim_item :: "time \<Rightarrow> phase_item \<Rightarrow> phase_item" where
  "reclaim_item now w =
     w\<lparr>pi_state := PReady, pi_owner := [], pi_lease := None, pi_available_at := now, pi_updated_at := now,
       pi_ready_since := Some (case pi_ready_since w of None \<Rightarrow> now | Some t \<Rightarrow> t),
       pi_error := ''phase lease expired and was reclaimed''\<rparr>"

definition phase_worker :: "time \<Rightarrow> db \<Rightarrow> worker \<Rightarrow> build_job \<Rightarrow> phase_item \<Rightarrow> worker \<Rightarrow> bool" where
  "phase_worker now s executor j w candidate =
     (worker_fresh now 5 candidate \<and> w_protocol candidate \<ge> bj_min_protocol j \<and>
      has_labels candidate (pi_required w) \<and>
      \<not> list_ex (\<lambda>b. pi_owner b = w_name candidate \<and> pi_state b = PClaimed \<and> expires_after (pi_lease b) now)
           (phase_items s) \<and>
      same_kind executor candidate)"

definition recent_phase_failures :: "time \<Rightarrow> db \<Rightarrow> worker \<Rightarrow> nat" where
  "recent_phase_failures now s w =
     count_where (\<lambda>b. pi_owner b = w_name w \<and> pi_state b = PFailed \<and> pi_updated_at b > now - seconds 3600)
       (phase_items s)"

record phase_candidate =
  ph_item :: phase_item
  ph_job :: build_job
  ph_fence :: int
  ph_owner :: string
  ph_workers :: nat

definition phase_candidate_of ::
    "time \<Rightarrow> db \<Rightarrow> worker \<Rightarrow> string list \<Rightarrow> phase_item \<Rightarrow> phase_candidate option" where
  "phase_candidate_of now s executor phases w =
     (if \<not> phase_servable now s executor phases w then None
      else case (lookup_by ba_id (pi_attempt w) (build_attempts s), lookup_by bj_id (pi_job w) (build_jobs s),
                 lookup_by wl_attempt (pi_attempt w) (worker_leases s)) of
        (Some a, Some j, Some l) \<Rightarrow>
          (case lookup_by w_id (wl_worker l) (workers s) of
             None \<Rightarrow> None
           | Some owner \<Rightarrow>
             if phase_worker now s executor j w executor
             then Some \<lparr>ph_item = w, ph_job = j, ph_fence = ba_fence a, ph_owner = w_name owner,
                        ph_workers = count_where (phase_worker now s executor j w) (workers s)\<rparr>
             else None)
      | _ \<Rightarrow> None)"

definition select_phase_item ::
    "row_locks \<Rightarrow> time \<Rightarrow> db \<Rightarrow> worker \<Rightarrow> string list \<Rightarrow> string \<Rightarrow> phase_candidate option" where
  "select_phase_item busy now s executor phases project =
     order_limit1
       (\<lambda>c. (\<not> phase_replay s (ph_item c), pi_available_at (ph_item c), pi_created_at (ph_item c),
             pi_id (ph_item c)))
       (List.map_filter (phase_candidate_of now s executor phases)
          (filter (\<lambda>w. pi_project w = project \<and> \<not> lock_item busy (pi_id w)) (phase_items s)))"

definition claim_item :: "time \<Rightarrow> string \<Rightarrow> int \<Rightarrow> time \<Rightarrow> phase_item \<Rightarrow> phase_item" where
  "claim_item now owner fence expires w =
     w\<lparr>pi_state := PClaimed, pi_owner := owner, pi_fence := fence, pi_lease := Some expires,
       pi_started_at := Some (case pi_started_at w of None \<Rightarrow> now | Some t \<Rightarrow> t),
       pi_updated_at := now, pi_error := []\<rparr>"

definition phase_claim_of :: "string \<Rightarrow> time \<Rightarrow> phase_candidate \<Rightarrow> phase_claim" where
  "phase_claim_of owner expires c =
     (let w = ph_item c; j = ph_job c in
      \<lparr>pw_id = pi_id w, pw_project = pi_project w, pw_job = pi_job w, pw_attempt = pi_attempt w,
       pw_attempt_fence = ph_fence c, pw_phase = pi_phase w, pw_sequence = pi_sequence w,
       pw_fence = pi_fence w + 1, pw_owner = owner, pw_lease = expires,
       pw_request = (bj_request j)\<lparr>br_project := pi_project w\<rparr>,
       pw_status = (bj_snapshot j)\<lparr>bs_job := pi_job w, bs_project := pi_project w,
          bs_attempt := pi_attempt w, bs_fence := ph_fence c, bs_lease_owner := ph_owner c\<rparr>\<rparr>)"

definition take_phase_item ::
    "time \<Rightarrow> string \<Rightarrow> string \<Rightarrow> worker \<Rightarrow> duration \<Rightarrow> fair_selection \<Rightarrow> phase_candidate \<Rightarrow> db \<Rightarrow>
     (ledger_error, phase_claim option \<times> db) result" where
  "take_phase_item now owner workerID executor lease sel c s =
     (let w = ph_item c in
      case updateResourceReservationPhase (pi_attempt w) (phaseWorkState (pi_phase w)) s of
        Inl (PhaseFull ph used limit) \<Rightarrow>
          Inr (None, s\<lparr>phase_items := update_where (\<lambda>v. pi_id v = pi_id w)
             (\<lambda>v. v\<lparr>pi_available_at := now + milliseconds 250, pi_updated_at := now\<rparr>) (phase_items s)\<rparr>)
      | Inl e \<Rightarrow> Inl e
      | Inr s1 \<Rightarrow>
        if \<not> list_ex (\<lambda>v. pi_id v = pi_id w \<and> pi_state v = PReady) (phase_items s1)
        then Inl (Missing ''claim phase work'')
        else
          let s2 = s1\<lparr>phase_items := update_where (\<lambda>v. pi_id v = pi_id w \<and> pi_state v = PReady)
                 (claim_item now owner (pi_fence w + 1) (now + lease)) (phase_items s1),
               worker_decisions := worker_decisions s1 @
                 [\<lparr>wd_kind = ''phase'', wd_job = pi_job w, wd_phase = pi_phase w, wd_worker = workerID,
                   wd_candidates = int (ph_workers c), wd_pressure = pressure_score executor,
                   wd_failures = int (recent_phase_failures now s executor)\<rparr>]\<rparr> in
          bind_result (recordFairDispatch now sel ''phase'' (ready_at w) s2) (\<lambda>(_, s3).
          Inr (Some (phase_claim_of owner (now + lease) c),
               insertJobEvent (pi_job w) ''scheduler.fair_dispatch'' s3)))"

definition registerCapabilityWorker ::
    "time \<Rightarrow> string \<Rightarrow> string \<Rightarrow> string list \<Rightarrow> host_sample \<Rightarrow> db \<Rightarrow> string \<times> db" where
  "registerCapabilityWorker now newID name labels sample s =
     register_worker now newID name ''phase-executor'' labels (PressureScore (CaptureExecutorTelemetry sample labels)) s"

definition claim_phase_body ::
    "row_locks \<Rightarrow> time \<Rightarrow> string \<Rightarrow> host_sample \<Rightarrow> string \<Rightarrow> duration \<Rightarrow> string list \<Rightarrow> string list \<Rightarrow>
     expiry_tally \<Rightarrow> db \<Rightarrow> (ledger_error, (phase_claim option \<times> expiry_tally) \<times> db) result" where
  "claim_phase_body busy now newID sample owner lease capabilities phases tally s =
     (case registerCapabilityWorker now newID owner capabilities sample s of (workerID, s1) \<Rightarrow>
      let n = count_where (phase_lease_expired now) (phase_items s1);
          tally1 = (if n > 0 then tally_add (ExpPhase, ResReclaimed) (int n) tally else tally);
          s2 = s1\<lparr>phase_items := update_where (phase_lease_expired now) (reclaim_item now) (phase_items s1)\<rparr> in
      case selectFairPhaseProject (lock_fairness busy) now workerID phases s2 of
        (None, s3) \<Rightarrow> Inr ((None, tally1), s3)
      | (Some sel, s3) \<Rightarrow>
        (case lookup_by w_id workerID (workers s3) of
           None \<Rightarrow> Inr ((None, tally1), s3)
         | Some executor \<Rightarrow>
           (case select_phase_item busy now s3 executor phases (fs_project sel) of
              None \<Rightarrow> Inr ((None, tally1), s3)
            | Some c \<Rightarrow>
              bind_result (take_phase_item now owner workerID executor lease sel c s3) (\<lambda>(claim, s4).
              Inr ((claim, tally1), s4)))))"

definition ClaimPhaseWork ::
    "row_locks \<Rightarrow> time \<Rightarrow> string \<Rightarrow> host_sample \<Rightarrow> string \<Rightarrow> duration \<Rightarrow> string list \<Rightarrow> string list \<Rightarrow> db \<Rightarrow>
     (ledger_error, phase_claim option \<times> db) result" where
  "ClaimPhaseWork busy now newID sample owner0 lease capabilities0 phases s =
     (let owner = TrimSpace owner0 in
      if owner = [] \<or> length owner > 256 then Inl (Refused ''phase work owner is required'')
      else if lease \<le> 0 then Inl (Refused ''phase work lease must be positive'')
      else
        bind_result (map_error BadCapabilities (NormalizeExecutorCapabilities capabilities0)) (\<lambda>capabilities.
        if list_ex (\<lambda>p. phaseWorkState p = []) phases then Inl (Refused ''unsupported phase work filter'')
        else withDeferredLeaseExpiries
               (claim_phase_body busy now newID sample owner lease capabilities phases) s))"

section \<open>Renewing a phase\<close>

definition held_item :: "phase_claim \<Rightarrow> phase_item \<Rightarrow> bool" where
  "held_item c w =
     (pi_id w = pw_id c \<and> pi_state w = PClaimed \<and> pi_owner w = pw_owner c \<and> pi_fence w = pw_fence c)"

definition held_live :: "time \<Rightarrow> phase_claim \<Rightarrow> phase_item \<Rightarrow> bool" where
  "held_live now c w = (held_item c w \<and> expires_after (pi_lease w) now)"

definition attempt_runnable :: "time \<Rightarrow> string \<Rightarrow> db \<Rightarrow> bool" where
  "attempt_runnable now attempt s =
     (case lookup_by au_attempt attempt (attempt_usage s) of
        None \<Rightarrow> False | Some u \<Rightarrow> au_active u \<and> runtime_end u > now)"

definition phase_lease :: "time \<Rightarrow> phase_claim \<Rightarrow> db \<Rightarrow> worker_lease \<Rightarrow> bool" where
  "phase_lease now c s l =
     (wl_attempt l = pw_attempt c \<and> wl_fence l = pw_attempt_fence c \<and> wl_expires l > now \<and>
      attempt_runnable now (pw_attempt c) s)"

definition RenewPhaseWork ::
    "time \<Rightarrow> phase_claim option \<Rightarrow> duration \<Rightarrow> db \<Rightarrow> (ledger_error, unit \<times> db) result" where
  "RenewPhaseWork now claim lease s =
     (case claim of
        None \<Rightarrow> Inl (Refused ''phase claim and positive lease are required'')
      | Some c \<Rightarrow>
        if lease \<le> 0 then Inl (Refused ''phase claim and positive lease are required'')
        else if \<not> list_ex (held_live now c) (phase_items s) \<or>
                count_where (phase_lease now c s) (worker_leases s) \<noteq> 1 \<or>
                count_where (\<lambda>w. w_name w = pw_owner c \<and> w_role w = ''phase-executor'') (workers s) \<noteq> 1
        then Inl (Refused ''phase work lease is stale, expired, or no longer owned'')
        else Inr ((), s\<lparr>
          phase_items := update_where (held_live now c)
            (\<lambda>w. w\<lparr>pi_lease := Some (now + lease), pi_updated_at := now\<rparr>) (phase_items s),
          worker_leases := update_where (phase_lease now c s)
            (\<lambda>l. l\<lparr>wl_expires := min (runtime_end (the (lookup_by au_attempt (pw_attempt c) (attempt_usage s))))
                                   (max (wl_expires l) (now + seconds 120))\<rparr>) (worker_leases s),
          workers := update_where (\<lambda>w. w_name w = pw_owner c \<and> w_role w = ''phase-executor'')
            (\<lambda>w. w\<lparr>w_last_seen := Some now\<rparr>) (workers s)\<rparr>))"

section \<open>Finishing a phase\<close>

definition end_item :: "phase_state \<Rightarrow> time \<Rightarrow> string \<Rightarrow> phase_item \<Rightarrow> phase_item" where
  "end_item st at err w =
     w\<lparr>pi_state := st, pi_lease := None, pi_finished_at := Some at, pi_updated_at := at, pi_error := err\<rparr>"

definition next_sequence :: "string \<Rightarrow> int \<Rightarrow> phase_item list \<Rightarrow> int option" where
  "next_sequence attempt sequence items =
     oldest (map pi_sequence
       (filter (\<lambda>w. pi_attempt w = attempt \<and> pi_sequence w > sequence \<and> pi_state w = PBlocked) items))"

definition release_next :: "string \<Rightarrow> int \<Rightarrow> time \<Rightarrow> phase_item list \<Rightarrow> phase_item list" where
  "release_next attempt sequence at items =
     update_where (\<lambda>w. pi_attempt w = attempt \<and> pi_sequence w > sequence \<and> pi_state w = PBlocked \<and>
                       Some (pi_sequence w) = next_sequence attempt sequence items)
       (\<lambda>w. w\<lparr>pi_state := PReady, pi_available_at := at, pi_ready_since := Some at, pi_updated_at := at\<rparr>) items"

definition cancel_later :: "string \<Rightarrow> int \<Rightarrow> time \<Rightarrow> phase_item list \<Rightarrow> phase_item list" where
  "cancel_later attempt sequence at items =
     update_where (\<lambda>w. pi_attempt w = attempt \<and> pi_sequence w > sequence \<and> pi_state w \<in> {PBlocked, PReady})
       (\<lambda>w. w\<lparr>pi_state := PCanceled, pi_finished_at := Some at, pi_updated_at := at,
              pi_error := ''prior phase failed''\<rparr>) items"

definition wake_phase_waiters :: "string \<Rightarrow> string \<Rightarrow> time \<Rightarrow> phase_item list \<Rightarrow> phase_item list" where
  "wake_phase_waiters project phase at items =
     update_where (\<lambda>w. pi_project w = project \<and> pi_phase w = phase \<and> pi_state w = PReady)
       (\<lambda>w. w\<lparr>pi_available_at := min (pi_available_at w) at, pi_updated_at := at\<rparr>) items"

definition finishPhaseWork ::
    "time \<Rightarrow> phase_claim option \<Rightarrow> bool \<Rightarrow> string \<Rightarrow> db \<Rightarrow> (ledger_error, unit \<times> db) result" where
  "finishPhaseWork now claim completed detail s =
     (case claim of
        None \<Rightarrow> Inl (Refused ''valid phase claim and terminal state are required'')
      | Some c \<Rightarrow>
        (case find (held_item c) (phase_items s) of
           None \<Rightarrow> Inl (Missing ''lock claimed phase work'')
         | Some w \<Rightarrow>
           if pi_lease w = None then Inl (Missing ''lock claimed phase work'')
           else if \<not> expires_after (pi_lease w) now then Inl (Refused ''phase work lease expired'')
           else
             let ended = update_where (\<lambda>v. pi_id v = pw_id c)
                   (end_item (if completed then PCompleted else PFailed) now (TrimSpace detail)) (phase_items s);
                 moved = (if completed then release_next (pi_attempt w) (pi_sequence w) now ended
                          else cancel_later (pi_attempt w) (pi_sequence w) now ended) in
             Inr ((), s\<lparr>
               phase_items := wake_phase_waiters (pi_project w) (pi_phase w) now moved,
               reservations := update_where (\<lambda>r. rr_attempt r = pi_attempt w \<and> rr_active r)
                 (\<lambda>r. r\<lparr>rr_phase := ''waiting''\<rparr>) (reservations s)\<rparr>)))"

definition CompletePhaseWork ::
    "time \<Rightarrow> phase_claim option \<Rightarrow> db \<Rightarrow> (ledger_error, unit \<times> db) result" where
  "CompletePhaseWork now claim s = finishPhaseWork now claim True [] s"

definition FailPhaseWork ::
    "time \<Rightarrow> phase_claim option \<Rightarrow> string \<Rightarrow> db \<Rightarrow> (ledger_error, unit \<times> db) result" where
  "FailPhaseWork now claim detail s = finishPhaseWork now claim False detail s"

section \<open>Status queries\<close>

record phase_work_status =
  Shadow :: nat
  ActiveItems :: nat
  Blocked :: nat
  Ready :: nat
  Unschedulable :: nat
  ClaimedItems :: nat
  CompletedItems :: nat
  FailedItems :: nat
  CanceledItems :: nat

definition phase_status_of :: "time \<Rightarrow> db \<Rightarrow> phase_item list \<Rightarrow> phase_work_status" where
  "phase_status_of now s items =
     \<lparr>Shadow = count_where (\<lambda>w. \<not> pi_active w) items, ActiveItems = count_where pi_active items,
      Blocked = count_where (\<lambda>w. pi_state w = PBlocked) items,
      Ready = count_where (\<lambda>w. pi_state w = PReady) items,
      Unschedulable = count_where (\<lambda>w. pi_active w \<and> pi_state w = PReady \<and>
        \<not> (case lookup_by bj_id (pi_job w) (build_jobs s) of
             None \<Rightarrow> False
           | Some j \<Rightarrow> list_ex (worker_serves now (bj_min_protocol j) (pi_required w)) (workers s))) items,
      ClaimedItems = count_where (\<lambda>w. pi_state w = PClaimed) items,
      CompletedItems = count_where (\<lambda>w. pi_state w = PCompleted) items,
      FailedItems = count_where (\<lambda>w. pi_state w = PFailed) items,
      CanceledItems = count_where (\<lambda>w. pi_state w = PCanceled) items\<rparr>"

definition PhaseWorkStatus :: "time \<Rightarrow> string \<Rightarrow> db \<Rightarrow> phase_work_status" where
  "PhaseWorkStatus now project s =
     phase_status_of now s (filter (\<lambda>w. pi_project w = project) (phase_items s))"

definition GlobalPhaseWorkStatus :: "time \<Rightarrow> db \<Rightarrow> phase_work_status" where
  "GlobalPhaseWorkStatus now s = phase_status_of now s (phase_items s)"

end
