(* ===== verification/Phase_Context.thy ===== *)
theory Phase_Context
  imports Phase_Work
begin

text \<open>
  \<^verbatim>\<open>src/internal/persistence/phase_context.go\<close>: the hand-off document between the phases of an attempt,
  written and read only by the current claimant, and the two operations that end a phase together with
  its attempt and job in one transaction.
\<close>

section \<open>Secret-like metadata\<close>

text \<open>
  \<^verbatim>\<open>strings.ToLower\<close> on the bytes of a UTF-8 string, as far as the search for an ASCII word can see it:
  the ASCII capitals, and the two other code points whose lower case is an ASCII letter, U+0130 (\<^verbatim>\<open>i\<close>)
  and U+212A (\<^verbatim>\<open>k\<close>). Every other code point beyond ASCII has a lower case beyond ASCII.
\<close>

definition lower_ascii :: "char \<Rightarrow> char" where
  "lower_ascii c = (if in_range CHR ''A'' CHR ''Z'' c then char_of (of_char c + 32 :: nat) else c)"

fun ToLower :: "string \<Rightarrow> string" where
  "ToLower [] = []"
| "ToLower (c # cs) =
     (if c = CHR 0xC4 \<and> take 1 cs = [CHR 0xB0] then CHR ''i'' # ToLower (drop 1 cs)
      else if c = CHR 0xE2 \<and> take 2 cs = [CHR 0x84, CHR 0xAA] then CHR ''k'' # ToLower (drop 2 cs)
      else lower_ascii c # ToLower cs)"

fun contains_word :: "string \<Rightarrow> string \<Rightarrow> bool" where
  "contains_word [] word = (word = [])"
| "contains_word (c # cs) word = (take (length word) (c # cs) = word \<or> contains_word cs word)"

definition forbidden_words :: "string list" where
  "forbidden_words =
     [''password'', ''secret'', ''credential'', ''private_key'', ''token'', ''cert_pem'']"

definition secret_key :: "string \<Rightarrow> bool" where
  "secret_key key = list_ex (contains_word (ToLower key)) forbidden_words"

definition validatePhaseContext :: "phase_context \<Rightarrow> (ledger_error, unit) result" where
  "validatePhaseContext v =
     (case px_instance v of
        None \<Rightarrow> Inr ()
      | Some i \<Rightarrow>
        if list_ex (secret_key \<circ> fst) (pn_metadata i)
        then Inl (Refused ''phase execution context rejects secret-like metadata key'') else Inr ())"

section \<open>The hand-off document\<close>

definition context_writable :: "time \<Rightarrow> phase_claim \<Rightarrow> db \<Rightarrow> phase_item \<Rightarrow> bool" where
  "context_writable now c s w =
     (held_live now c w \<and>
      list_ex (\<lambda>a. ba_id a = pi_attempt w \<and> ba_fence a = pw_attempt_fence c \<and>
        list_ex (\<lambda>l. wl_attempt l = ba_id a \<and> wl_fence l = pw_attempt_fence c \<and> wl_expires l > now)
          (worker_leases s)) (build_attempts s))"

definition same_context :: "phase_claim \<Rightarrow> phase_item \<Rightarrow> phase_context_row \<Rightarrow> bool" where
  "same_context c w r =
     (pc_attempt r = pi_attempt w \<and> pc_job r = pi_job w \<and> pc_fence r = pw_attempt_fence c)"

definition SavePhaseExecutionContext ::
    "time \<Rightarrow> phase_claim option \<Rightarrow> phase_context option \<Rightarrow> db \<Rightarrow> (ledger_error, unit \<times> db) result" where
  "SavePhaseExecutionContext now claim value s =
     (case (claim, value) of
        (Some c, Some v) \<Rightarrow>
          bind_result (validatePhaseContext v) (\<lambda>_.
          case find (context_writable now c s) (phase_items s) of
            None \<Rightarrow> Inl (Refused ''phase execution context fence is stale or expired'')
          | Some w \<Rightarrow>
            if \<not> list_ex (\<lambda>r. pc_attempt r = pi_attempt w) (phase_contexts s)
            then Inr ((), s\<lparr>phase_contexts := phase_contexts s @
                   [\<lparr>pc_attempt = pi_attempt w, pc_project = pi_project w, pc_job = pi_job w,
                     pc_fence = pw_attempt_fence c, pc_sequence = pi_sequence w, pc_context = v,
                     pc_revision = 1\<rparr>]\<rparr>)
            else if \<not> list_ex (same_context c w) (phase_contexts s)
            then Inl (Refused ''phase execution context fence is stale or expired'')
            else Inr ((), s\<lparr>phase_contexts := update_where (same_context c w)
                   (\<lambda>r. r\<lparr>pc_sequence := max (pc_sequence r) (pi_sequence w), pc_context := v,
                          pc_revision := pc_revision r + 1\<rparr>) (phase_contexts s)\<rparr>))
      | _ \<Rightarrow> Inl (Refused ''phase claim and execution context are required''))"

definition empty_context :: phase_context where
  "empty_context =
     \<lparr>px_instance = None, px_worker = [], px_staging_root = [], px_verification_token = [],
      px_staged_artifacts = [], px_staged_primary = [], px_signed = False, px_signing_key = [],
      px_artifact_path = [], px_artifact_url = [], px_artifact_paths = [], px_artifacts = []\<rparr>"

definition LoadPhaseExecutionContext ::
    "time \<Rightarrow> phase_claim option \<Rightarrow> db \<Rightarrow> (ledger_error, phase_context) result" where
  "LoadPhaseExecutionContext now claim s =
     (case claim of
        None \<Rightarrow> Inl (Refused ''phase claim is required'')
      | Some c \<Rightarrow>
        (case find (\<lambda>w. held_live now c w \<and> pi_attempt w = pw_attempt c) (phase_items s) of
           None \<Rightarrow> Inl (Refused ''phase execution context fence is stale or expired'')
         | Some w \<Rightarrow>
           Inr (case lookup_by pc_attempt (pi_attempt w) (phase_contexts s) of
                  None \<Rightarrow> empty_context | Some r \<Rightarrow> pc_context r)))"

section \<open>Ending an attempt from its plan\<close>

definition lockTerminalPhaseClaim :: "time \<Rightarrow> phase_claim \<Rightarrow> db \<Rightarrow> (ledger_error, unit) result" where
  "lockTerminalPhaseClaim now c s =
     (if list_ex (\<lambda>w. held_live now c w \<and> pi_attempt w = pw_attempt c) (phase_items s) \<and>
         (case (lookup_by ba_id (pw_attempt c) (build_attempts s),
                lookup_by wl_attempt (pw_attempt c) (worker_leases s)) of
            (Some a, Some l) \<Rightarrow>
              ba_fence a = pw_attempt_fence c \<and> wl_fence l = pw_attempt_fence c \<and> wl_expires l > now
          | _ \<Rightarrow> False) \<and>
         attempt_runnable now (pw_attempt c) s
      then Inr () else Inl (Refused ''terminal phase claim is stale or expired''))"

definition claimed_attempt :: "phase_claim \<Rightarrow> build_attempt \<Rightarrow> bool" where
  "claimed_attempt c a = (ba_id a = pw_attempt c \<and> ba_job a = pw_job c \<and> ba_fence a = pw_attempt_fence c)"

definition finish_attempt_row :: "phase_claim \<Rightarrow> string \<Rightarrow> string \<Rightarrow> time \<Rightarrow> db \<Rightarrow> db" where
  "finish_attempt_row c st detail at s =
     s\<lparr>build_attempts := update_where (claimed_attempt c)
        (\<lambda>a. a\<lparr>ba_state := st, ba_failure_detail := detail, ba_finished_at := Some at, ba_updated_at := at\<rparr>)
        (build_attempts s)\<rparr>"

definition finish_job_row :: "string \<Rightarrow> string \<Rightarrow> build_status \<Rightarrow> string \<Rightarrow> string \<Rightarrow> time \<Rightarrow> db \<Rightarrow> db" where
  "finish_job_row job st doc statusDigest detail at s =
     s\<lparr>build_jobs := update_where (\<lambda>j. bj_id j = job)
        (\<lambda>j. j\<lparr>bj_state := st, bj_snapshot := doc, bj_status_digest := statusDigest,
               bj_terminal_reason := detail, bj_updated_at := at, bj_completed_at := Some at,
               bj_revision := bj_revision j + 1\<rparr>) (build_jobs s)\<rparr>"

definition release_phase_lease :: "phase_claim \<Rightarrow> db \<Rightarrow> db" where
  "release_phase_lease c s =
     s\<lparr>worker_leases := filter (\<lambda>l. \<not> (wl_attempt l = pw_attempt c \<and> wl_fence l = pw_attempt_fence c))
        (worker_leases s)\<rparr>"

definition finishPhaseAttemptTx ::
    "phase_claim \<Rightarrow> build_status \<Rightarrow> build_status \<Rightarrow> string \<Rightarrow> time \<Rightarrow> string \<Rightarrow> db \<Rightarrow> (ledger_error, db) result" where
  "finishPhaseAttemptTx c status doc statusDigest at detail s =
     (let st = bs_status status; reason = ''job_'' @ st in
      if count_where (claimed_attempt c) (build_attempts s) \<noteq> 1
      then Inl (Refused ''finish phase attempt: attempt fence is stale'')
      else
        bind_result (settleAttemptUsage (pw_attempt c) reason st at (finish_attempt_row c st detail at s)) (\<lambda>s1.
        if count_where (\<lambda>j. bj_id j = pw_job c) (build_jobs s1) \<noteq> 1
        then Inl (Refused ''finish phase job: job disappeared'')
        else Inr (revokeWorkerGatewayAttempt (pw_attempt c) reason at
               (releaseArtifactBudgetReservation (pw_attempt c) reason
                 (releaseResourceReservation (pw_attempt c) reason at
                   (release_phase_lease c (finish_job_row (pw_job c) st doc statusDigest detail at s1)))))))"

definition lock_phase_job :: "phase_claim \<Rightarrow> build_status \<Rightarrow> string \<Rightarrow> db \<Rightarrow> (ledger_error, unit) result" where
  "lock_phase_job c previous what s =
     (case lookup_by bj_id (pw_job c) (build_jobs s) of
        None \<Rightarrow> Inl (Missing what)
      | Some j \<Rightarrow> if bj_state j \<noteq> bs_status previous
          then Inl (Refused ''ledger state is not the expected one'') else Inr ())"

definition finish_item :: "phase_claim \<Rightarrow> phase_state \<Rightarrow> string \<Rightarrow> time \<Rightarrow> db \<Rightarrow> db" where
  "finish_item c st err at s =
     s\<lparr>phase_items := update_where (\<lambda>w. pi_id w = pw_id c) (end_item st at err) (phase_items s)\<rparr>"

definition FinalizePhaseWork ::
    "(build_status \<Rightarrow> string) \<Rightarrow> time \<Rightarrow> time \<Rightarrow> phase_claim option \<Rightarrow> build_status option \<Rightarrow>
     build_status option \<Rightarrow> db \<Rightarrow> (ledger_error, unit \<times> db) result" where
  "FinalizePhaseWork sd wall now claim previous finished s =
     (case (claim, previous, finished) of
        (Some c, Some p, Some f) \<Rightarrow>
          if pw_phase c \<noteq> ''publish'' \<or> bs_status f \<noteq> ''completed''
          then Inl (Refused ''final publish claim and completed status are required'')
          else
            bind_result (statusDocument sd (Some f)) (\<lambda>(doc, statusDigest).
            bind_result (lockTerminalPhaseClaim now c s) (\<lambda>_.
            bind_result (lock_phase_job c p ''lock final phase job'' s) (\<lambda>_.
            bind_result (finishPhaseAttemptTx c f doc statusDigest wall [] (finish_item c PCompleted [] wall s))
              (\<lambda>s1. Inr ((), insertJobEvent (pw_job c) ''job.phase_plan_completed'' s1)))))
      | _ \<Rightarrow> Inl (Refused ''final publish claim and completed status are required''))"

definition failure_text :: "string \<Rightarrow> string" where
  "failure_text detail =
     (let d = TrimSpace detail in
      take maxLedgerErrorBytes (if d = [] then ''phase execution failed'' else d))"

definition FailPhaseWorkAndJob ::
    "(build_status \<Rightarrow> string) \<Rightarrow> time \<Rightarrow> time \<Rightarrow> phase_claim option \<Rightarrow> build_status option \<Rightarrow> string \<Rightarrow> db \<Rightarrow>
     (ledger_error, unit \<times> db) result" where
  "FailPhaseWorkAndJob sd wall now claim previous detail0 s =
     (case (claim, previous) of
        (Some c, Some p) \<Rightarrow>
          let detail = failure_text detail0;
              failed = p\<lparr>bs_status := ''failed'', bs_error := detail, bs_failed_stage := pw_phase c,
                         bs_updated_at := wall\<rparr> in
          bind_result (statusDocument sd (Some failed)) (\<lambda>(doc, statusDigest).
          bind_result (lockTerminalPhaseClaim now c s) (\<lambda>_.
          bind_result (lock_phase_job c p ''lock failed phase job'' s) (\<lambda>_.
          let s1 = finish_item c PFailed detail wall s in
          bind_result (finishPhaseAttemptTx c failed doc statusDigest wall detail
              (s1\<lparr>phase_items := cancel_later (pw_attempt c) (pw_sequence c) wall (phase_items s1)\<rparr>))
            (\<lambda>s2. Inr ((), insertJobEvent (pw_job c) ''job.phase_failed'' s2)))))
      | _ \<Rightarrow> Inl (Refused ''phase claim and previous job status are required''))"

end
