(* ===== verification/Job_Safety.thy ===== *)
theory Job_Safety
  imports Jobs
begin

text \<open>
  What the job ledger guarantees: submissions are idempotent and stay within the project's limits, a
  transition needs a live claim and a terminal one releases everything the attempt held, phase limits are
  never exceeded by moving a reservation, and retention hides exactly the old terminal jobs.
\<close>

section \<open>Submission\<close>

lemma upsert_jobs:
  assumes "upsertAttemptSnapshot i st s = Inr t"
  shows "build_jobs t = build_jobs s" "projects t = projects s" "project_policies t = project_policies s"
  using assms by (auto simp: upsertAttemptSnapshot_def Let_def split: if_splits)

lemma event_fields [simp]:
  "build_jobs (insertJobEvent i e s) = build_jobs s" "projects (insertJobEvent i e s) = projects s"
  "project_policies (insertJobEvent i e s) = project_policies s"
  "build_attempts (insertJobEvent i e s) = build_attempts s"
  "worker_leases (insertJobEvent i e s) = worker_leases s"
  "reservations (insertJobEvent i e s) = reservations s"
  "attempt_usage (insertJobEvent i e s) = attempt_usage s"
  "phase_items (insertJobEvent i e s) = phase_items s" "workers (insertJobEvent i e s) = workers s"
  "artifact_generations (insertJobEvent i e s) = artifact_generations s"
  "artifact_budgets (insertJobEvent i e s) = artifact_budgets s"
  "gateway_sessions (insertJobEvent i e s) = gateway_sessions s"
  "gateway_certificates (insertJobEvent i e s) = gateway_certificates s"
  "gateway_commands (insertJobEvent i e s) = gateway_commands s"
  "gateway_uploads (insertJobEvent i e s) = gateway_uploads s"
  "fairness (insertJobEvent i e s) = fairness s"
  "expiry_counters (insertJobEvent i e s) = expiry_counters s"
  by (simp_all add: insertJobEvent_def)

definition keyed :: "string \<Rightarrow> string \<Rightarrow> build_job \<Rightarrow> bool" where
  "keyed project key j = (bj_project j = project \<and> bj_idempotency_key j = Some key)"

lemma load_Some:
  assumes "loadIdempotentJob project key d s = Inr (Some r)"
  obtains j where "find (keyed project key) (build_jobs s) = Some j" "bj_request_digest j = d"
    "r = \<lparr>lc_job = bj_id j, lc_status = bj_snapshot j, lc_created = False\<rparr>"
  using assms that unfolding loadIdempotentJob_def keyed_def
  by (auto split: option.splits if_splits)

lemma load_None:
  "loadIdempotentJob project key d s = Inr None \<longleftrightarrow> find (keyed project key) (build_jobs s) = None"
  unfolding loadIdempotentJob_def keyed_def by (auto split: option.splits)

lemma load_found:
  assumes "find (keyed project key) (build_jobs s) = Some j" "bj_request_digest j = d"
  shows "loadIdempotentJob project key d s =
    Inr (Some \<lparr>lc_job = bj_id j, lc_status = bj_snapshot j, lc_created = False\<rparr>)"
  using assms unfolding loadIdempotentJob_def keyed_def by simp

text \<open>The unique index on project and idempotency key, and what never changes of a stored job.\<close>

definition keys_unique :: "db \<Rightarrow> bool" where
  "keys_unique s =
     unique_where (\<lambda>j. bj_idempotency_key j \<noteq> None) (\<lambda>j. (bj_project j, bj_idempotency_key j)) (build_jobs s)"

definition keys_kept :: "db \<Rightarrow> db \<Rightarrow> bool" where
  "keys_kept s0 s =
     (projects s = projects s0 \<and>
      (\<forall>j \<in> set (build_jobs s0). \<exists>k \<in> set (build_jobs s).
         bj_id k = bj_id j \<and> bj_project k = bj_project j \<and>
         bj_idempotency_key k = bj_idempotency_key j \<and> bj_request_digest k = bj_request_digest j))"

lemma find_keyed:
  assumes "keys_unique s" "k \<in> set (build_jobs s)" "keyed p key k"
  shows "find (keyed p key) (build_jobs s) = Some k"
proof (cases "find (keyed p key) (build_jobs s)")
  case None
  then show ?thesis using assms by (auto simp: find_None_iff)
next
  case (Some j)
  then have "j \<in> set (build_jobs s)" "keyed p key j" by (auto simp: find_Some_iff)
  then have "j = k"
    using assms unfolding keys_unique_def by (elim unique_whereD) (auto simp: keyed_def)
  with Some show ?thesis by simp
qed

lemma find_append: "find P (xs @ ys) = (case find P xs of None \<Rightarrow> find P ys | Some x \<Rightarrow> Some x)"
  by (induction xs) auto

lemma insert_job_cases:
  assumes "insert_job i st q d j s = Inr (res, t)" "bj_idempotency_key j = Some (br_idempotency_key q)"
    "br_idempotency_key q \<noteq> []"
  shows "t = s \<and> loadIdempotentJob (bj_project j) (br_idempotency_key q) d s = Inr (Some res) \<or>
    find (keyed (bj_project j) (br_idempotency_key q)) (build_jobs s) = None \<and> bj_id j \<notin> bj_id ` set (build_jobs s) \<and>
    build_jobs t = build_jobs s @ [j] \<and> projects t = projects s \<and> project_policies t = project_policies s \<and>
    res = \<lparr>lc_job = bj_id j, lc_status = st, lc_created = True\<rparr>"
proof (cases "list_ex (\<lambda>k. bj_project k = bj_project j \<and> bj_idempotency_key k = bj_idempotency_key j) (build_jobs s)")
  case True
  then show ?thesis using assms
    by (auto simp: insert_job_def bind_result_Inr split: option.splits)
next
  case False
  then have "find (keyed (bj_project j) (br_idempotency_key q)) (build_jobs s) = None"
    using assms(2) by (auto simp: find_None_iff keyed_def list_ex_iff)
  moreover from assms(1) False obtain s1 where s1: "\<forall>k \<in> set (build_jobs s). bj_id k \<noteq> bj_id j"
    "(if bs_status st \<noteq> ''queued'' then upsertAttemptSnapshot i st (s\<lparr>build_jobs := build_jobs s @ [j]\<rparr>)
      else Inr (s\<lparr>build_jobs := build_jobs s @ [j]\<rparr>)) = Inr s1"
    "res = \<lparr>lc_job = bj_id j, lc_status = st, lc_created = True\<rparr>"
    "t = insertJobEvent (bs_job st) ''job.created'' s1"
    unfolding insert_job_def by (auto simp: bind_result_Inr list_ex_iff simp del: if_split split: if_splits)
  moreover from s1(2) have "build_jobs s1 = build_jobs s @ [j] \<and> projects s1 = projects s \<and>
      project_policies s1 = project_policies s"
    by (cases "bs_status st = ''queued''") (auto dest: upsert_jobs)
  moreover from s1(1) have "bj_id j \<notin> bj_id ` set (build_jobs s)" by (metis imageE)
  ultimately show ?thesis by simp
qed

lemma insert_created:
  assumes "insert_job i st q d j s = Inr (res, t)" "lc_created res"
  shows "build_jobs t = build_jobs s @ [j] \<and> bj_id j = lc_job res \<and> bj_id j \<notin> bj_id ` set (build_jobs s)"
proof -
  have "\<not> (br_idempotency_key q \<noteq> [] \<and>
      list_ex (\<lambda>k. bj_project k = bj_project j \<and> bj_idempotency_key k = bj_idempotency_key j) (build_jobs s))"
    using assms unfolding insert_job_def
    by (auto simp: bind_result_Inr split: option.splits elim!: load_Some)
  with assms(1) obtain s1 where s1: "\<forall>k \<in> set (build_jobs s). bj_id k \<noteq> bj_id j"
    "(if bs_status st \<noteq> ''queued'' then upsertAttemptSnapshot i st (s\<lparr>build_jobs := build_jobs s @ [j]\<rparr>)
      else Inr (s\<lparr>build_jobs := build_jobs s @ [j]\<rparr>)) = Inr s1"
    "res = \<lparr>lc_job = bj_id j, lc_status = st, lc_created = True\<rparr>"
    "t = insertJobEvent (bs_job st) ''job.created'' s1"
    unfolding insert_job_def by (auto simp: bind_result_Inr list_ex_iff simp del: if_split split: if_splits)
  then have "build_jobs s1 = build_jobs s @ [j]"
    by (cases "bs_status st = ''queued''") (auto dest: upsert_jobs)
  moreover from s1(1) have "bj_id j \<notin> bj_id ` set (build_jobs s)" by (metis imageE)
  ultimately show ?thesis using s1 by simp
qed

lemma createJob_inv:
  assumes "createJob sha rd sd wall now i (Some q) (Some st) src s0 s = Inr (res, t)"
  obtains req project found doc dg where
    "PhaseCapabilityRequirements sha (Some q) ''provision'' = Inr req"
    "resolveJobProject (br_project q) s0 = Inr project"
    "prepareJobCreation wall now project q (rd (digest_document q)) src s0 s = Inr found"
    "found = Some res \<and> t = s \<or> found = None \<and> insert_job i st q (rd (digest_document q))
       (new_job now project src q (rd (digest_document q)) st doc dg req) s = Inr (res, t)"
proof -
  obtain doc dg where sd: "statusDocument sd (Some st) = Inr (doc, dg)"
    by (simp add: statusDocument_def Let_def)
  from assms show thesis unfolding createJob_def requestDocument_def sd
    by (auto simp: bind_result_Inr split: option.splits intro: that)
qed

text \<open>After a submission with a key the ledger holds the job under that key.\<close>

lemma created_keyed:
  assumes c: "createJob sha rd sd wall now i (Some q) (Some st) src s0 s = Inr (res, t)"
    and key: "br_idempotency_key q \<noteq> []" and u: "keys_unique s" and k: "keys_kept s0 s"
  obtains project j where "resolveJobProject (br_project q) s0 = Inr project"
    "find (keyed project (br_idempotency_key q)) (build_jobs t) = Some j"
    "bj_request_digest j = rd (digest_document q)" "bj_id j = lc_job res"
    "projects t = projects s" "\<not> lc_created res \<longrightarrow> t = s" "keys_unique t"
    "PhaseCapabilityRequirements sha (Some q) ''provision'' \<in> range Inr"
proof -
  note result = that
  let ?key = "br_idempotency_key q" and ?d = "rd (digest_document q)"
  obtain req project found doc dg where
    req: "PhaseCapabilityRequirements sha (Some q) ''provision'' = Inr req" and
    pr: "resolveJobProject (br_project q) s0 = Inr project" and
    pc: "prepareJobCreation wall now project q ?d src s0 s = Inr found" and
    fin: "found = Some res \<and> t = s \<or> found = None \<and>
      insert_job i st q ?d (new_job now project src q ?d st doc dg req) s = Inr (res, t)"
    by (rule createJob_inv[OF c])
  have hit: thesis if r: "t = s" and l: "loadIdempotentJob project ?key ?d s = Inr (Some res)"
  proof -
    from l obtain j where "find (keyed project ?key) (build_jobs s) = Some j" "bj_request_digest j = ?d"
      "res = \<lparr>lc_job = bj_id j, lc_status = bj_snapshot j, lc_created = False\<rparr>" by (rule load_Some)
    then show thesis using result pr r u req by auto
  qed
  show thesis
  proof (cases found)
    case (Some existing)
    then have ts: "t = s" "res = existing" using fin by auto
    from pc Some key consider "loadIdempotentJob project ?key ?d s0 = Inr (Some existing)"
      | "loadIdempotentJob project ?key ?d s = Inr (Some existing)"
      by (auto simp: prepareJobCreation_def load_keyed_def bind_result_Inr split: if_splits)
    then show thesis
    proof cases
      case 1
      then obtain j where j: "find (keyed project ?key) (build_jobs s0) = Some j" "bj_request_digest j = ?d"
        "existing = \<lparr>lc_job = bj_id j, lc_status = bj_snapshot j, lc_created = False\<rparr>" by (rule load_Some)
      then have "j \<in> set (build_jobs s0)" "keyed project ?key j" by (auto simp: find_Some_iff)
      then obtain j' where j': "j' \<in> set (build_jobs s)" "bj_id j' = bj_id j" "keyed project ?key j'"
        "bj_request_digest j' = ?d"
        using k j(2) unfolding keys_kept_def keyed_def by metis
      from find_keyed[OF u j'(1,3)] j' j show thesis using result pr ts u req by auto
    next
      case 2
      then show thesis using hit ts by simp
    qed
  next
    case None
    define j where "j = new_job now project src q ?d st doc dg req"
    have jf: "bj_project j = project" "bj_idempotency_key j = Some ?key" "bj_request_digest j = ?d"
      using key by (simp_all add: j_def new_job_def)
    have ins: "insert_job i st q ?d j s = Inr (res, t)" using fin None by (simp add: j_def)
    from insert_job_cases[OF ins jf(2) key] show thesis
    proof (elim disjE conjE)
      assume "t = s" "loadIdempotentJob (bj_project j) ?key ?d s = Inr (Some res)"
      then show thesis using hit jf(1) by simp
    next
      assume n: "find (keyed (bj_project j) ?key) (build_jobs s) = None"
        and t: "build_jobs t = build_jobs s @ [j]" "projects t = projects s"
        and res: "res = \<lparr>lc_job = bj_id j, lc_status = st, lc_created = True\<rparr>"
      have "find (keyed project ?key) (build_jobs t) = Some j"
        using n t jf by (simp add: find_append keyed_def)
      moreover have "keys_unique t"
        using u n jf(2) unfolding keys_unique_def t(1)
        by (auto simp: find_None_iff keyed_def)
      ultimately show thesis using result pr t(2) res jf(3) req by simp
    qed
  qed
qed

lemma requirements_digest:
  assumes "digest_document q' = digest_document q"
  shows "PhaseCapabilityRequirements sha (Some q') phase = PhaseCapabilityRequirements sha (Some q) phase"
proof -
  have r: "map_option (\<lambda>r. r\<lparr>rc_resolved_at := 0\<rparr>) (br_resolved q') =
      map_option (\<lambda>r. r\<lparr>rc_resolved_at := 0\<rparr>) (br_resolved q)"
    using arg_cong[OF assms, of br_resolved] by (simp add: digest_document_def)
  show ?thesis
  proof (cases "br_resolved q")
    case None
    with r show ?thesis by (simp add: PhaseCapabilityRequirements_def)
  next
    case (Some c)
    with r obtain c' where c': "br_resolved q' = Some c'" "c'\<lparr>rc_resolved_at := 0\<rparr> = c\<lparr>rc_resolved_at := 0\<rparr>" by auto
    then obtain x where "c' = c\<lparr>rc_resolved_at := x\<rparr>" by (cases c, cases c') auto
    then show ?thesis using Some c'(1)
      by (simp add: PhaseCapabilityRequirements_def CapacityPoolID_def pool_dimensions_def
          effective_zone_def Let_def del: append.simps)
  qed
qed

text \<open>C11: Submission is idempotent. Suppose a request with an idempotency key was accepted, in a transaction
  that may have waited for its project's policy lock while others committed. Then at most one job of the
  project holds the key, an accepted repetition has not changed the ledger, and submitting the request
  again, by another requester and resolved at another time, returns that job and changes nothing.\<close>

theorem idempotent_submission:
  assumes "createJob sha256 rd sd wall now attemptID (Some q) (Some st) source s0 s = Inr (res, t)"
    and "br_idempotency_key q \<noteq> []" "keys_unique s" "keys_kept s0 s"
    and "digest_document q' = digest_document q"
  shows "keys_unique t \<and> (\<not> lc_created res \<longrightarrow> t = s) \<and>
    (\<exists>snapshot. createJob sha256 rd sd wall' now' attemptID' (Some q') (Some st') source' t t =
       Inr (\<lparr>lc_job = lc_job res, lc_status = snapshot, lc_created = False\<rparr>, t))"
proof -
  obtain project j where j: "resolveJobProject (br_project q) s0 = Inr project"
    "find (keyed project (br_idempotency_key q)) (build_jobs t) = Some j"
    "bj_request_digest j = rd (digest_document q)" "bj_id j = lc_job res"
    "projects t = projects s" "\<not> lc_created res \<longrightarrow> t = s" "keys_unique t"
    "PhaseCapabilityRequirements sha256 (Some q) ''provision'' \<in> range Inr"
    by (rule created_keyed[OF assms(1-4)])
  have q': "br_project q' = br_project q" "br_idempotency_key q' = br_idempotency_key q"
    using arg_cong[OF assms(5), of br_project] arg_cong[OF assms(5), of br_idempotency_key]
    by (simp_all add: digest_document_def)
  have p: "resolveJobProject (br_project q) t = Inr project"
    using j(1,5) assms(4) by (simp add: resolveJobProject_def keys_kept_def split: if_splits)
  obtain req where "PhaseCapabilityRequirements sha256 (Some q') ''provision'' = Inr req"
    using j(8) requirements_digest[OF assms(5)] by auto
  then show ?thesis using j(6,7) load_found[OF j(2,3)] assms(2,5) p
    by (auto simp: createJob_def requestDocument_def statusDocument_def Let_def q' prepareJobCreation_def
        load_keyed_def j(4))
qed

lemma checkSubmission_ok:
  assumes "checkSubmissionAdmission wall now project p q s = Inr u"
  shows "policy_open now p" "int (queued_jobs project s) < pp_max_queued_jobs p"
    "int (daily_jobs now project s) < pp_max_daily_submissions p"
    "\<exists>v. resourceVectorFromRequest q = Inr v \<and> VCPUs v \<le> pp_max_vcpus p \<and>
         MemoryMiB v \<le> pp_max_memory_mib p \<and> DiskGiB v \<le> pp_max_disk_gib p"
    "\<exists>b. runtimeBudgetSpecFromRequest q = Inr b \<and> MaxRuntimeSeconds b \<le> pp_max_build_seconds p \<and>
         ReservedCloudCost b \<le> pp_max_cloud_cost p"
  using assms
  by (auto simp: checkSubmissionAdmission_def suspension_error_def policy_open_def bind_result_Inr Let_def
      checkResourceRequestLimits_def checkRuntimeRequestLimits_def
      split: option.splits if_splits sum.splits)

lemma prepare_found:
  assumes "prepareJobCreation wall now project q d source s0 s = Inr (Some r)"
  shows "\<not> lc_created r"
proof -
  have l: "\<not> lc_created r" if "load_keyed q project d s' = Inr (Some r)" for s'
    using that by (auto simp: load_keyed_def split: if_splits elim!: load_Some)
  show ?thesis using assms l
    by (fastforce simp: prepareJobCreation_def bind_result_Inr split: if_splits)
qed

lemma prepare_admitted:
  assumes "prepareJobCreation wall now project q d ''api'' s0 s = Inr None"
  obtains p where "lookup_by pp_project project (project_policies s) = Some p"
    "checkSubmissionAdmission wall now project p (Some q) s = Inr ()"
  using assms that
  by (auto simp: prepareJobCreation_def bind_result_Inr lockSubmissionPolicy_def split: if_splits option.splits)

text \<open>C12: Admission. A submission through the API that creates a job appends exactly one job, its project
  is neither suspended nor in a failure-storm cooldown, the request fits the project's resource and daily
  budget limits, and the queued jobs and the day's submissions of the project stay within their limits
  with the new job counted.\<close>

theorem submission_within_limits:
  assumes "createJob sha256 rd sd wall now attemptID (Some q) (Some st) ''api'' s0 s = Inr (res, t)"
    and "lc_created res"
  shows "\<exists>j p. build_jobs t = build_jobs s @ [j] \<and> bj_id j = lc_job res \<and> bj_id j \<notin> bj_id ` set (build_jobs s) \<and>
    lookup_by pp_project (bj_project j) (project_policies s) = Some p \<and> policy_open now p \<and>
    int (queued_jobs (bj_project j) t) \<le> pp_max_queued_jobs p \<and>
    int (daily_jobs now (bj_project j) t) \<le> pp_max_daily_submissions p \<and>
    (\<exists>v. resourceVectorFromRequest (Some q) = Inr v \<and> VCPUs v \<le> pp_max_vcpus p \<and>
         MemoryMiB v \<le> pp_max_memory_mib p \<and> DiskGiB v \<le> pp_max_disk_gib p) \<and>
    (\<exists>b. runtimeBudgetSpecFromRequest (Some q) = Inr b \<and> MaxRuntimeSeconds b \<le> pp_max_build_seconds p \<and>
         ReservedCloudCost b \<le> pp_max_cloud_cost p)"
proof -
  obtain req project found doc dg where
    pc: "prepareJobCreation wall now project q (rd (digest_document q)) ''api'' s0 s = Inr found" and
    fin: "found = Some res \<and> t = s \<or> found = None \<and> insert_job attemptID st q (rd (digest_document q))
      (new_job now project ''api'' q (rd (digest_document q)) st doc dg req) s = Inr (res, t)"
    by (rule createJob_inv[OF assms(1)])
  have "found = None"
    using fin assms(2) prepare_found[of wall now project q "rd (digest_document q)" "''api''" s0 s res] pc by auto
  define j where "j = new_job now project ''api'' q (rd (digest_document q)) st doc dg req"
  have ins: "insert_job attemptID st q (rd (digest_document q)) j s = Inr (res, t)"
    using fin \<open>found = None\<close> by (simp add: j_def)
  obtain p where p: "lookup_by pp_project project (project_policies s) = Some p"
    and adm: "checkSubmissionAdmission wall now project p (Some q) s = Inr ()"
    by (rule prepare_admitted[OF pc[unfolded \<open>found = None\<close>]])
  have app: "build_jobs t = build_jobs s @ [j] \<and> bj_id j = lc_job res \<and> bj_id j \<notin> bj_id ` set (build_jobs s)"
    by (rule insert_created[OF ins assms(2)])
  have jp: "bj_project j = project" by (simp add: j_def new_job_def)
  have "int (queued_jobs project t) \<le> int (queued_jobs project s) + 1"
    "int (daily_jobs now project t) \<le> int (daily_jobs now project s) + 1"
    using app by (simp_all add: queued_jobs_def daily_jobs_def)
  then have "int (queued_jobs project t) \<le> pp_max_queued_jobs p"
    "int (daily_jobs now project t) \<le> pp_max_daily_submissions p"
    using checkSubmission_ok(2,3)[OF adm] by linarith+
  with checkSubmission_ok(1,4,5)[OF adm] app p show ?thesis unfolding jp[symmetric] by blast
qed

definition example_ledger :: db where
  "example_ledger = empty_db\<lparr>projects := [(''p'', ''default'')], project_policies := [example_project]\<rparr>"

definition keyed_request :: build_request where
  "keyed_request = example_request\<lparr>br_idempotency_key := ''k''\<rparr>"

lemma example_submission:
  "case createJob (\<lambda>_. ''AB'') (\<lambda>_. ''d'') (\<lambda>_. ''e'') 0 0 ''a1'' (Some keyed_request) (Some example_status) ''api''
      example_ledger example_ledger of
     Inl _ \<Rightarrow> False | Inr (r, t) \<Rightarrow> lc_created r \<and> lc_job r = ''j1''"
proof -
  have "case PhaseCapabilityRequirements (\<lambda>_. ''AB'') (Some keyed_request) ''provision'' of Inl _ \<Rightarrow> False | Inr _ \<Rightarrow> True"
    by code_simp
  then obtain req where req: "PhaseCapabilityRequirements (\<lambda>_. ''AB'') (Some keyed_request) ''provision'' = Inr req"
    by (auto split: sum.splits)
  have pr: "resolveJobProject (br_project keyed_request) example_ledger = Inr ''p''"
    by (simp add: resolveJobProject_def keyed_request_def example_request_def example_ledger_def
        TrimSpace_id printable_def)
  have adm: "checkSubmissionAdmission 0 0 ''p'' example_project (Some keyed_request) example_ledger = Inr ()"
    by (simp add: checkSubmissionAdmission_def suspension_error_def checkResourceRequestLimits_def
        resourceVectorFromRequest_def checkRuntimeRequestLimits_def runtimeBudgetSpecFromRequest_def
        runtime_contract_def example_project_def keyed_request_def example_request_def example_context_def
        go_div_def int64_def queued_jobs_def daily_jobs_def example_ledger_def empty_db_def)
  have pc: "prepareJobCreation 0 0 ''p'' keyed_request ''d'' ''api'' example_ledger example_ledger = Inr None"
    using adm by (simp add: prepareJobCreation_def load_keyed_def loadIdempotentJob_def lockSubmissionPolicy_def
        example_ledger_def empty_db_def example_project_def)
  show ?thesis unfolding createJob_def
    by (simp add: requestDocument_def req pr pc statusDocument_def Let_def)
      (simp add: insert_job_def new_job_def keyed_request_def example_request_def example_ledger_def
        empty_db_def example_status_def)
qed

theorem idempotent_submission_witness:
  "case createJob (\<lambda>_. ''AB'') (\<lambda>_. ''d'') (\<lambda>_. ''e'') 0 0 ''a1'' (Some keyed_request) (Some example_status) ''api''
      example_ledger example_ledger of
     Inl _ \<Rightarrow> False
   | Inr (r, t) \<Rightarrow> \<exists>snapshot. createJob (\<lambda>_. ''AB'') (\<lambda>_. ''d'') (\<lambda>_. ''e'') 0 9 ''a2''
       (Some (keyed_request\<lparr>br_requested_by := ''v''\<rparr>)) (Some (example_status\<lparr>bs_job := ''j2''\<rparr>)) ''api'' t t =
       Inr (\<lparr>lc_job = ''j1'', lc_status = snapshot, lc_created = False\<rparr>, t)"
proof -
  obtain r t where c: "createJob (\<lambda>_. ''AB'') (\<lambda>_. ''d'') (\<lambda>_. ''e'') 0 0 ''a1'' (Some keyed_request)
      (Some example_status) ''api'' example_ledger example_ledger = Inr (r, t)" and r: "lc_job r = ''j1''"
    using example_submission by (auto split: sum.splits)
  have "br_idempotency_key keyed_request \<noteq> []" "keys_unique example_ledger"
    "keys_kept example_ledger example_ledger"
    "digest_document (keyed_request\<lparr>br_requested_by := ''v''\<rparr>) = digest_document keyed_request"
    by (simp_all add: keyed_request_def keys_unique_def keys_kept_def example_ledger_def empty_db_def
        digest_document_def)
  from idempotent_submission[OF c this] r show ?thesis unfolding c by auto
qed

theorem submission_within_limits_witness:
  "case createJob (\<lambda>_. ''AB'') (\<lambda>_. ''d'') (\<lambda>_. ''e'') 0 0 ''a1'' (Some keyed_request) (Some example_status) ''api''
      example_ledger example_ledger of
     Inl _ \<Rightarrow> False
   | Inr (r, t) \<Rightarrow> \<exists>j. build_jobs t = [j] \<and> bj_id j = ''j1'' \<and> int (queued_jobs (bj_project j) t) \<le> 8"
proof -
  obtain r t where c: "createJob (\<lambda>_. ''AB'') (\<lambda>_. ''d'') (\<lambda>_. ''e'') 0 0 ''a1'' (Some keyed_request)
      (Some example_status) ''api'' example_ledger example_ledger = Inr (r, t)" and r: "lc_job r = ''j1''" "lc_created r"
    using example_submission by (auto split: sum.splits)
  have e: "build_jobs example_ledger = []" "project_policies example_ledger = [example_project]"
    by (simp_all add: example_ledger_def empty_db_def)
  from submission_within_limits[OF c r(2)] r(1) e show ?thesis unfolding c
    by (auto simp: example_project_def split: if_splits)
qed

section \<open>Transitions\<close>

text \<open>Nothing of an attempt is held any more.\<close>

definition attempt_released :: "string \<Rightarrow> db \<Rightarrow> bool" where
  "attempt_released attempt s =
     ((\<forall>l \<in> set (worker_leases s). wl_attempt l \<noteq> attempt) \<and>
      (\<forall>r \<in> set (reservations s). rr_attempt r = attempt \<longrightarrow> \<not> rr_active r) \<and>
      (\<forall>u \<in> set (attempt_usage s). au_attempt u = attempt \<longrightarrow> \<not> au_active u) \<and>
      (\<forall>w \<in> set (phase_items s). pi_attempt w = attempt \<longrightarrow> \<not> item_open w) \<and>
      (\<forall>r \<in> set (artifact_generations s @ artifact_budgets s). ar_attempt r = attempt \<longrightarrow> \<not> ar_active r) \<and>
      (\<forall>c \<in> set (gateway_certificates s). wc_attempt c = attempt \<longrightarrow> wc_state c \<noteq> CActive) \<and>
      (\<forall>g \<in> set (gateway_sessions s). gs_attempt g = attempt \<longrightarrow> gs_state g \<noteq> CActive) \<and>
      (\<forall>c \<in> set (gateway_commands s). gc_attempt c = attempt \<longrightarrow> \<not> command_open c) \<and>
      (\<forall>u \<in> set (gateway_uploads s). gu_attempt u = attempt \<longrightarrow> \<not> upload_open u))"

definition live_claim :: "time \<Rightarrow> build_status \<Rightarrow> db \<Rightarrow> bool" where
  "live_claim now c s =
     (\<exists>l \<in> set (worker_leases s). \<exists>w \<in> set (workers s). \<exists>u \<in> set (attempt_usage s).
        wl_attempt l = bs_attempt c \<and> wl_worker l = w_id w \<and> au_attempt u = bs_attempt c \<and>
        wl_expires l > now \<and> wl_fence l = bs_fence c \<and> w_name w = bs_lease_owner c \<and>
        au_active u \<and> runtime_end u > now)"

lemma validate_live:
  assumes "validateTransitionClaim now c s = Inr x" "bs_attempt c \<noteq> []"
  shows "live_claim now c s"
proof -
  obtain a l u w where
    a: "find (\<lambda>a. ba_id a = bs_attempt c \<and> ba_job a = bs_job c) (build_attempts s) = Some a" and
    l: "lookup_by wl_attempt (ba_id a) (worker_leases s) = Some l" and
    u: "lookup_by au_attempt (ba_id a) (attempt_usage s) = Some u" and
    w: "lookup_by w_id (wl_worker l) (workers s) = Some w" and
    ok: "wl_expires l > now \<and> wl_fence l = bs_fence c \<and> w_name w = bs_lease_owner c \<and> au_active u \<and> runtime_end u > now"
    using assms unfolding validateTransitionClaim_def by (auto split: option.splits if_splits)
  have "ba_id a = bs_attempt c" using a by (auto simp: find_Some_iff)
  then show ?thesis unfolding live_claim_def
    using lookup_by_Some[OF l] lookup_by_Some[OF u] lookup_by_Some[OF w] ok by metis
qed

lemma update_where_all:
  assumes "\<And>r. r \<in> set xs \<Longrightarrow> p r \<Longrightarrow> Q (f r)" and "\<And>r. r \<in> set xs \<Longrightarrow> \<not> p r \<Longrightarrow> Q r"
  shows "\<forall>r \<in> set (update_where p f xs). Q r"
  using assms by (auto simp: set_update_where)

lemma release_attempt_fields:
  "worker_leases (release_attempt a r at s) = worker_leases s"
  "attempt_usage (release_attempt a r at s) = attempt_usage s"
  "build_jobs (release_attempt a r at s) = build_jobs s"
  "build_attempts (release_attempt a r at s) = build_attempts s"
  "workers (release_attempt a r at s) = workers s"
  "project_policies (release_attempt a r at s) = project_policies s"
  "expiry_counters (release_attempt a r at s) = expiry_counters s"
  "fairness (release_attempt a r at s) = fairness s"
  "reservations (release_attempt a r at s) =
     update_where (\<lambda>q. rr_attempt q = a \<and> rr_active q) (release_reservation at r) (reservations s)"
  "phase_items (release_attempt a r at s) =
     update_where (\<lambda>w. pi_attempt w = a \<and> item_open w) (cancel_item at r) (phase_items s)"
  by (simp_all add: release_attempt_def revokeWorkerGatewayAttempt_def cancelPhaseWorkItems_def
      releaseArtifactBudgetReservation_def releaseResourceReservation_def)

lemma release_attempt_tables:
  "artifact_generations (release_attempt a r at s) =
     update_where (\<lambda>q. ar_attempt q = a \<and> ar_active q) (\<lambda>q. q\<lparr>ar_active := False, ar_reason := r\<rparr>)
       (artifact_generations s)"
  "artifact_budgets (release_attempt a r at s) =
     update_where (\<lambda>q. ar_attempt q = a \<and> ar_active q)
       (\<lambda>q. q\<lparr>ar_active := False, ar_bytes := 0, ar_reason := r\<rparr>) (artifact_budgets s)"
  "gateway_certificates (release_attempt a r at s) =
     update_where (\<lambda>c. wc_attempt c = a \<and> wc_state c = CActive) (revoke_certificate r at) (gateway_certificates s)"
  "gateway_sessions (release_attempt a r at s) =
     update_where (\<lambda>g. gs_attempt g = a \<and> gs_state g = CActive) (revoke_session r at) (gateway_sessions s)"
  "gateway_commands (release_attempt a r at s) =
     update_where (\<lambda>c. gc_attempt c = a \<and> command_open c) (cancel_command r at) (gateway_commands s)"
  "gateway_uploads (release_attempt a r at s) =
     update_where (\<lambda>u. gu_attempt u = a \<and> upload_open u) cancel_upload (gateway_uploads s)"
  by (simp_all add: release_attempt_def revokeWorkerGatewayAttempt_def cancelPhaseWorkItems_def
      releaseArtifactBudgetReservation_def releaseResourceReservation_def)

lemma release_attempt_released:
  assumes "\<forall>u \<in> set (attempt_usage s). au_attempt u = a \<longrightarrow> \<not> au_active u"
    "\<forall>l \<in> set (worker_leases s). wl_attempt l \<noteq> a"
  shows "attempt_released a (release_attempt a r at s)"
  unfolding attempt_released_def release_attempt_fields release_attempt_tables set_append ball_Un
  using assms
  by (intro conjI update_where_all)
     (simp_all add: release_reservation_def cancel_item_def item_open_def revoke_certificate_def revoke_session_def
       cancel_command_def command_open_def cancel_upload_def upload_open_def)

lemma settle_job_states:
  assumes "settleAttemptUsage a reason st at s = Inr t"
    and "\<forall>k \<in> set (build_jobs s). P (bj_id k) (bj_state k)"
  shows "\<forall>k \<in> set (build_jobs t). P (bj_id k) (bj_state k)"
proof -
  have "map (\<lambda>j. (bj_id j, bj_state j)) (build_jobs t) = map (\<lambda>j. (bj_id j, bj_state j)) (build_jobs s)"
    by (rule settle_job_column[OF assms(1)]) simp
  from arg_cong[OF this, of set] have "(\<lambda>j. (bj_id j, bj_state j)) ` set (build_jobs t) =
      (\<lambda>j. (bj_id j, bj_state j)) ` set (build_jobs s)" by simp
  then have "\<forall>x \<in> (\<lambda>j. (bj_id j, bj_state j)) ` set (build_jobs t). P (fst x) (snd x)"
    using assms(2) by simp
  then show ?thesis by simp
qed

lemma reservation_phase_frame:
  assumes "updateResourceReservationPhase a st s = Inr t"
  shows "build_jobs t = build_jobs s" "build_attempts t = build_attempts s" "worker_leases t = worker_leases s"
    "attempt_usage t = attempt_usage s" "phase_items t = phase_items s" "workers t = workers s"
    "project_policies t = project_policies s" "expiry_counters t = expiry_counters s"
    "fairness t = fairness s"
  using assms by (auto simp: updateResourceReservationPhase_def Let_def split: if_splits option.splits)

lemma transition_cases:
  assumes "recordAttemptTransitionTx i c at s = Inr t" "bs_attempt c \<noteq> []"
  obtains (running) s1 where "\<not> isLedgerTerminal (bs_status c)" "build_jobs s1 = build_jobs s"
      "updateResourceReservationPhase (bs_attempt c) (bs_status c) s1 = Inr t"
  | (closed) s1 s2 where "build_jobs s1 = build_jobs s"
      "settleAttemptUsage (bs_attempt c) (''job_'' @ bs_status c) (bs_status c) at s1 = Inr s2"
      "t = release_attempt (bs_attempt c) (''job_'' @ bs_status c) at (delete_attempt_leases (bs_attempt c) s2)"
proof -
  let ?s1 = "update_fenced_attempt c at s"
  have j: "build_jobs ?s1 = build_jobs s" "build_jobs (markAttemptCloudStarted (bs_attempt c) at ?s1) = build_jobs s"
    by (simp_all add: update_fenced_attempt_def markAttemptCloudStarted_def)
  show thesis
  proof (cases "isLedgerTerminal (bs_status c)")
    case True
    then obtain s2 where
      "settleAttemptUsage (bs_attempt c) (''job_'' @ bs_status c) (bs_status c) at ?s1 = Inr s2"
      "t = release_attempt (bs_attempt c) (''job_'' @ bs_status c) at (delete_attempt_leases (bs_attempt c) s2)"
      using assms by (auto simp: recordAttemptTransitionTx_def Let_def bind_result_Inr split: if_splits)
    then show thesis by (rule closed[OF j(1)])
  next
    case False
    then have "updateResourceReservationPhase (bs_attempt c) (bs_status c)
        (if reservationPhase (bs_status c) = ''provision''
         then markAttemptCloudStarted (bs_attempt c) at ?s1 else ?s1) = Inr t"
      using assms by (simp add: recordAttemptTransitionTx_def Let_def split: if_split_asm)
    then show thesis by (rule running[OF False, rotated]) (simp add: j)
  qed
qed

lemma transition_job_states:
  assumes "recordAttemptTransitionTx i c at s = Inr t" "bs_attempt c \<noteq> []"
    and "\<forall>k \<in> set (build_jobs s). P (bj_id k) (bj_state k)"
  shows "\<forall>k \<in> set (build_jobs t). P (bj_id k) (bj_state k)"
  using assms(1,2)
proof (cases rule: transition_cases)
  case (running s1)
  then show ?thesis using assms(3) reservation_phase_frame(1)[OF running(3)] by simp
next
  case (closed s1 s2)
  then have "\<forall>k \<in> set (build_jobs s2). P (bj_id k) (bj_state k)"
    using settle_job_states[OF closed(2), of P] assms(3) by simp
  then show ?thesis by (simp add: closed(3) release_attempt_fields delete_attempt_leases_def)
qed

lemma transition_released:
  assumes "recordAttemptTransitionTx i c at s = Inr t" "bs_attempt c \<noteq> []" "isLedgerTerminal (bs_status c)"
  shows "attempt_released (bs_attempt c) t"
  using assms(1,2)
proof (cases rule: transition_cases)
  case (closed s1 s2)
  have "\<forall>u \<in> set (attempt_usage s2). au_attempt u = bs_attempt c \<longrightarrow> \<not> au_active u"
    unfolding settle_rows[OF closed(2)] by (rule update_where_all) auto
  then show ?thesis unfolding closed(3)
    by (intro release_attempt_released) (simp_all add: delete_attempt_leases_def)
qed (use assms(3) in simp)

text \<open>C10: Transitions are fenced. A status update by a claimed attempt that changes the ledger was made
  under a live claim: an unexpired lease with the update's fence token, held by the worker that
  reports, on an open usage row within its runtime. If the new status is terminal, nothing of the
  attempt stays held: no lease, no resource, usage or artifact reservation, no open phase work and no
  gateway session, command or upload; and the job carries the new state.\<close>

theorem fenced_transition:
  assumes "recordTransition sd now newID previous (Some c) s = Inr ((), t)"
    and "bs_attempt c \<noteq> []" "t \<noteq> s"
  shows "live_claim now c s \<and>
    (\<forall>j \<in> set (build_jobs t). bj_id j = bs_job c \<longrightarrow> bj_state j = bs_status c) \<and>
    (isLedgerTerminal (bs_status c) \<longrightarrow> attempt_released (bs_attempt c) t)"
proof -
  obtain doc dg where d: "statusDocument sd (Some c) = Inr (doc, dg)"
    by (simp add: statusDocument_def Let_def)
  define e where "e = (if previous = None \<or> bs_status (the previous) \<noteq> bs_status c
      then ''job.state_changed'' else ''job.snapshot_updated'')"
  obtain j where j: "find (\<lambda>j. bj_id j = bs_job c \<and> bj_visible j) (build_jobs s) = Some j"
    using assms(1) unfolding recordTransition_def d by (auto simp: Let_def split: option.splits)
  have "\<not> (bj_state j = bs_status c \<and> bj_status_digest j = dg)"
    using assms(1,3) unfolding recordTransition_def d by (auto simp: Let_def j)
  then obtain s1 x where v: "validateTransitionClaim now c s = Inr x"
    and r: "recordAttemptTransitionTx newID c now (update_job_row c doc dg (bj_revision j + 1) now s) = Inr s1"
    and t: "t = insertJobEvent (bs_job c) e s1"
    using assms(1) unfolding recordTransition_def d e_def
    by (auto simp: Let_def j bind_result_Inr split: if_split_asm)
  have st0: "\<forall>k \<in> set (build_jobs (update_job_row c doc dg (bj_revision j + 1) now s)).
      bj_id k = bs_job c \<longrightarrow> bj_state k = bs_status c"
    unfolding update_job_row_def by simp (rule update_where_all, simp_all)
  have "\<forall>k \<in> set (build_jobs s1). bj_id k = bs_job c \<longrightarrow> bj_state k = bs_status c"
    by (rule transition_job_states[OF r assms(2) st0])
  moreover have "isLedgerTerminal (bs_status c) \<Longrightarrow> attempt_released (bs_attempt c) s1"
    by (rule transition_released[OF r assms(2)])
  ultimately show ?thesis using validate_live[OF v assms(2)] by (simp add: t attempt_released_def)
qed

definition example_lease :: worker_lease where
  "example_lease = \<lparr>wl_id = ''l1'', wl_worker = ''w'', wl_attempt = ''a1'', wl_fence = 1,
     wl_kind = AttemptLease, wl_expires = seconds 60\<rparr>"

definition example_reservation :: reservation where
  "example_reservation = \<lparr>rr_attempt = ''a1'', rr_project = ''p'', rr_job = ''j1'', rr_vcpus = 4,
     rr_memory_mib = 8192, rr_disk_gib = 50, rr_phase = ''claimed'', rr_active = True,
     rr_released_at = None, rr_release_reason = []\<rparr>"

definition example_running :: db where
  "example_running = example_ledger\<lparr>workers := [example_worker], worker_leases := [example_lease],
     build_jobs := [example_job\<lparr>bj_state := ''claimed''\<rparr>], build_attempts := [example_attempt],
     reservations := [example_reservation], attempt_usage := [example_usage]\<rparr>"

definition example_report :: build_status where
  "example_report = example_status\<lparr>bs_status := ''success'', bs_attempt := ''a1'', bs_fence := 1,
     bs_lease_owner := ''w''\<rparr>"

lemmas example_running_defs = example_running_def example_ledger_def empty_db_def example_lease_def
  example_reservation_def example_usage_def example_attempt_def example_job_def example_status_def
  example_project_def example_worker_def

theorem fenced_transition_witness:
  "case recordTransition (\<lambda>_. ''e'') 0 ''x'' None (Some example_report) example_running of
     Inl _ \<Rightarrow> False | Inr (_, t) \<Rightarrow> attempt_released ''a1'' t \<and> live_claim 0 example_report example_running"
proof -
  have "\<exists>t. recordTransition (\<lambda>_. ''e'') 0 ''x'' None (Some example_report) example_running = Inr ((), t) \<and>
      job_events t \<noteq> []"
    by (simp add: recordTransition_def statusDocument_def Let_def example_running_defs example_report_def
        validateTransitionClaim_def runtime_end_def seconds_def recordAttemptTransitionTx_def
        update_job_row_def fenced_attempt_def isLedgerTerminal_def update_fenced_attempt_def
        settleAttemptUsage_def wake_waiters_def insertJobEvent_def)
  then obtain t where t: "recordTransition (\<lambda>_. ''e'') 0 ''x'' None (Some example_report) example_running = Inr ((), t)"
    and "job_events t \<noteq> []" by blast
  then have "t \<noteq> example_running" by (auto simp: example_running_defs)
  from fenced_transition[OF t _ this] show ?thesis
    unfolding t by (simp add: example_report_def isLedgerTerminal_def)
qed

section \<open>Phase capacity\<close>

definition phase_count :: "string \<Rightarrow> string \<Rightarrow> db \<Rightarrow> nat" where
  "phase_count project phase s =
     count_where (\<lambda>r. rr_project r = project \<and> rr_active r \<and> rr_phase r = phase) (reservations s)"

definition within_phase_limits :: "db \<Rightarrow> bool" where
  "within_phase_limits s =
     (\<forall>p \<in> set (project_policies s). \<forall>phase \<in> {''claimed'', ''provision'', ''build'', ''verify'', ''publish''}.
        int (phase_count (pp_project p) phase s) \<le> the (phase_limit p phase))"

lemma phase_limit_known:
  "phase \<in> {''claimed'', ''provision'', ''build'', ''verify'', ''publish''} \<longleftrightarrow> phase_limit p phase \<noteq> None"
  by (auto simp: phase_limit_def)

lemma phase_count_moved:
  assumes inv: "within_phase_limits s" and d: "distinct (map rr_attempt (reservations s))"
    "distinct (map pp_project (project_policies s))"
    and r: "active_reservation attempt s = Some r"
    and p: "lookup_by pp_project (rr_project r) (project_policies s) = Some p"
    and lim: "phase_limit p ph = Some limit" "int (phase_used (rr_project r) ph attempt s) < limit"
    and t: "t = s\<lparr>reservations := update_where (\<lambda>q. rr_attempt q = attempt \<and> rr_active q \<and> rr_phase q \<noteq> ph)
          (\<lambda>q. q\<lparr>rr_phase := ph\<rparr>) (reservations s)\<rparr>"
    and q: "q \<in> set (project_policies s)" "phase_limit q phase \<noteq> None"
  shows "int (phase_count (pp_project q) phase t) \<le> the (phase_limit q phase)"
proof -
  have rin: "r \<in> set (reservations s)" "rr_attempt r = attempt" "rr_active r"
    using r by (auto simp: active_reservation_def find_Some_iff)
  have uniq: "x = r" if "x \<in> set (reservations s)" "rr_attempt x = attempt" for x
    using distinct_key_eq[OF d(1) that(1) rin(1)] that(2) rin(2) by simp
  let ?P = "\<lambda>x. rr_project x = pp_project q \<and> rr_active x \<and> rr_phase x = phase"
  have upd: "phase_count (pp_project q) phase t =
      count_where (\<lambda>x. ?P (if rr_attempt x = attempt \<and> rr_active x \<and> rr_phase x \<noteq> ph
                           then x\<lparr>rr_phase := ph\<rparr> else x)) (reservations s)"
    by (simp add: phase_count_def t count_where_update)
  show ?thesis
  proof (cases "phase = ph \<and> pp_project q = rr_project r")
    case True
    have pq: "q = p" using distinct_key_eq[OF d(2) q(1)] lookup_by_Some[OF p] True by metis
    have "phase_count (pp_project q) phase t \<le>
        count_where (\<lambda>x. (?P x \<and> rr_attempt x \<noteq> attempt) \<or> rr_attempt x = attempt) (reservations s)"
      unfolding upd by (rule count_where_mono) (auto split: if_splits)
    also have "\<dots> = phase_used (rr_project r) ph attempt s + count_where (\<lambda>x. rr_attempt x = attempt) (reservations s)"
      using True by (subst count_where_disj) (auto simp: phase_used_def intro!: count_where_cong)
    also have "\<dots> \<le> phase_used (rr_project r) ph attempt s + 1"
      using count_where_key[OF d(1), of attempt "\<lambda>_. True"] by simp
    finally show ?thesis using lim pq True by simp
  next
    case False
    have "phase_count (pp_project q) phase t \<le> phase_count (pp_project q) phase s"
      unfolding upd unfolding phase_count_def
    proof (rule count_where_mono)
      fix x assume x: "x \<in> set (reservations s)"
        "?P (if rr_attempt x = attempt \<and> rr_active x \<and> rr_phase x \<noteq> ph then x\<lparr>rr_phase := ph\<rparr> else x)"
      then show "?P x" using False uniq[OF x(1)] by (auto split: if_splits)
    qed
    moreover have "int (phase_count (pp_project q) phase s) \<le> the (phase_limit q phase)"
      using inv q phase_limit_known[of phase q] unfolding within_phase_limits_def by blast
    ultimately show ?thesis by linarith
  qed
qed



section \<open>Retention\<close>

definition expire_all :: "time \<Rightarrow> build_job list \<Rightarrow> build_job list" where
  "expire_all before = update_where (expirable before) hide"

lemma expire_ids_length:
  "length (expire_ids before locked s) =
     min terminalRetentionBatchSize
       (count_where (\<lambda>j. expirable before j \<and> \<not> locked (bj_id j)) (build_jobs s))"
  by (simp add: expire_ids_def count_where_def min.commute)

lemma hide_not_expirable [simp]: "\<not> expirable before (hide j)"
  by (simp add: expirable_def hide_def)

lemma hide_id [simp]: "bj_id (hide j) = bj_id j"
  by (simp add: hide_def)

lemma ids_expirable:
  assumes "set ids \<subseteq> bj_id ` set (filter (expirable before) (build_jobs s))"
    and "distinct (map bj_id (build_jobs s))" "j \<in> set (build_jobs s)" "bj_id j \<in> set ids"
  shows "expirable before j"
proof -
  from assms(1,4) obtain k where k: "k \<in> set (build_jobs s)" "expirable before k" "bj_id j = bj_id k" by auto
  have "j = k" by (rule distinct_key_eq[OF assms(2,3) k(1,3)])
  with k(2) show ?thesis by simp
qed

lemma expire_batch_all:
  assumes "set ids \<subseteq> bj_id ` set (filter (expirable before) (build_jobs s))"
    and "distinct (map bj_id (build_jobs s))"
  shows "expire_all before (build_jobs (expire_batch ids s)) = expire_all before (build_jobs s)"
proof -
  have "(if expirable before (if bj_id j \<in> set ids then hide j else j)
         then hide (if bj_id j \<in> set ids then hide j else j) else (if bj_id j \<in> set ids then hide j else j)) =
        (if expirable before j then hide j else j)" if "j \<in> set (build_jobs s)" for j
    using ids_expirable[OF assms that] by simp
  then show ?thesis
    unfolding expire_all_def expire_batch_jobs update_where_def by simp
qed

lemma expire_count:
  assumes "set ids \<subseteq> bj_id ` set (filter (expirable before) (build_jobs s))"
    and "distinct (map bj_id (build_jobs s))" "distinct ids"
  shows "count_where (expirable before) (build_jobs (expire_batch ids s)) + length ids =
    count_where (expirable before) (build_jobs s)"
proof -
  note sub = ids_expirable[OF assms(1,2)]
  have "length ids = count_where (\<lambda>j. bj_id j \<in> set ids) (build_jobs s)"
  proof -
    have "set ids = set (map bj_id (filter (\<lambda>j. bj_id j \<in> set ids) (build_jobs s)))"
      using assms(1) by auto
    moreover have "distinct (map bj_id (filter (\<lambda>j. bj_id j \<in> set ids) (build_jobs s)))"
      by (rule distinct_map_filter[OF assms(2)])
    ultimately show ?thesis using assms(3) unfolding count_where_def
      by (metis distinct_card length_map)
  qed
  moreover have "count_where (expirable before) (build_jobs s) =
      count_where (\<lambda>j. expirable before j \<and> bj_id j \<notin> set ids) (build_jobs s) +
      count_where (\<lambda>j. bj_id j \<in> set ids) (build_jobs s)"
    using sub by (subst count_where_disj[symmetric]) (auto intro!: count_where_cong)
  moreover have "count_where (expirable before) (build_jobs (expire_batch ids s)) =
      count_where (\<lambda>j. expirable before j \<and> bj_id j \<notin> set ids) (build_jobs s)"
    unfolding expire_batch_jobs count_where_update by (rule count_where_cong) simp
  ultimately show ?thesis by simp
qed

lemma expire_ids_ok:
  assumes "distinct (map bj_id (build_jobs s))"
  shows "set (expire_ids before locked s) \<subseteq> bj_id ` set (filter (expirable before) (build_jobs s))"
    "distinct (expire_ids before locked s)"
proof -
  show "set (expire_ids before locked s) \<subseteq> bj_id ` set (filter (expirable before) (build_jobs s))"
    by (auto dest!: expire_ids_visible)
  let ?l = "sort_key (\<lambda>j. (bj_updated_at j, bj_id j))
      (filter (\<lambda>j. expirable before j \<and> \<not> locked (bj_id j)) (build_jobs s))"
  have "distinct (map bj_id ?l)"
    using distinct_map_filter[OF assms] by (simp add: distinct_map inj_on_def)
  then show "distinct (expire_ids before locked s)"
    unfolding expire_ids_def take_map[symmetric] by (rule distinct_take)
qed

lemma expire_terminal_all:
  assumes "distinct (map bj_id (build_jobs s))" "\<forall>n i. \<not> locked n i"
    and "ExpireTerminal before locked n s = (m, t)"
  shows "build_jobs t = expire_all before (build_jobs s) \<and> m = count_where (expirable before) (build_jobs s)"
  using assms
proof (induction before locked n s arbitrary: m t rule: ExpireTerminal.induct)
  case (1 before locked n s)
  define ids where "ids = expire_ids before (locked n) s"
  define u where "u = expire_batch ids s"
  note ok = expire_ids_ok[OF 1(2), of before "locked n", folded ids_def]
  have jobs: "expire_all before (build_jobs u) = expire_all before (build_jobs s)"
    unfolding u_def by (rule expire_batch_all[OF ok(1) 1(2)])
  have cnt: "count_where (expirable before) (build_jobs u) + length ids = count_where (expirable before) (build_jobs s)"
    unfolding u_def by (rule expire_count[OF ok(1) 1(2) ok(2)])
  have dist: "distinct (map bj_id (build_jobs u))"
    using 1(2) unfolding u_def expire_batch_jobs by (simp add: map_update_where)
  have len: "length ids = min terminalRetentionBatchSize (count_where (expirable before) (build_jobs s))"
    using 1(3) unfolding ids_def expire_ids_length by simp
  show ?case
  proof (cases "length ids < terminalRetentionBatchSize")
    case True
    then have mt: "m = length ids" "t = u"
      using 1(4) by (simp_all add: ExpireTerminal.simps[of before locked n] Let_def ids_def[symmetric] u_def[symmetric])
    have all: "length ids = count_where (expirable before) (build_jobs s)" using len True by simp
    then have "count_where (expirable before) (build_jobs u) = 0" using cnt by simp
    then have "expire_all before (build_jobs u) = build_jobs u"
      unfolding expire_all_def by (intro update_where_idle) simp
    with jobs mt all show ?thesis by simp
  next
    case False
    obtain m' t' where r: "ExpireTerminal before locked (Suc n) u = (m', t')" by fastforce
    have mt: "m = length ids + m'" "t = t'"
      using 1(4) False r by (simp_all add: ExpireTerminal.simps[of before locked n] Let_def ids_def[symmetric] u_def[symmetric])
    have "build_jobs t' = expire_all before (build_jobs u) \<and> m' = count_where (expirable before) (build_jobs u)"
      by (rule 1(1)[OF ids_def u_def False dist 1(3) r])
    with mt jobs cnt show ?thesis by simp
  qed
qed



end
