(* ===== verification/Ledger_Views.thy ===== *)
theory Ledger_Views
  imports Plan_Spec Phase_Context Job_Safety
begin

text \<open>
  How the tables implement the contracts of claims and plans: the abstraction functions, and what every
  statement and helper of the persistence layer does to the two views. Most leave both unchanged.
\<close>

section \<open>Abstraction\<close>

definition abs_lease :: "worker_lease \<Rightarrow> lease" where
  "abs_lease l =
     \<lparr>le_id = wl_id l, le_attempt = wl_attempt l, le_fence = wl_fence l, le_expires = wl_expires l\<rparr>"

definition abs_claims :: "db \<Rightarrow> claims" where
  "abs_claims s =
     \<lparr>cl_jobs = map (\<lambda>j. (bj_id j, bj_state j)) (build_jobs s),
      cl_attempts = map (\<lambda>a. (ba_id a, ba_job a, ba_fence a)) (build_attempts s),
      cl_ends = map (\<lambda>u. (au_attempt u, runtime_end u)) (attempt_usage s),
      cl_leases = map abs_lease (worker_leases s)\<rparr>"

definition abs_row :: "phase_item \<Rightarrow> plan_row" where
  "abs_row w =
     \<lparr>pr_id = pi_id w, pr_job = pi_job w, pr_attempt = pi_attempt w, pr_phase = pi_phase w,
      pr_sequence = pi_sequence w, pr_state = pi_state w, pr_owner = pi_owner w, pr_fence = pi_fence w,
      pr_leased = (pi_lease w \<noteq> None), pr_started = (pi_started_at w \<noteq> None),
      pr_finished = (pi_finished_at w \<noteq> None)\<rparr>"

definition abs_plan :: "db \<Rightarrow> plan_row list" where
  "abs_plan s = map abs_row (phase_items s)"

lemma abs_lease_fields [simp]:
  "le_id (abs_lease l) = wl_id l" "le_attempt (abs_lease l) = wl_attempt l"
  "le_fence (abs_lease l) = wl_fence l" "le_expires (abs_lease l) = wl_expires l"
  by (simp_all add: abs_lease_def)

lemma abs_row_fields [simp]:
  "pr_id (abs_row w) = pi_id w" "pr_job (abs_row w) = pi_job w" "pr_attempt (abs_row w) = pi_attempt w"
  "pr_phase (abs_row w) = pi_phase w" "pr_sequence (abs_row w) = pi_sequence w"
  "pr_state (abs_row w) = pi_state w" "pr_owner (abs_row w) = pi_owner w" "pr_fence (abs_row w) = pi_fence w"
  "pr_leased (abs_row w) = (pi_lease w \<noteq> None)" "pr_started (abs_row w) = (pi_started_at w \<noteq> None)"
  "pr_finished (abs_row w) = (pi_finished_at w \<noteq> None)"
  by (simp_all add: abs_row_def)

lemma abs_claims_fields [simp]:
  "cl_jobs (abs_claims s) = map (\<lambda>j. (bj_id j, bj_state j)) (build_jobs s)"
  "cl_attempts (abs_claims s) = map (\<lambda>a. (ba_id a, ba_job a, ba_fence a)) (build_attempts s)"
  "cl_ends (abs_claims s) = map (\<lambda>u. (au_attempt u, runtime_end u)) (attempt_usage s)"
  "cl_leases (abs_claims s) = map abs_lease (worker_leases s)"
  by (simp_all add: abs_claims_def)

definition views_kept :: "db \<Rightarrow> db \<Rightarrow> bool" where
  "views_kept s t = (abs_claims t = abs_claims s \<and> abs_plan t = abs_plan s)"

lemma views_keptI:
  assumes "map (\<lambda>j. (bj_id j, bj_state j)) (build_jobs t) = map (\<lambda>j. (bj_id j, bj_state j)) (build_jobs s)"
    "map (\<lambda>a. (ba_id a, ba_job a, ba_fence a)) (build_attempts t) =
     map (\<lambda>a. (ba_id a, ba_job a, ba_fence a)) (build_attempts s)"
    "map (\<lambda>u. (au_attempt u, runtime_end u)) (attempt_usage t) =
     map (\<lambda>u. (au_attempt u, runtime_end u)) (attempt_usage s)"
    "map abs_lease (worker_leases t) = map abs_lease (worker_leases s)"
    "map abs_row (phase_items t) = map abs_row (phase_items s)"
  shows "views_kept s t"
  using assms by (simp add: views_kept_def abs_claims_def abs_plan_def)

lemma views_kept_refl [simp]: "views_kept s s"
  by (simp add: views_kept_def)

lemma views_kept_trans [trans]: "views_kept s t \<Longrightarrow> views_kept t u \<Longrightarrow> views_kept s u"
  by (simp add: views_kept_def)

lemma views_keptD: "views_kept s t \<Longrightarrow> abs_claims t = abs_claims s" "views_kept s t \<Longrightarrow> abs_plan t = abs_plan s"
  by (simp_all add: views_kept_def)

text \<open>A statement seen through an abstraction that tells the rows apart.\<close>

lemma map_update_where_sim:
  assumes "inj_on k (set xs)" "\<And>r. r \<in> set xs \<Longrightarrow> p r \<Longrightarrow> k (f r) = g (k r)"
  shows "map k (update_where p f xs) = update_where (\<lambda>y. \<exists>r \<in> set xs. k r = y \<and> p r) g (map k xs)"
  using assms by (auto simp: update_where_def inj_on_def)

lemma map_update_where_abs:
  assumes "\<And>r. r \<in> set xs \<Longrightarrow> q (k r) = p r" "\<And>r. r \<in> set xs \<Longrightarrow> p r \<Longrightarrow> k (f r) = g (k r)"
  shows "map k (update_where p f xs) = update_where q g (map k xs)"
  using assms by (auto simp: update_where_def)

lemma inj_on_key: "distinct (map key (map k xs)) \<Longrightarrow> inj_on k (set xs)"
  by (simp add: distinct_map) (metis inj_on_imageI2)

section \<open>Helpers that leave the views unchanged\<close>

lemma insertJobEvent_views [simp]:
  "abs_claims (insertJobEvent i e s) = abs_claims s" "abs_plan (insertJobEvent i e s) = abs_plan s"
  by (simp_all add: abs_claims_def abs_plan_def)

lemma settle_views:
  assumes "settleAttemptUsage attempt reason st at s = Inr t"
  shows "views_kept s t"
proof (rule views_keptI)
  show "map (\<lambda>j. (bj_id j, bj_state j)) (build_jobs t) = map (\<lambda>j. (bj_id j, bj_state j)) (build_jobs s)"
    by (rule settle_job_column[OF assms]) simp
  show "map (\<lambda>u. (au_attempt u, runtime_end u)) (attempt_usage t) =
      map (\<lambda>u. (au_attempt u, runtime_end u)) (attempt_usage s)"
    unfolding settle_rows[OF assms] by (simp add: map_update_where runtime_end_def)
qed (simp_all add: settle_fields[OF assms])

lemma settle_job_views:
  assumes "settleJobAttemptUsage job reason st at s = Inr t"
  shows "views_kept s t"
  using assms unfolding settleJobAttemptUsage_def
  by (rule fold_result_invariant) (auto intro: views_kept_trans settle_views)

lemma ensure_views [simp]: "views_kept s (ensureProjectFairnessRows s)"
  by (rule views_keptI) simp_all

lemma fair_selection_state:
  "selectFairAdmissionProject locked now w s = (r, t) \<Longrightarrow> t = ensureProjectFairnessRows s"
  "selectFairPhaseProject locked now w phases s = (r', t') \<Longrightarrow> t' = ensureProjectFairnessRows s"
  by (auto simp: selectFairAdmissionProject_def selectFairPhaseProject_def Let_def)

lemma record_dispatch_views:
  assumes "recordFairDispatch now sel kind q s = Inr (r, t)"
  shows "views_kept s t"
  by (rule views_keptI) (simp_all add: record_dispatch_fields[OF assms])

lemma register_views:
  assumes "register_worker now i name role labels pressure s = (w, t)"
  shows "views_kept s t"
  using assms by (intro views_keptI) (auto simp: register_worker_def split: option.splits)

lemma scheduler_worker_views:
  assumes "schedulerWorker wall now i name labels sample cache s = (w, cache', t)"
  shows "views_kept s t"
  using assms register_views
  by (fastforce simp: schedulerWorker_def Let_def split: option.splits if_splits prod.splits)

lemma defer_views [simp]: "views_kept s (defer_job now job retryAt s)"
  by (rule views_keptI) (simp_all add: defer_job_def map_update_where)

lemma record_expiry_fields:
  assumes "recordLeaseExpiry k r n s = Inr t"
  shows "\<exists>cs. t = s\<lparr>expiry_counters := cs\<rparr>"
  using assms by (auto simp: recordLeaseExpiry_def split: if_splits)

lemma flush_views:
  assumes "flushLeaseExpiries tally s = Inr t"
  shows "views_kept s t"
  using assms unfolding flushLeaseExpiries_def
proof (rule fold_result_invariant)
  fix x :: "expiry_key \<times> int" and u v
  assume u: "views_kept s u" and step: "(case x of (xa, xb) \<Rightarrow> (case xa of (k, r) \<Rightarrow> recordLeaseExpiry k r) xb) u = Inr v"
  obtain k r n where "x = ((k, r), n)" by (metis prod.exhaust)
  with step obtain cs where "v = u\<lparr>expiry_counters := cs\<rparr>" using record_expiry_fields by fastforce
  then have "views_kept u v" by (simp add: views_kept_def abs_claims_def abs_plan_def)
  with u show "views_kept s v" by (rule views_kept_trans)
qed simp

lemma reservation_phase_views:
  assumes "updateResourceReservationPhase a st s = Inr t"
  shows "views_kept s t"
  by (rule views_keptI) (simp_all add: reservation_phase_frame[OF assms])

lemma revoke_views [simp]:
  "abs_claims (revokeWorkerGatewayAttempt a r at s) = abs_claims s" "abs_plan (revokeWorkerGatewayAttempt a r at s) = abs_plan s"
  by (simp_all add: revokeWorkerGatewayAttempt_def abs_claims_def abs_plan_def)

lemma revoke_job_views [simp]:
  "abs_claims (revokeWorkerGatewayJob j r at s) = abs_claims s" "abs_plan (revokeWorkerGatewayJob j r at s) = abs_plan s"
proof -
  have "abs_claims (fold (\<lambda>a. revokeWorkerGatewayAttempt (ba_id a) r at) xs s) = abs_claims s \<and>
      abs_plan (fold (\<lambda>a. revokeWorkerGatewayAttempt (ba_id a) r at) xs s) = abs_plan s" for xs
    by (induction xs arbitrary: s) simp_all
  then show "abs_claims (revokeWorkerGatewayJob j r at s) = abs_claims s"
    "abs_plan (revokeWorkerGatewayJob j r at s) = abs_plan s"
    unfolding revokeWorkerGatewayJob_def by blast+
qed

lemma release_views [simp]:
  "abs_claims (releaseResourceReservation a r at s) = abs_claims s"
  "abs_plan (releaseResourceReservation a r at s) = abs_plan s"
  "abs_claims (releaseArtifactBudgetReservation a r s) = abs_claims s"
  "abs_plan (releaseArtifactBudgetReservation a r s) = abs_plan s"
  "abs_claims (release_attempt a r at s) = abs_claims s"
  by (simp_all add: releaseResourceReservation_def releaseArtifactBudgetReservation_def
      release_attempt_fields abs_claims_def abs_plan_def)

section \<open>Statements the views see\<close>

lemma open_row [simp]: "plan_open (pi_state w) = item_open w"
  by (simp add: plan_open_def item_open_def)

lemma abs_cancel_item [simp]: "abs_row (cancel_item at r w) = ended_row PCanceled (abs_row w)"
  by (simp add: abs_row_def cancel_item_def ended_row_def)

lemma release_attempt_plan:
  "abs_plan (release_attempt a r at s) =
     update_where (\<lambda>q. pr_attempt q = a \<and> plan_open (pr_state q)) (ended_row PCanceled) (abs_plan s)"
  unfolding abs_plan_def release_attempt_fields by (rule map_update_where_abs) simp_all

lemma release_attempt_plan_step: "plan_step (abs_plan s) (abs_plan (release_attempt a r at s))"
  unfolding release_attempt_plan by (rule plan_step.cancel) simp

lemma jobs_set_state:
  assumes "\<And>j. p j = (bj_id j = job)" "\<And>j. bj_id (f j) = bj_id j" "\<And>j. bj_state (f j) = st"
  shows "map (\<lambda>j. (bj_id j, bj_state j)) (update_where p f js) =
    set_state job st (map (\<lambda>j. (bj_id j, bj_state j)) js)"
  unfolding set_state_def using assms by (intro map_update_where_abs) auto

lemma leases_filter: "map abs_lease (filter (keep \<circ> abs_lease) ls) = filter keep (map abs_lease ls)"
  by (simp add: filter_map)

lemma held_lease:
  "held_job (abs_claims s) (abs_lease l) job \<longleftrightarrow>
     (\<exists>a \<in> set (build_attempts s). ba_id a = wl_attempt l \<and> ba_job a = job)"
  by (force simp: held_job_def image_iff)

end
