(* ===== verification/Ledger_Steps.thy ===== *)
theory Ledger_Steps
  imports Ledger_Views
begin

text \<open>
  The job store and the scheduler against the contracts: submission, fenced transitions and the recovery
  of expired leases each simulate steps of claims and plans.
\<close>

section \<open>Simulation\<close>

definition ledger_ok :: "db \<Rightarrow> bool" where
  "ledger_ok s = (claims_ok (abs_claims s) \<and> plan_ok (abs_plan s))"

definition sim :: "db \<Rightarrow> db \<Rightarrow> bool" where
  "sim s t = (claim_step\<^sup>*\<^sup>* (abs_claims s) (abs_claims t) \<and> plan_step\<^sup>*\<^sup>* (abs_plan s) (abs_plan t))"

lemma sim_kept: "views_kept s t \<Longrightarrow> sim s t"
  by (simp add: sim_def views_kept_def)

lemma sim_trans [trans]: "sim s t \<Longrightarrow> sim t u \<Longrightarrow> sim s u"
  unfolding sim_def by (auto intro: rtranclp_trans)

lemma sim_trans_kept [trans]: "sim s t \<Longrightarrow> views_kept t u \<Longrightarrow> sim s u" "views_kept s t \<Longrightarrow> sim t u \<Longrightarrow> sim s u"
  by (auto intro: sim_trans sim_kept)

lemma sim_claim: "claim_step (abs_claims s) (abs_claims t) \<Longrightarrow> abs_plan t = abs_plan s \<Longrightarrow> sim s t"
  by (simp add: sim_def)

lemma sim_plan: "abs_claims t = abs_claims s \<Longrightarrow> plan_step (abs_plan s) (abs_plan t) \<Longrightarrow> sim s t"
  by (simp add: sim_def)

lemma sim_steps: "claim_step (abs_claims s) (abs_claims t) \<Longrightarrow> plan_step (abs_plan s) (abs_plan t) \<Longrightarrow> sim s t"
  unfolding sim_def by blast

lemma claim_steps_ok: "claim_step\<^sup>*\<^sup>* c d \<Longrightarrow> claims_ok c \<Longrightarrow> claims_ok d"
  by (induction rule: rtranclp_induct) (auto intro: claim_step_ok)

lemma plan_steps_ok: "plan_step\<^sup>*\<^sup>* c d \<Longrightarrow> plan_ok c \<Longrightarrow> plan_ok d"
  by (induction rule: rtranclp_induct) (auto intro: plan_step_ok)

lemma sim_ok: "sim s t \<Longrightarrow> ledger_ok s \<Longrightarrow> ledger_ok t"
  unfolding sim_def ledger_ok_def using claim_steps_ok plan_steps_ok by blast

lemma ledger_okD: "ledger_ok s \<Longrightarrow> claims_ok (abs_claims s)" "ledger_ok s \<Longrightarrow> plan_ok (abs_plan s)"
  by (simp_all add: ledger_ok_def)

lemma ledger_distinct:
  assumes "ledger_ok s"
  shows "distinct (map bj_id (build_jobs s))" "distinct (map ba_id (build_attempts s))"
    "distinct (map au_attempt (attempt_usage s))" "distinct (map wl_id (worker_leases s))"
    "distinct (map pi_id (phase_items s))" "inj_on abs_lease (set (worker_leases s))"
    "inj_on abs_row (set (phase_items s))"
proof -
  note d = claims_okD(1-4)[OF ledger_okD(1)[OF assms]] plan_okD(1)[OF ledger_okD(2)[OF assms]]
  show "distinct (map bj_id (build_jobs s))" "distinct (map ba_id (build_attempts s))"
    "distinct (map au_attempt (attempt_usage s))" "distinct (map wl_id (worker_leases s))"
    "distinct (map pi_id (phase_items s))"
    using d by (simp_all add: comp_def abs_plan_def)
  show "inj_on abs_lease (set (worker_leases s))" by (rule inj_on_key[of le_id]) (use d(4) in simp)
  show "inj_on abs_row (set (phase_items s))" by (rule inj_on_key[of pr_id]) (use d(5) in \<open>simp add: abs_plan_def\<close>)
qed

text \<open>In a good ledger at most one lease belongs to a job.\<close>

lemma one_lease:
  assumes "ledger_ok s" "l \<in> set (worker_leases s)" "m \<in> set (worker_leases s)"
    "a \<in> set (build_attempts s)" "ba_id a = wl_attempt l" "b \<in> set (build_attempts s)" "ba_id b = wl_attempt m"
    "ba_job a = ba_job b"
  shows "l = m"
proof -
  have "abs_lease l = abs_lease m"
    using assms by (intro claims_exclusive[OF ledger_okD(1)[OF assms(1)], of _ _ "ba_job b"]) (auto simp: held_lease)
  then show ?thesis using ledger_distinct(6)[OF assms(1)] assms(2,3) by (simp add: inj_on_eq_iff)
qed

subsection \<open>Submission\<close>

lemma upsert_views:
  assumes "upsertAttemptSnapshot i st s = Inr t"
  shows "views_kept s t \<or> i \<notin> ba_id ` set (build_attempts s) \<and> abs_plan t = abs_plan s \<and>
    abs_claims t = (abs_claims s)\<lparr>cl_attempts := cl_attempts (abs_claims s) @ [(i, bs_job st, 1)]\<rparr>"
proof (cases "list_ex (\<lambda>a. ba_job a = bs_job st \<and> ba_no a = 1) (build_attempts s)")
  case True
  then have "views_kept s t" using assms
    by (intro views_keptI) (auto simp: upsertAttemptSnapshot_def Let_def map_update_where)
  then show ?thesis ..
next
  case False
  then have "i \<notin> ba_id ` set (build_attempts s)" using assms
    by (auto simp: upsertAttemptSnapshot_def Let_def list_ex_iff split: if_splits)
  moreover have "abs_plan t = abs_plan s \<and>
    abs_claims t = (abs_claims s)\<lparr>cl_attempts := cl_attempts (abs_claims s) @ [(i, bs_job st, 1)]\<rparr>"
    using False assms by (auto simp: upsertAttemptSnapshot_def Let_def abs_plan_def abs_claims_def split: if_splits)
  ultimately show ?thesis by blast
qed

lemma insert_job_sim:
  assumes ok: "ledger_ok s" and ins: "insert_job i st q d j s = Inr (r, t)" and j: "bj_id j = bs_job st"
  shows "sim s t"
proof (cases "br_idempotency_key q \<noteq> [] \<and>
    list_ex (\<lambda>k. bj_project k = bj_project j \<and> bj_idempotency_key k = bj_idempotency_key j) (build_jobs s)")
  case True
  then have "t = s" using ins by (auto simp: insert_job_def bind_result_Inr split: option.splits)
  then show ?thesis by (simp add: sim_kept)
next
  case False
  let ?s1 = "s\<lparr>build_jobs := build_jobs s @ [j]\<rparr>"
  from False ins obtain s2 where fresh: "\<forall>k \<in> set (build_jobs s). bj_id k \<noteq> bj_id j"
    and s2: "(if bs_status st \<noteq> ''queued'' then upsertAttemptSnapshot i st ?s1 else Inr ?s1) = Inr s2"
    and t: "t = insertJobEvent (bs_job st) ''job.created'' s2"
    unfolding insert_job_def by (auto simp: bind_result_Inr list_ex_iff split: if_splits)
  from fresh have new: "bj_id j \<notin> bj_id ` set (build_jobs s)" by auto
  have free: "\<not> held_job (abs_claims s) l (bj_id j)" if l: "l \<in> set (cl_leases (abs_claims s))" for l
  proof
    assume h: "held_job (abs_claims s) l (bj_id j)"
    obtain x where "(bj_id j, x) \<in> set (cl_jobs (abs_claims s))"
      using lease_ok_held[OF claims_okD(2)[OF ledger_okD(1)[OF ok]] claims_okD(5)[OF ledger_okD(1)[OF ok] l] h] .
    then show False using new by auto
  qed
  have c: "abs_claims ?s1 = (abs_claims s)\<lparr>cl_jobs := cl_jobs (abs_claims s) @ [(bj_id j, bj_state j)]\<rparr>"
    by (simp add: abs_claims_def)
  have "claim_step (abs_claims s) (abs_claims ?s1)" unfolding c using new by (intro claim_step.submit) auto
  then have 1: "sim s ?s1" by (intro sim_claim) (simp_all add: abs_plan_def)
  have "sim ?s1 s2"
  proof (cases "bs_status st = ''queued''")
    case True
    then show ?thesis using s2 by (simp add: sim_kept)
  next
    case False
    then have "upsertAttemptSnapshot i st ?s1 = Inr s2" using s2 by simp
    from upsert_views[OF this] show ?thesis
    proof
      assume new: "i \<notin> ba_id ` set (build_attempts ?s1) \<and> abs_plan s2 = abs_plan ?s1 \<and>
        abs_claims s2 = (abs_claims ?s1)\<lparr>cl_attempts := cl_attempts (abs_claims ?s1) @ [(i, bs_job st, 1)]\<rparr>"
      have "claim_step (abs_claims ?s1) (abs_claims s2)"
        unfolding conjunct2[OF conjunct2[OF new]]
        using new free j by (intro claim_step.attempt) (auto simp: held_job_def)
      then show ?thesis using new by (intro sim_claim) blast+
    qed (rule sim_kept)
  qed
  with 1 have "sim s s2" by (rule sim_trans)
  moreover have "views_kept s2 t" by (simp add: t views_kept_def)
  ultimately show ?thesis by (rule sim_trans_kept)
qed

lemma submit_sim:
  assumes "ledger_ok s" "createJob sha rd sd wall now i (Some q) (Some st) source s0 s = Inr (r, t)"
  shows "sim s t"
proof -
  obtain req project found doc dg where "found = Some r \<and> t = s \<or> found = None \<and> insert_job i st q (rd (digest_document q))
       (new_job now project source q (rd (digest_document q)) st doc dg req) s = Inr (r, t)"
    using createJob_inv[OF assms(2)] by metis
  then show ?thesis
    using insert_job_sim[OF assms(1)] by (auto simp: new_job_def intro: sim_kept)
qed

subsection \<open>Transitions\<close>

lemma validate_lease:
  assumes "validateTransitionClaim now c s = Inr x" "bs_attempt c \<noteq> []"
  obtains a l where "a \<in> set (build_attempts s)" "ba_id a = bs_attempt c" "ba_job a = bs_job c"
    "l \<in> set (worker_leases s)" "wl_attempt l = bs_attempt c"
proof -
  obtain a l where a: "find (\<lambda>a. ba_id a = bs_attempt c \<and> ba_job a = bs_job c) (build_attempts s) = Some a"
    and l: "lookup_by wl_attempt (ba_id a) (worker_leases s) = Some l"
    using assms unfolding validateTransitionClaim_def by (auto split: option.splits)
  then have "a \<in> set (build_attempts s)" "ba_id a = bs_attempt c" "ba_job a = bs_job c"
    by (auto simp: find_Some_iff)
  moreover from this lookup_by_Some[OF l] have "l \<in> set (worker_leases s)" "wl_attempt l = bs_attempt c" by auto
  ultimately show thesis by (rule that)
qed

lemma update_job_row_claims:
  "abs_claims (update_job_row c doc dg rv at s) = (abs_claims s)\<lparr>cl_jobs := set_state (bs_job c) (bs_status c) (cl_jobs (abs_claims s))\<rparr>"
  "abs_plan (update_job_row c doc dg rv at s) = abs_plan s"
proof -
  have "map (\<lambda>j. (bj_id j, bj_state j)) (build_jobs (update_job_row c doc dg rv at s)) =
      set_state (bs_job c) (bs_status c) (map (\<lambda>j. (bj_id j, bj_state j)) (build_jobs s))"
    unfolding update_job_row_def by (simp add: jobs_set_state)
  then show "abs_claims (update_job_row c doc dg rv at s) =
      (abs_claims s)\<lparr>cl_jobs := set_state (bs_job c) (bs_status c) (cl_jobs (abs_claims s))\<rparr>"
    by (simp add: abs_claims_def update_job_row_def)
qed (simp add: abs_plan_def update_job_row_def)

lemma update_fenced_views: "views_kept s (update_fenced_attempt c at s)"
  by (rule views_keptI) (simp_all add: update_fenced_attempt_def map_update_where)

lemma cloud_started_views: "views_kept s (markAttemptCloudStarted a at s)"
  by (rule views_keptI) (simp_all add: markAttemptCloudStarted_def map_update_where runtime_end_def)

lemma delete_attempt_leases_views:
  "abs_claims (delete_attempt_leases a s) = (abs_claims s)\<lparr>cl_leases := filter (\<lambda>l. le_attempt l \<noteq> a) (cl_leases (abs_claims s))\<rparr>"
  "abs_plan (delete_attempt_leases a s) = abs_plan s"
  by (simp_all add: abs_claims_def abs_plan_def delete_attempt_leases_def filter_map comp_def)

lemma transition_tx_views:
  assumes "recordAttemptTransitionTx i c at s = Inr t" "bs_attempt c \<noteq> []"
  shows "\<not> isLedgerTerminal (bs_status c) \<and> views_kept s t \<or>
    abs_claims t = (abs_claims s)\<lparr>cl_leases := filter (\<lambda>l. le_attempt l \<noteq> bs_attempt c) (cl_leases (abs_claims s))\<rparr> \<and>
    plan_step (abs_plan s) (abs_plan t)"
proof -
  let ?s1 = "update_fenced_attempt c at s"
  show ?thesis
  proof (cases "isLedgerTerminal (bs_status c)")
    case True
    with assms obtain s2 where s2: "settleAttemptUsage (bs_attempt c) (''job_'' @ bs_status c) (bs_status c) at ?s1 = Inr s2"
      and t: "t = release_attempt (bs_attempt c) (''job_'' @ bs_status c) at (delete_attempt_leases (bs_attempt c) s2)"
      by (auto simp: recordAttemptTransitionTx_def Let_def bind_result_Inr split: if_splits)
    have v: "views_kept s s2" using update_fenced_views settle_views[OF s2] by (rule views_kept_trans)
    have "plan_step (abs_plan s) (abs_plan t)"
      using release_attempt_plan_step[of "delete_attempt_leases (bs_attempt c) s2"]
      by (simp add: t delete_attempt_leases_views views_keptD(2)[OF v])
    then show ?thesis by (simp add: t delete_attempt_leases_views views_keptD(1)[OF v])
  next
    case False
    with assms have t: "updateResourceReservationPhase (bs_attempt c) (bs_status c)
        (if reservationPhase (bs_status c) = ''provision'' then markAttemptCloudStarted (bs_attempt c) at ?s1 else ?s1) = Inr t"
      by (auto simp: recordAttemptTransitionTx_def Let_def split: if_splits)
    have "views_kept s (if reservationPhase (bs_status c) = ''provision'' then markAttemptCloudStarted (bs_attempt c) at ?s1 else ?s1)"
      using update_fenced_views cloud_started_views views_kept_trans by (simp, blast)
    from views_kept_trans[OF this reservation_phase_views[OF t]] False show ?thesis by blast
  qed
qed

lemma transition_sim:
  assumes ok: "ledger_ok s" and tr: "recordTransition sd now i previous (Some c) s = Inr ((), t)"
    and c: "bs_attempt c \<noteq> []" "bs_status c \<noteq> ''queued''"
  shows "sim s t"
proof (cases "t = s")
  case True
  then show ?thesis by (simp add: sim_kept)
next
  case False
  obtain doc dg where d: "statusDocument sd (Some c) = Inr (doc, dg)" by (simp add: statusDocument_def Let_def)
  define e where "e = (if previous = None \<or> bs_status (the previous) \<noteq> bs_status c
      then ''job.state_changed'' else ''job.snapshot_updated'')"
  from tr False obtain rv s1 x where v: "validateTransitionClaim now c s = Inr x"
    and s1: "recordAttemptTransitionTx i c now (update_job_row c doc dg rv now s) = Inr s1"
    and t: "t = insertJobEvent (bs_job c) e s1"
    unfolding recordTransition_def d e_def by (auto simp: bind_result_Inr split: option.splits if_splits)
  from v c(1) obtain a l where al: "a \<in> set (build_attempts s)" "ba_id a = bs_attempt c" "ba_job a = bs_job c"
    "l \<in> set (worker_leases s)" "wl_attempt l = bs_attempt c" by (rule validate_lease)
  let ?s0 = "update_job_row c doc dg rv now s"
  have held: "held_job (abs_claims s) (abs_lease l) (bs_job c)" using al by (auto simp: held_lease)
  from transition_tx_views[OF s1 c(1)] have "sim s s1"
  proof
    assume r: "\<not> isLedgerTerminal (bs_status c) \<and> views_kept ?s0 s1"
    have "claim_step (abs_claims s) (abs_claims ?s0)" unfolding update_job_row_claims
      using held al(4) c(2) r by (intro claim_step.advance[of "abs_lease l"]) (auto simp: running_state_def)
    then have "sim s ?s0" by (rule sim_claim) (rule update_job_row_claims)
    with r show "sim s s1" by (blast intro: sim_trans_kept)
  next
    assume r: "abs_claims s1 = (abs_claims ?s0)\<lparr>cl_leases := filter (\<lambda>l. le_attempt l \<noteq> bs_attempt c) (cl_leases (abs_claims ?s0))\<rparr> \<and>
      plan_step (abs_plan ?s0) (abs_plan s1)"
    have "claim_step (abs_claims s) ((abs_claims s)\<lparr>cl_jobs := set_state (bs_job c) (bs_status c) (cl_jobs (abs_claims s)),
        cl_leases := filter (\<lambda>l. le_attempt l \<noteq> bs_attempt c) (cl_leases (abs_claims s))\<rparr>)"
    proof (rule claim_step.close)
      fix m assume m: "m \<in> set (cl_leases (abs_claims s))" "le_attempt m \<noteq> bs_attempt c"
      show "\<not> held_job (abs_claims s) m (bs_job c)"
        using claims_exclusive[OF ledger_okD(1)[OF ok] m(1) _ _ held] al(4,5) m(2) by auto
    qed
    then have "claim_step (abs_claims s) (abs_claims s1)" using r by (simp add: update_job_row_claims)
    then show "sim s s1" using r by (simp add: sim_def update_job_row_claims r_into_rtranclp)
  qed
  then show ?thesis by (simp add: sim_def t)
qed

subsection \<open>Recovery\<close>

text \<open>What recovery keeps: the attempts and usage rows, the identities of plan rows, and no new leases.\<close>

definition keeps_ids :: "db \<Rightarrow> db \<Rightarrow> bool" where
  "keeps_ids s t =
     (cl_attempts (abs_claims t) = cl_attempts (abs_claims s) \<and> cl_ends (abs_claims t) = cl_ends (abs_claims s) \<and>
      set (cl_leases (abs_claims t)) \<subseteq> set (cl_leases (abs_claims s)) \<and>
      map (\<lambda>r. (pr_id r, pr_attempt r)) (abs_plan t) = map (\<lambda>r. (pr_id r, pr_attempt r)) (abs_plan s))"

lemma keeps_ids_refl [simp]: "keeps_ids s s"
  by (simp add: keeps_ids_def)

lemma keeps_ids_trans [trans]: "keeps_ids s t \<Longrightarrow> keeps_ids t u \<Longrightarrow> keeps_ids s u"
  unfolding keeps_ids_def by (auto simp del: abs_claims_fields)

lemma views_keeps_ids: "views_kept s t \<Longrightarrow> keeps_ids s t"
  by (simp add: keeps_ids_def views_kept_def)

definition row_of_lease :: "db \<Rightarrow> expired_lease \<Rightarrow> bool" where
  "row_of_lease s row =
     (\<forall>l \<in> set (cl_leases (abs_claims s)). held_job (abs_claims s) l (el_job row) \<longrightarrow> le_id l = el_lease row)"

lemma row_of_lease_mono: "keeps_ids s t \<Longrightarrow> row_of_lease s row \<Longrightarrow> row_of_lease t row"
  unfolding keeps_ids_def row_of_lease_def held_job_def by (auto simp del: abs_claims_fields)

lemma expire_attempt_views: "views_kept s (expire_attempt a r at s)"
  by (rule views_keptI) (simp_all add: expire_attempt_def map_update_where)

lemma delete_lease_views:
  "abs_claims (delete_lease i s) = (abs_claims s)\<lparr>cl_leases := filter (\<lambda>l. le_id l \<noteq> i) (cl_leases (abs_claims s))\<rparr>"
  "abs_plan (delete_lease i s) = abs_plan s"
  by (simp_all add: delete_lease_def abs_claims_def abs_plan_def filter_map comp_def)

lemma requeue_deleted_views:
  "abs_claims (requeue_job job st r doc dg at (release_attempt a r' at (delete_lease i s))) =
     (abs_claims s)\<lparr>cl_jobs := set_state job st (cl_jobs (abs_claims s)),
       cl_leases := filter (\<lambda>l. le_id l \<noteq> i) (cl_leases (abs_claims s))\<rparr>"
  "abs_plan (requeue_job job st r doc dg at (release_attempt a r' at (delete_lease i s))) =
     abs_plan (release_attempt a r' at s)"
proof -
  have "abs_claims (requeue_job job st r doc dg at u) = (abs_claims u)\<lparr>cl_jobs := set_state job st (cl_jobs (abs_claims u))\<rparr>"
    for u
  proof -
    have "map (\<lambda>j. (bj_id j, bj_state j)) (build_jobs (requeue_job job st r doc dg at u)) =
        set_state job st (map (\<lambda>j. (bj_id j, bj_state j)) (build_jobs u))"
      unfolding requeue_job_def by (simp add: jobs_set_state)
    then show ?thesis by (simp add: abs_claims_def requeue_job_def)
  qed
  then show "abs_claims (requeue_job job st r doc dg at (release_attempt a r' at (delete_lease i s))) =
     (abs_claims s)\<lparr>cl_jobs := set_state job st (cl_jobs (abs_claims s)),
       cl_leases := filter (\<lambda>l. le_id l \<noteq> i) (cl_leases (abs_claims s))\<rparr>"
    by (simp add: delete_lease_views del: abs_claims_fields)
qed (simp add: requeue_job_def delete_lease_def abs_plan_def release_attempt_fields)

lemma recover_one:
  assumes "recoverExpiredLease sd now row (tally, s) = Inr (tally', t)" "row_of_lease s row"
  shows "sim s t \<and> keeps_ids s t"
proof -
  obtain st reason where o: "expiredLeaseOutcome row = (st, reason)" by fastforce
  let ?s0 = "expire_attempt (el_attempt row) reason now s"
  from assms(1) obtain doc dg s1 where s1: "settleAttemptUsage (el_attempt row) ''lease_expired'' ''expired'' now ?s0 = Inr s1"
    and t: "t = insertJobEvent (el_job row) ''job.lease_expired'' (requeue_job (el_job row) st reason doc dg now
      (release_attempt (el_attempt row) ''lease_expired'' now (delete_lease (el_lease row) s1)))"
    unfolding recoverExpiredLease_def o by (auto simp: bind_result_Inr Let_def split: option.splits if_splits)
  have v: "views_kept s s1" using expire_attempt_views settle_views[OF s1] by (rule views_kept_trans)
  have ct: "abs_claims t = (abs_claims s)\<lparr>cl_jobs := set_state (el_job row) st (cl_jobs (abs_claims s)),
      cl_leases := filter (\<lambda>l. le_id l \<noteq> el_lease row) (cl_leases (abs_claims s))\<rparr>"
    by (simp add: t requeue_deleted_views views_keptD(1)[OF v])
  have pt: "abs_plan t = abs_plan (release_attempt (el_attempt row) ''lease_expired'' now s1)"
    by (simp add: t requeue_deleted_views)
  have "claim_step (abs_claims s) (abs_claims t)" unfolding ct
    using assms(2) by (intro claim_step.close) (auto simp: row_of_lease_def)
  moreover have "plan_step (abs_plan s) (abs_plan t)"
    using release_attempt_plan_step[of s1] by (simp add: pt views_keptD(2)[OF v])
  moreover have "map (\<lambda>r. (pr_id r, pr_attempt r)) (abs_plan t) = map (\<lambda>r. (pr_id r, pr_attempt r)) (abs_plan s)"
    unfolding pt release_attempt_plan views_keptD(2)[OF v] by (simp add: map_update_where ended_row_def)
  ultimately show ?thesis unfolding sim_def keeps_ids_def by (auto simp: ct)
qed

lemma recover_rows:
  assumes "fold_result (recoverExpiredLease sd now) rows (tally, s) = Inr (tally', t)" "\<forall>row \<in> set rows. row_of_lease s row"
  shows "sim s t \<and> keeps_ids s t"
  using assms
proof (induction rows arbitrary: tally s)
  case Nil
  then show ?case by (simp add: sim_kept)
next
  case (Cons row rows)
  then obtain tally1 s1 where s1: "recoverExpiredLease sd now row (tally, s) = Inr (tally1, s1)"
    "fold_result (recoverExpiredLease sd now) rows (tally1, s1) = Inr (tally', t)"
    by (auto simp: bind_result_Inr)
  have 1: "sim s s1 \<and> keeps_ids s s1" using recover_one[OF s1(1)] Cons.prems(2) by simp
  moreover have "sim s1 t \<and> keeps_ids s1 t"
    using Cons.IH[OF s1(2)] Cons.prems(2) row_of_lease_mono 1 by (meson list.set_intros(2))
  ultimately show ?case using sim_trans keeps_ids_trans by blast
qed

lemma expired_rows_of_leases:
  assumes ok: "ledger_ok s" and row: "row \<in> set (loadExpiredLeases busy now limit s)"
  shows "row_of_lease s row"
proof -
  from row obtain l where l: "l \<in> set (worker_leases s)" "expired_row now s l = Some row"
    unfolding loadExpiredLeases_def by (auto dest!: in_set_takeD set_map_filter[THEN iffD1])
  then obtain a j where a: "lookup_by ba_id (wl_attempt l) (build_attempts s) = Some a"
    "lookup_by bj_id (ba_job a) (build_jobs s) = Some j" and r: "el_lease row = wl_id l" "el_job row = bj_id j"
    unfolding expired_row_def by (auto split: if_splits option.splits)
  have held: "held_job (abs_claims s) (abs_lease l) (el_job row)"
    using lookup_by_Some[OF a(1)] lookup_by_Some[OF a(2)] r(2) by (auto simp: held_lease)
  show ?thesis unfolding row_of_lease_def
    using claims_exclusive[OF ledger_okD(1)[OF ok] _ _ _ held] l(1) r(1) by fastforce
qed

lemma recover_sim:
  assumes "ledger_ok s" "recoverExpiredTx sd busy now limit s = Inr (n, t)"
  shows "sim s t \<and> keeps_ids s t"
proof -
  from assms(2) obtain tally s1 where
    s1: "fold_result (recoverExpiredLease sd now) (loadExpiredLeases busy now limit s) ([], s) = Inr (tally, s1)"
    and t: "flushLeaseExpiries tally s1 = Inr t"
    by (auto simp: recoverExpiredTx_def Let_def bind_result_Inr)
  have "sim s s1 \<and> keeps_ids s s1" using recover_rows[OF s1] expired_rows_of_leases[OF assms(1)] by blast
  with flush_views[OF t] show ?thesis using sim_trans_kept(1) keeps_ids_trans views_keeps_ids by blast
qed

end
