(* ===== verification/Ledger_Claims.thy ===== *)
theory Ledger_Claims
  imports Ledger_Steps
begin

text \<open>
  The scheduler's remaining operations against the contracts: claiming a job in a poll, renewing,
  canceling, retrying, hiding and retention.
\<close>

lemma find_SomeD: "find P xs = Some x \<Longrightarrow> x \<in> set xs \<and> P x"
  by (auto simp: find_Some_iff)

section \<open>Polling\<close>

text \<open>The UUIDs of a poll are new.\<close>

definition fresh_ids :: "claim_ids \<Rightarrow> db \<Rightarrow> bool" where
  "fresh_ids ids s =
     (id_attempt ids \<notin> ba_id ` set (build_attempts s) \<and> id_attempt ids \<notin> au_attempt ` set (attempt_usage s) \<and>
      id_attempt ids \<notin> pi_attempt ` set (phase_items s) \<and> id_lease ids \<notin> wl_id ` set (worker_leases s) \<and>
      distinct (id_items ids) \<and> length (id_items ids) = 4 \<and>
      list_all (\<lambda>i. i \<notin> pi_id ` set (phase_items s)) (id_items ids))"

definition fresh_in :: "claim_ids \<Rightarrow> claims \<Rightarrow> plan_row list \<Rightarrow> bool" where
  "fresh_in ids c rows =
     (id_attempt ids \<notin> fst ` set (cl_attempts c) \<and> id_attempt ids \<notin> fst ` set (cl_ends c) \<and>
      id_attempt ids \<notin> pr_attempt ` set rows \<and> id_lease ids \<notin> le_id ` set (cl_leases c) \<and>
      distinct (id_items ids) \<and> length (id_items ids) = 4 \<and> set (id_items ids) \<inter> pr_id ` set rows = {})"

lemma fresh_ids_view: "fresh_ids ids s \<longleftrightarrow> fresh_in ids (abs_claims s) (abs_plan s)"
  by (simp add: fresh_ids_def fresh_in_def list_all_iff abs_plan_def image_image disjoint_iff Ball_def)

lemma fresh_keeps_ids:
  assumes "keeps_ids s t" "fresh_ids ids s"
  shows "fresh_ids ids t"
proof -
  have k: "map (\<lambda>r. (pr_id r, pr_attempt r)) (abs_plan t) = map (\<lambda>r. (pr_id r, pr_attempt r)) (abs_plan s)"
    using assms(1) unfolding keeps_ids_def by blast
  have p: "pr_id ` set (abs_plan t) = pr_id ` set (abs_plan s)" "pr_attempt ` set (abs_plan t) = pr_attempt ` set (abs_plan s)"
    using arg_cong[OF k, of "\<lambda>x. set (map fst x)"] arg_cong[OF k, of "\<lambda>x. set (map snd x)"]
    unfolding map_map comp_def fst_conv snd_conv set_map .
  have c: "cl_attempts (abs_claims t) = cl_attempts (abs_claims s)" "cl_ends (abs_claims t) = cl_ends (abs_claims s)"
    "set (cl_leases (abs_claims t)) \<subseteq> set (cl_leases (abs_claims s))"
    using assms(1) by (simp_all only: keeps_ids_def)
  have "id_lease ids \<notin> le_id ` set (cl_leases (abs_claims t))"
    using image_mono[OF c(3), of le_id] assms(2)[unfolded fresh_ids_view fresh_in_def] by (meson subsetD)
  then show ?thesis using assms(2) unfolding fresh_ids_view fresh_in_def p c(1,2) by (elim conjE) (intro conjI)
qed

lemma plan_inserted:
  assumes "insertPhaseWorkPlan sha ids project job attempt request at s = Inr t"
  shows "abs_plan t = abs_plan s @ new_plan ids job attempt" "abs_claims t = abs_claims s"
  using assms
  by (auto simp: insertPhaseWorkPlan_def bind_result_Inr abs_plan_def abs_claims_def new_plan_def new_row_def
      phase_plan_item_def abs_row_def)

lemma new_plan_distinct:
  assumes "plan_ok rows" "distinct ids" "length ids = 4" "set ids \<inter> pr_id ` set rows = {}"
  shows "distinct (map pr_id (rows @ new_plan ids job attempt))"
proof -
  from assms(3) obtain a b c d where "ids = [a, b, c, d]" by (auto simp: numeral_eq_Suc length_Suc_conv)
  then show ?thesis using assms plan_okD(1)[OF assms(1)] by (auto simp: new_plan_def new_row_def)
qed

lemma persist_sim:
  assumes ok: "ledger_ok s" and fresh: "fresh_ids ids s" and j: "j \<in> set (build_jobs s)" "bj_state j = ''queued''"
    and p: "persistClaim sha sd now ids j resources budget w name kind lease no fence s = Inr (claim, t)"
  shows "sim s t"
proof -
  let ?s1 = "insert_attempt now (id_attempt ids) (bj_id j) w no fence s"
  let ?s2 = "insert_reservation (id_attempt ids) (bj_project j) (bj_id j) resources ?s1"
  let ?s3 = "insertAttemptUsage (id_attempt ids) (bj_project j) (bj_id j) budget now ?s2"
  define e where "e = min (now + lease) (now + seconds (MaxRuntimeSeconds budget))"
  from p obtain s4 doc dg where
    s4: "insertPhaseWorkPlan sha (id_items ids) (bj_project j) (bj_id j) (id_attempt ids) (candidate_request j) now ?s3 = Inr s4"
    and t: "t = insertJobEvent (bj_id j) ''job.claimed'' (mark_job_claimed now (bj_id j) doc dg
      (insert_lease (id_lease ids) w (id_attempt ids) fence kind e s4))"
    unfolding persistClaim_def e_def by (auto simp: Let_def bind_result_Inr)
  define l where "l = \<lparr>le_id = id_lease ids, le_attempt = id_attempt ids, le_fence = fence, le_expires = e\<rparr>"
  define fin where "fin = now + seconds (MaxRuntimeSeconds budget)"
  have c3: "abs_claims s4 = (abs_claims s)\<lparr>cl_attempts := cl_attempts (abs_claims s) @ [(id_attempt ids, bj_id j, fence)],
      cl_ends := cl_ends (abs_claims s) @ [(id_attempt ids, fin)]\<rparr>"
    unfolding plan_inserted(2)[OF s4]
    by (simp add: abs_claims_def insert_attempt_def insert_reservation_def insertAttemptUsage_def runtime_end_def fin_def)
  have mark: "abs_claims (mark_job_claimed now (bj_id j) doc dg u) =
      (abs_claims u)\<lparr>cl_jobs := set_state (bj_id j) ''claimed'' (cl_jobs (abs_claims u))\<rparr>" for u
  proof -
    have "map (\<lambda>j. (bj_id j, bj_state j)) (build_jobs (mark_job_claimed now (bj_id j) doc dg u)) =
        set_state (bj_id j) ''claimed'' (map (\<lambda>j. (bj_id j, bj_state j)) (build_jobs u))"
      unfolding mark_job_claimed_def by (simp add: jobs_set_state)
    then show ?thesis by (simp add: abs_claims_def mark_job_claimed_def)
  qed
  have ins: "abs_claims (insert_lease (id_lease ids) w (id_attempt ids) fence kind e u) =
      (abs_claims u)\<lparr>cl_leases := cl_leases (abs_claims u) @ [l]\<rparr>" for u
    by (simp add: abs_claims_def insert_lease_def abs_lease_def l_def)
  have "abs_claims t = (abs_claims s)\<lparr>cl_jobs := set_state (bj_id j) ''claimed'' (cl_jobs (abs_claims s)),
      cl_attempts := cl_attempts (abs_claims s) @ [(id_attempt ids, bj_id j, fence)],
      cl_ends := cl_ends (abs_claims s) @ [(id_attempt ids, fin)], cl_leases := cl_leases (abs_claims s) @ [l]\<rparr>"
    by (simp add: t mark ins c3 del: abs_claims_fields)
  moreover have "(bj_id j, ''queued'') \<in> set (cl_jobs (abs_claims s))" using j by force
  ultimately have "claim_step (abs_claims s) (abs_claims t)"
    using fresh by (auto intro!: claim_step.claim simp: fresh_ids_view fresh_in_def l_def e_def fin_def simp del: abs_claims_fields)
  moreover have plan: "abs_plan t = abs_plan s @ new_plan (id_items ids) (bj_id j) (id_attempt ids)"
    using plan_inserted(1)[OF s4]
    by (simp add: t mark_job_claimed_def insert_lease_def abs_plan_def insert_attempt_def insert_reservation_def insertAttemptUsage_def)
  have "plan_step (abs_plan s) (abs_plan t)" unfolding plan
    using fresh[unfolded fresh_ids_view fresh_in_def] by (intro plan_step.plan new_plan_distinct ledger_okD(2)[OF ok]) blast+
  ultimately show ?thesis by (rule sim_steps)
qed

lemma candidate_job:
  assumes "selectClaimCandidate busy now w s = (Some c, t)"
  shows "t = ensureProjectFairnessRows s" "cc_job c \<in> set (build_jobs t)" "bj_state (cc_job c) = ''queued''"
  using assms unfolding selectClaimCandidate_def
  by (auto split: prod.splits option.splits dest!: fair_selection_state(1) order_limit1_in simp: admission_eligible_def)

lemma candidate_state:
  assumes "selectClaimCandidate busy now w s = (r, t)"
  shows "t = ensureProjectFairnessRows s"
  using assms unfolding selectClaimCandidate_def
  by (auto split: prod.splits option.splits dest!: fair_selection_state(1))

lemma accounting_state:
  assumes "prepareClaimAccounting now project job request s = Inr (r, t)"
  shows "views_kept s t" "r \<noteq> None \<Longrightarrow> t = s"
  using assms by (auto simp: prepareClaimAccounting_def bind_result_Inr split: if_splits)

lemma claim_tx_sim:
  assumes ok: "ledger_ok s" and fresh: "fresh_ids ids s"
    and c: "claimNextTx sha sd busy now ids w name kind lease s = Inr (claim, t)"
  shows "sim s t"
proof -
  obtain r s0 where r: "selectClaimCandidate busy now w s = (r, s0)" by fastforce
  have v0: "views_kept s s0" by (simp add: candidate_state[OF r])
  show ?thesis
  proof (cases r)
    case None
    with c r v0 show ?thesis by (auto simp: claimNextTx_def intro: sim_kept)
  next
    case (Some k)
    note k = candidate_job[OF r[unfolded Some]]
    from c obtain adm s1 where s1: "prepareClaimAccounting now (bj_project (cc_job k)) (bj_id (cc_job k))
        (candidate_request (cc_job k)) s0 = Inr (adm, s1)"
      unfolding claimNextTx_def r Some by (auto simp: bind_result_Inr)
    have v1: "views_kept s s1" using v0 accounting_state(1)[OF s1] by (rule views_kept_trans)
    show ?thesis
    proof (cases adm)
      case None
      with c r Some s1 have "t = s1" by (auto simp: claimNextTx_def)
      with v1 show ?thesis by (simp add: sim_kept)
    next
      case adm: (Some x)
      have s10: "s1 = s0" using accounting_state(2)[OF s1] adm by simp
      obtain resources budget where x: "x = (resources, budget)" by fastforce
      from c obtain no fence cl s2 ds s4 y where
        p: "persistClaim sha sd now ids (cc_job k) resources budget w name kind lease no fence s1 = Inr (cl, s2)"
        and s4: "recordFairDispatch now (cc_fairness k) ''admission'' (bj_created_at (cc_job k))
            (s2\<lparr>worker_decisions := ds\<rparr>) = Inr (y, s4)"
        and t: "t = insertJobEvent (bj_id (cc_job k)) ''scheduler.fair_dispatch'' s4"
        unfolding claimNextTx_def r Some by (auto simp: s1 adm x bind_result_Inr Let_def)
      have "ledger_ok s1" "fresh_ids ids s1"
        using ok fresh views_keptD[OF v1] by (simp_all add: ledger_ok_def fresh_ids_view)
      then have "sim s1 s2" using p k(2,3) s10 persist_sim by blast
      moreover have "views_kept s2 (s2\<lparr>worker_decisions := ds\<rparr>)" by (simp add: views_kept_def abs_claims_def abs_plan_def)
      moreover have "views_kept (s2\<lparr>worker_decisions := ds\<rparr>) t" using record_dispatch_views[OF s4] by (simp add: t views_kept_def)
      ultimately show ?thesis using v1 sim_trans_kept views_kept_trans by blast
    qed
  qed
qed

lemma poll_sim:
  assumes ok: "ledger_ok s" and fresh: "fresh_ids ids s"
    and p: "fst (ClaimNext sha sd busy wall now ids sample name lease caps cache s) = Inr (claim, t)"
  shows "sim s t"
proof -
  from p obtain labels w cache' s1 n s2 where
    s1: "schedulerWorker wall now (id_worker ids) name labels sample cache s = (w, cache', s1)"
    and s2: "recoverExpiredTx sd busy now schedulerRecoveryBatch s1 = Inr (n, s2)"
    and t: "claimNextTx sha sd busy now ids w name (schedulerLeaseKind labels) lease s2 = Inr (claim, t)"
    unfolding ClaimNext_def by (auto simp: bind_result_Inr split: if_splits sum.splits prod.splits option.splits)
  note v1 = scheduler_worker_views[OF s1]
  have ok1: "ledger_ok s1" using ok views_keptD[OF v1] by (simp add: ledger_ok_def)
  have r: "sim s1 s2" "keeps_ids s1 s2" using recover_sim[OF ok1 s2] by simp_all
  have "fresh_ids ids s2" using fresh_keeps_ids[OF keeps_ids_trans[OF views_keeps_ids[OF v1] r(2)] fresh] .
  then have "sim s2 t" using claim_tx_sim[OF sim_ok[OF r(1) ok1] _ t] by blast
  with v1 r(1) show ?thesis using sim_trans sim_trans_kept by blast
qed

section \<open>Holding, canceling, retrying\<close>

text \<open>Moving the expiry of leases of one attempt, never beyond its runtime.\<close>

lemma renew_sim:
  assumes ok: "ledger_ok s" and u: "lookup_by au_attempt a (attempt_usage s) = Some u"
    and t: "t\<lparr>phase_items := [], workers := []\<rparr> = s\<lparr>worker_leases := update_where p (\<lambda>l. l\<lparr>wl_expires := min (runtime_end u) (g (wl_expires l))\<rparr>)
      (worker_leases s), phase_items := [], workers := []\<rparr>"
    and p: "\<And>l. p l \<Longrightarrow> wl_attempt l = a" and plan: "abs_plan t = abs_plan s"
  shows "sim s t"
proof -
  let ?f = "\<lambda>l. l\<lparr>wl_expires := min (runtime_end u) (g (wl_expires l))\<rparr>"
  let ?h = "\<lambda>l. l\<lparr>le_expires := min (runtime_end u) (g (le_expires l))\<rparr>"
  let ?q = "\<lambda>y. \<exists>r \<in> set (worker_leases s). abs_lease r = y \<and> p r"
  have "map abs_lease (update_where p ?f (worker_leases s)) = update_where ?q ?h (map abs_lease (worker_leases s))"
    by (rule map_update_where_sim[OF ledger_distinct(6)[OF ok]]) (simp add: abs_lease_def)
  moreover have "worker_leases t = update_where p ?f (worker_leases s)" "build_jobs t = build_jobs s"
    "build_attempts t = build_attempts s" "attempt_usage t = attempt_usage s"
    using arg_cong[OF t, of worker_leases] arg_cong[OF t, of build_jobs] arg_cong[OF t, of build_attempts]
      arg_cong[OF t, of attempt_usage] by simp_all
  ultimately have c: "abs_claims t = (abs_claims s)\<lparr>cl_leases := update_where ?q ?h (cl_leases (abs_claims s))\<rparr>"
    by (simp add: abs_claims_def)
  have fin: "(a, runtime_end u) \<in> set (cl_ends (abs_claims s))" using lookup_by_Some[OF u] by force
  have "claim_step (abs_claims s) (abs_claims t)" unfolding c
  proof (rule claim_step.renew)
    fix l assume "?q l"
    then have "le_attempt l = a" using p by auto
    then show "\<exists>fin. (le_attempt l, fin) \<in> set (cl_ends (abs_claims s)) \<and> min (runtime_end u) (g (le_expires l)) \<le> fin"
      using fin by (intro exI[of _ "runtime_end u"]) simp
  qed
  then show ?thesis using plan by (rule sim_claim)
qed

lemma renew_claim_sim:
  assumes "ledger_ok s" "RenewClaim now status lease s = Inr ((), t)"
  shows "sim s t"
proof -
  from assms(2) obtain st where st: "status = Some st" "count_where (renewable now st s) (worker_leases s) = 1"
    and t: "t = s\<lparr>worker_leases := update_where (renewable now st s)
      (\<lambda>l. l\<lparr>wl_expires := min (runtime_end (the (lookup_by au_attempt (bs_attempt st) (attempt_usage s)))) (now + lease)\<rparr>)
      (worker_leases s)\<rparr>"
    by (auto simp: RenewClaim_def split: option.splits if_splits)
  from st(2) obtain l where "renewable now st s l" using count_where_pos[of "renewable now st s" "worker_leases s"] by auto
  then obtain u where u: "lookup_by au_attempt (bs_attempt st) (attempt_usage s) = Some u"
    by (auto simp: renewable_def split: option.splits)
  show ?thesis
    by (rule renew_sim[OF assms(1) u, of t "renewable now st s" "\<lambda>_. now + lease"])
       (simp_all add: t u renewable_def abs_plan_def)
qed

lemma cancel_job_row_views:
  "abs_claims (cancel_job_row doc dg job reason at s) = (abs_claims s)\<lparr>cl_jobs := set_state job ''canceled'' (cl_jobs (abs_claims s))\<rparr>"
  "abs_plan (cancel_job_row doc dg job reason at s) = abs_plan s"
proof -
  have "map (\<lambda>j. (bj_id j, bj_state j)) (build_jobs (cancel_job_row doc dg job reason at s)) =
      set_state job ''canceled'' (map (\<lambda>j. (bj_id j, bj_state j)) (build_jobs s))"
    unfolding cancel_job_row_def by (simp add: jobs_set_state)
  moreover have "map (\<lambda>a. (ba_id a, ba_job a, ba_fence a)) (build_attempts (cancel_job_row doc dg job reason at s)) =
      map (\<lambda>a. (ba_id a, ba_job a, ba_fence a)) (build_attempts s)"
    unfolding cancel_job_row_def by (simp add: map_update_where)
  moreover have "attempt_usage (cancel_job_row doc dg job reason at s) = attempt_usage s"
    "worker_leases (cancel_job_row doc dg job reason at s) = worker_leases s"
    by (simp_all add: cancel_job_row_def)
  ultimately show "abs_claims (cancel_job_row doc dg job reason at s) =
      (abs_claims s)\<lparr>cl_jobs := set_state job ''canceled'' (cl_jobs (abs_claims s))\<rparr>"
    by (simp add: abs_claims_def)
qed (simp add: abs_plan_def cancel_job_row_def)

lemma cancel_rows_views:
  "abs_claims (cancel_rows job at s) = (abs_claims s)\<lparr>cl_leases := filter (\<lambda>l. \<not> held_job (abs_claims s) l job) (cl_leases (abs_claims s))\<rparr>"
  "abs_plan (cancel_rows job at s) = update_where (\<lambda>r. pr_job r = job \<and> plan_open (pr_state r)) (ended_row PCanceled) (abs_plan s)"
proof -
  have f: "build_jobs (cancel_rows job at s) = build_jobs s" "build_attempts (cancel_rows job at s) = build_attempts s"
    "attempt_usage (cancel_rows job at s) = attempt_usage s"
    "worker_leases (cancel_rows job at s) = filter (\<lambda>l. \<not> list_ex (\<lambda>a. ba_job a = job \<and> ba_id a = wl_attempt l) (build_attempts s)) (worker_leases s)"
    "phase_items (cancel_rows job at s) = update_where (\<lambda>w. pi_job w = job \<and> item_open w) (cancel_item at ''job_canceled'') (phase_items s)"
    by (simp_all add: cancel_rows_def)
  have h: "list_ex (\<lambda>a. ba_job a = job \<and> ba_id a = wl_attempt l) (build_attempts s) = held_job (abs_claims s) (abs_lease l) job" for l
    unfolding held_lease list_ex_iff by blast
  show "abs_claims (cancel_rows job at s) = (abs_claims s)\<lparr>cl_leases := filter (\<lambda>l. \<not> held_job (abs_claims s) l job) (cl_leases (abs_claims s))\<rparr>"
    unfolding abs_claims_def[of "cancel_rows job at s"] f h by (simp add: filter_map comp_def abs_claims_def)
  show "abs_plan (cancel_rows job at s) = update_where (\<lambda>r. pr_job r = job \<and> plan_open (pr_state r)) (ended_row PCanceled) (abs_plan s)"
    unfolding abs_plan_def f by (rule map_update_where_abs) simp_all
qed

lemma cancel_sim:
  assumes ok: "ledger_ok s" and c: "CancelJob sd now job reason s = Inr (st, t)"
  shows "sim s t"
proof -
  from c obtain doc dg s1 where s1: "settleJobAttemptUsage job ''job_canceled'' ''canceled'' now (cancel_job_row doc dg job reason now s) = Inr s1"
    and t: "t = insertJobEvent job ''job.canceled'' (revokeWorkerGatewayJob job ''job_canceled'' now (cancel_rows job now s1))"
    by (auto simp: CancelJob_def Let_def bind_result_Inr split: option.splits if_splits)
  note v1 = views_keptD[OF settle_job_views[OF s1], unfolded cancel_job_row_views]
  have at: "held_job (abs_claims s1) l k = held_job (abs_claims s) l k" for l k
    by (simp add: v1(1) held_job_def)
  have ct: "abs_claims t = (abs_claims s)\<lparr>cl_jobs := set_state job ''canceled'' (cl_jobs (abs_claims s)),
      cl_leases := filter (\<lambda>l. \<not> held_job (abs_claims s) l job) (cl_leases (abs_claims s))\<rparr>"
    unfolding t insertJobEvent_views revoke_job_views cancel_rows_views at unfolding v1(1) by simp
  have pt: "abs_plan t = update_where (\<lambda>r. pr_job r = job \<and> plan_open (pr_state r)) (ended_row PCanceled) (abs_plan s)"
    unfolding t insertJobEvent_views revoke_job_views cancel_rows_views v1(2) ..
  have "claim_step (abs_claims s) (abs_claims t)" unfolding ct by (rule claim_step.close)
  moreover have "plan_step (abs_plan s) (abs_plan t)" unfolding pt
  proof (rule plan_step.cancel)
    fix v w assume vw: "v \<in> set (abs_plan s)" "w \<in> set (abs_plan s)" "pr_attempt v = pr_attempt w"
    show "(pr_job v = job) = (pr_job w = job)"
      using plan_okD(3)[OF ledger_okD(2)[OF ok] vw(1,2)] vw(3) by (simp add: pair_ok_def)
  qed
  ultimately show ?thesis by (rule sim_steps)
qed

lemma retry_sim:
  assumes ok: "ledger_ok s" and r: "RetryJob sd now job s = Inr (st, t)"
  shows "sim s t"
proof -
  from r obtain j doc dg where f: "find (\<lambda>j. bj_id j = job \<and> bj_visible j) (build_jobs s) = Some j"
    "bj_state j \<in> {''failed'', ''canceled''}"
    and t: "t = insertJobEvent job ''job.retry_queued'' (requeue_retry doc dg job now s)"
    by (auto simp: RetryJob_def Let_def bind_result_Inr split: option.splits if_splits)
  from f have j: "j \<in> set (build_jobs s)" "bj_id j = job" "bj_state j \<in> {''failed'', ''canceled''}"
    by (auto dest: find_SomeD)
  have "map (\<lambda>j. (bj_id j, bj_state j)) (build_jobs (requeue_retry doc dg job now s)) =
      set_state job ''queued'' (map (\<lambda>j. (bj_id j, bj_state j)) (build_jobs s))"
    unfolding requeue_retry_def by (simp add: jobs_set_state)
  then have c: "abs_claims t = (abs_claims s)\<lparr>cl_jobs := set_state job ''queued'' (cl_jobs (abs_claims s)),
      cl_leases := filter (\<lambda>_. True) (cl_leases (abs_claims s))\<rparr>"
    by (simp add: t abs_claims_def requeue_retry_def)
  have "(job, bj_state j) \<in> set (cl_jobs (abs_claims s))" "\<not> running_state (bj_state j)"
    using j by (auto simp: running_state_def isLedgerTerminal_def)
  then have "claim_step (abs_claims s) (abs_claims t)" unfolding c
    using queued_not_held[OF ledger_okD(1)[OF ok]] by (intro claim_step.close) blast
  then show ?thesis by (rule sim_claim) (simp add: t requeue_retry_def abs_plan_def)
qed

section \<open>Hiding, retention and stale workers\<close>

lemma hide_views: "HideJob now c s = Inr ((), t) \<Longrightarrow> views_kept s t"
  by (rule views_keptI) (auto simp: HideJob_def hide_def map_update_where split: if_splits)

lemma expire_batch_views: "views_kept s (expire_batch ids s)"
  by (rule views_keptI) (simp_all add: expire_batch_def fold_insertJobEvent hide_def map_update_where)

lemma retention_views: "ExpireTerminal before locked n s = (k, t) \<Longrightarrow> views_kept s t"
proof (induction before locked n s arbitrary: k rule: ExpireTerminal.induct)
  case (1 before locked n s)
  let ?t = "expire_batch (expire_ids before (locked n) s) s"
  show ?case
  proof (cases "length (expire_ids before (locked n) s) < terminalRetentionBatchSize")
    case True
    with 1(2) have "t = ?t" by (simp add: ExpireTerminal.simps[of before locked n s] Let_def)
    then show ?thesis using expire_batch_views by simp
  next
    case False
    with 1(2) obtain m where "ExpireTerminal before locked (Suc n) ?t = (m, t)"
      by (auto simp: ExpireTerminal.simps[of before locked n s] Let_def split: prod.splits)
    with 1(1)[OF refl refl False] show ?thesis using expire_batch_views views_kept_trans by blast
  qed
qed

lemma prune_batch_views: "views_kept s (prune_batch ids s)"
  by (rule views_keptI) (simp_all add: prune_batch_def Let_def map_update_where)

lemma prune_views: "PruneStaleWorkers before locked n s = (k, t) \<Longrightarrow> views_kept s t"
proof (induction before locked n s arbitrary: k rule: PruneStaleWorkers.induct)
  case (1 before locked n s)
  let ?ids = "prune_ids before (locked n) s"
  let ?t = "if ?ids = [] then s else prune_batch ?ids s"
  have b: "views_kept s ?t" using prune_batch_views by simp
  show ?case
  proof (cases "length ?ids < staleWorkerPruneBatch")
    case True
    with 1(2) b show ?thesis by (simp add: PruneStaleWorkers.simps[of before locked n s] Let_def split: if_splits)
  next
    case False
    with 1(2) obtain m where "PruneStaleWorkers before locked (Suc n) ?t = (m, t)"
      by (auto simp: PruneStaleWorkers.simps[of before locked n s] Let_def split: prod.splits)
    with 1(1)[OF refl refl refl False] b show ?thesis using views_kept_trans by blast
  qed
qed

end
