(* ===== verification/Ledger_Phases.thy ===== *)
theory Ledger_Phases
  imports Ledger_Claims
begin

text \<open>
  The phase store against the contracts: activating a plan, polling for a phase, renewing, finishing a
  phase, and ending the attempt and its job with the last or a failed phase.
\<close>

section \<open>Activating and polling\<close>

lemma activate_views:
  assumes "ActivatePhasePlan now status s = Inr ((), t)"
  shows "views_kept s t"
  using assms unfolding ActivatePhasePlan_def
  by (intro views_keptI) (auto simp: bind_result_Inr map_update_where abs_row_def split: option.splits if_splits)

lemma reclaim_sim:
  assumes "ledger_ok s"
  shows "sim s (s\<lparr>phase_items := update_where (phase_lease_expired now) (reclaim_item now) (phase_items s)\<rparr>)"
proof (rule sim_plan)
  let ?t = "s\<lparr>phase_items := update_where (phase_lease_expired now) (reclaim_item now) (phase_items s)\<rparr>"
  let ?q = "\<lambda>y. \<exists>r \<in> set (phase_items s). abs_row r = y \<and> phase_lease_expired now r"
  have p: "abs_plan ?t = update_where ?q lost_row (abs_plan s)"
    unfolding abs_plan_def using map_update_where_sim[OF ledger_distinct(7)[OF assms], of "phase_lease_expired now" "reclaim_item now" lost_row]
    by (simp add: abs_row_def reclaim_item_def lost_row_def)
  show "plan_step (abs_plan s) (abs_plan ?t)" unfolding p
    by (rule plan_step.reclaim) (auto simp: phase_lease_expired_def)
qed (simp add: abs_claims_def)

lemma defer_item_views:
  "views_kept s (s\<lparr>phase_items := update_where p (\<lambda>v. v\<lparr>pi_available_at := a, pi_updated_at := b\<rparr>) (phase_items s)\<rparr>)"
  by (rule views_keptI) (simp_all add: map_update_where abs_row_def)

lemma take_sim:
  assumes ok: "ledger_ok s" and w: "ph_item c \<in> set (phase_items s)" and owner: "owner \<noteq> []"
    and t: "take_phase_item now owner workerID executor lease sel c s = Inr (r, t)"
  shows "sim s t"
proof (cases "updateResourceReservationPhase (pi_attempt (ph_item c)) (phaseWorkState (pi_phase (ph_item c))) s")
  case (Inl e)
  with t have "views_kept s t" using defer_item_views
    by (cases e) (auto simp: take_phase_item_def Let_def)
  then show ?thesis by (rule sim_kept)
next
  case (Inr s1)
  let ?w = "ph_item c"
  let ?items = "update_where (\<lambda>v. pi_id v = pi_id ?w \<and> pi_state v = PReady) (claim_item now owner (pi_fence ?w + 1) (now + lease)) (phase_items s1)"
  from t Inr obtain ds y s3 where
    s3: "recordFairDispatch now sel ''phase'' (ready_at ?w) (s1\<lparr>phase_items := ?items, worker_decisions := ds\<rparr>) = Inr (y, s3)"
    and t3: "t = insertJobEvent (pi_job ?w) ''scheduler.fair_dispatch'' s3"
    by (auto simp: take_phase_item_def Let_def bind_result_Inr split: if_splits)
  let ?s2 = "s1\<lparr>phase_items := ?items, worker_decisions := ds\<rparr>"
  note f = reservation_phase_frame[OF Inr]
  have only: "v = ?w" if "v \<in> set (phase_items s)" "pi_id v = pi_id ?w" for v
    using distinct_key_eq[OF ledger_distinct(5)[OF ok] that(1) w] that(2) by simp
  have "map abs_row ?items = update_where (\<lambda>r. pr_id r = pi_id ?w \<and> pr_state r = PReady) (taken_row owner) (map abs_row (phase_items s))"
    unfolding f(5) by (rule map_update_where_abs) (auto dest: only simp: abs_row_def claim_item_def taken_row_def)
  then have "plan_step (abs_plan s) (abs_plan ?s2)"
    using plan_step.claim[OF owner, of "abs_plan s" "pi_id ?w"] by (simp add: abs_plan_def)
  moreover have "abs_claims ?s2 = abs_claims s" by (simp add: abs_claims_def f)
  ultimately have "sim s ?s2" by (intro sim_plan)
  moreover have "views_kept ?s2 t" using record_dispatch_views[OF s3] by (simp add: t3 views_kept_def)
  ultimately show ?thesis by (rule sim_trans_kept)
qed

lemma selected_item:
  assumes "select_phase_item busy now s executor phases project = Some c"
  shows "ph_item c \<in> set (phase_items s)"
  using assms unfolding select_phase_item_def
  by (auto dest!: order_limit1_in set_map_filter[THEN iffD1] simp: phase_candidate_of_def split: if_splits option.splits)

lemma phase_poll_sim:
  assumes ok: "ledger_ok s" and p: "ClaimPhaseWork busy now newID sample owner lease labels phases s = Inr (r, t)"
  shows "sim s t"
proof -
  from p obtain caps tally t1 where owner: "TrimSpace owner \<noteq> []"
    and body: "claim_phase_body busy now newID sample (TrimSpace owner) lease caps phases [] s = Inr ((r, tally), t1)"
    and t: "flushLeaseExpiries tally t1 = Inr t"
    by (auto simp: ClaimPhaseWork_def withDeferredLeaseExpiries_def Let_def bind_result_Inr split: if_splits)
  obtain w s1 where s1: "registerCapabilityWorker now newID (TrimSpace owner) caps sample s = (w, s1)" by fastforce
  define s2 where "s2 = s1\<lparr>phase_items := update_where (phase_lease_expired now) (reclaim_item now) (phase_items s1)\<rparr>"
  obtain sel s3 where s3: "selectFairPhaseProject (lock_fairness busy) now w phases s2 = (sel, s3)" by fastforce
  have v1: "views_kept s s1" using register_views s1 unfolding registerCapabilityWorker_def by blast
  then have ok1: "ledger_ok s1" using ok views_keptD by (simp add: ledger_ok_def)
  have "sim s1 s2" unfolding s2_def by (rule reclaim_sim[OF ok1])
  moreover have "views_kept s2 s3" by (simp add: fair_selection_state(2)[OF s3])
  ultimately have 3: "sim s s3" using v1 sim_trans_kept by blast
  then have ok3: "ledger_ok s3" using ok by (rule sim_ok)
  have "sim s3 t1"
  proof -
    from body consider "t1 = s3"
      | sel' executor c where "sel = Some sel'" "select_phase_item busy now s3 executor phases (fs_project sel') = Some c"
        "take_phase_item now (TrimSpace owner) w executor lease sel' c s3 = Inr (r, t1)"
      unfolding claim_phase_body_def s1 by (auto simp: Let_def s2_def[symmetric] s3 bind_result_Inr split: option.splits)
    then show ?thesis
      using take_sim[OF ok3 selected_item owner] by cases (simp add: sim_kept, blast)
  qed
  with 3 show ?thesis using flush_views[OF t] sim_trans sim_trans_kept by blast
qed

section \<open>Renewing\<close>

lemma renew_phase_sim:
  assumes ok: "ledger_ok s" and r: "RenewPhaseWork now pc lease s = Inr ((), t)"
  shows "sim s t"
proof -
  from r obtain c where c: "count_where (phase_lease now c s) (worker_leases s) = 1"
    and t: "t = s\<lparr>phase_items := update_where (held_live now c) (\<lambda>w. w\<lparr>pi_lease := Some (now + lease), pi_updated_at := now\<rparr>) (phase_items s),
      worker_leases := update_where (phase_lease now c s)
        (\<lambda>l. l\<lparr>wl_expires := min (runtime_end (the (lookup_by au_attempt (pw_attempt c) (attempt_usage s)))) (max (wl_expires l) (now + seconds 120))\<rparr>) (worker_leases s),
      workers := update_where (\<lambda>w. w_name w = pw_owner c \<and> w_role w = ''phase-executor'') (\<lambda>w. w\<lparr>w_last_seen := Some now\<rparr>) (workers s)\<rparr>"
    by (auto simp: RenewPhaseWork_def split: option.splits if_splits)
  from c obtain l where "phase_lease now c s l" using count_where_pos[of "phase_lease now c s" "worker_leases s"] by auto
  then obtain u where u: "lookup_by au_attempt (pw_attempt c) (attempt_usage s) = Some u"
    by (auto simp: phase_lease_def attempt_runnable_def split: option.splits)
  have "abs_row (w\<lparr>pi_lease := Some (now + lease), pi_updated_at := now\<rparr>) = abs_row w" if "held_live now c w" for w
    using that by (auto simp: abs_row_def held_live_def expires_after_def split: option.splits)
  then have "abs_plan t = abs_plan s" by (simp add: t abs_plan_def map_update_where)
  then show ?thesis
    by (intro renew_sim[OF ok u, of t "phase_lease now c s" "\<lambda>e. max e (now + seconds 120)"])
       (simp_all add: t u phase_lease_def)
qed

section \<open>Finishing a phase\<close>

lemma abs_end_item [simp]: "abs_row (end_item st at e w) = ended_row st (abs_row w)"
  by (simp add: abs_row_def end_item_def ended_row_def)

lemma ended_rows:
  "map abs_row (update_where (\<lambda>v. pi_id v = i) (end_item st at e) items) =
   update_where (\<lambda>r. pr_id r = i) (ended_row st) (map abs_row items)"
  by (rule map_update_where_abs) simp_all

lemma cancel_later_rows:
  "map abs_row (cancel_later a q at items) =
   update_where (\<lambda>r. after_row a q r \<and> pr_state r \<in> {PBlocked, PReady}) (ended_row PCanceled) (map abs_row items)"
  if "\<forall>w \<in> set items. pi_state w \<noteq> PClaimed \<longrightarrow> pi_lease w = None"
  unfolding cancel_later_def using that
  by (intro map_update_where_abs) (auto simp: after_row_def abs_row_def ended_row_def)

lemma oldest_least: "oldest xs = Some m \<longleftrightarrow> m \<in> set xs \<and> (\<forall>x \<in> set xs. m \<le> x)"
proof
  assume m: "m \<in> set xs \<and> (\<forall>x \<in> set xs. m \<le> x)"
  then obtain k where "oldest xs = Some k" by (cases "oldest xs") auto
  then show "oldest xs = Some m" using m oldest_Some[of xs k] by (auto intro: antisym)
qed (rule oldest_Some)

lemma release_next_rows:
  "map abs_row (release_next a q at items) = update_where (next_blocked a q (map abs_row items)) offered_row (map abs_row items)"
proof -
  have "next_blocked a q (map abs_row items) (abs_row w) \<longleftrightarrow> pi_attempt w = a \<and> pi_sequence w > q \<and> pi_state w = PBlocked \<and>
      Some (pi_sequence w) = next_sequence a q items" if "w \<in> set items" for w
    using that oldest_least[of "map pi_sequence (filter (\<lambda>w. pi_attempt w = a \<and> pi_sequence w > q \<and> pi_state w = PBlocked) items)" "pi_sequence w"]
    by (auto simp: next_blocked_def after_row_def next_sequence_def list_all_iff eq_commute[of "Some _"])
  then show ?thesis unfolding release_next_def
    by (intro map_update_where_abs) (auto simp: abs_row_def offered_row_def)
qed

lemma wake_rows: "map abs_row (wake_phase_waiters project phase at items) = map abs_row items"
  by (simp add: wake_phase_waiters_def map_update_where abs_row_def)

text \<open>Ending a claimed item, then the rest of its plan.\<close>

lemma end_claimed:
  assumes ok: "plan_ok (map abs_row items)" and w: "w \<in> set items" "pi_id w = i" "pi_state w = PClaimed"
    and st: "st \<in> {PCompleted, PFailed}"
    and ended_def: "ended = update_where (\<lambda>v. pi_id v = i) (end_item st at e) items"
  shows "plan_step (map abs_row items) (map abs_row ended)" "end_item st at e w \<in> set ended"
    "\<And>v. v \<in> set ended \<Longrightarrow> after_row (pi_attempt w) (pi_sequence w) (abs_row v) \<Longrightarrow> pi_state v = PBlocked"
    "\<forall>v \<in> set ended. pi_state v \<noteq> PClaimed \<longrightarrow> pi_lease v = None"
proof -
  have r: "abs_row w \<in> set (map abs_row items)" using w(1) by simp
  show step: "plan_step (map abs_row items) (map abs_row ended)" unfolding ended_def ended_rows
    by (rule plan_step.finish[OF r]) (use w st in simp_all)
  show in_ended: "end_item st at e w \<in> set ended" unfolding ended_def using w by (intro in_update_whereI) auto
  show "pi_state v = PBlocked" if "v \<in> set ended" "after_row (pi_attempt w) (pi_sequence w) (abs_row v)" for v
    using that(1) unfolding ended_def
  proof (cases rule: in_update_whereE)
    case kept
    then show ?thesis using later_blocked[OF ok r _ _ ] w(3) that(2) by fastforce
  next
    case (changed u)
    then have "abs_row u = abs_row w" using id_row_unique[OF ok r, of "abs_row u"] w(2) by simp
    then have "pi_sequence u = pi_sequence w" using abs_row_fields(5) by metis
    then show ?thesis using that(2) changed(3) by (simp add: after_row_def end_item_def)
  qed
  show "\<forall>v \<in> set ended. pi_state v \<noteq> PClaimed \<longrightarrow> pi_lease v = None"
    using plan_okD(2)[OF plan_step_ok[OF step ok]] row_open(1) by fastforce
qed

lemma complete_items:
  assumes "plan_ok (map abs_row items)" "w \<in> set items" "pi_id w = i" "pi_state w = PClaimed"
  shows "plan_step\<^sup>*\<^sup>* (map abs_row items) (map abs_row (release_next (pi_attempt w) (pi_sequence w) at
    (update_where (\<lambda>v. pi_id v = i) (end_item PCompleted at e) items)))"
proof -
  let ?ended = "update_where (\<lambda>v. pi_id v = i) (end_item PCompleted at e) items"
  note e = end_claimed[where st = PCompleted and at = at and e = e, OF assms _ refl, simplified]
  have "plan_step (map abs_row ?ended) (map abs_row (release_next (pi_attempt w) (pi_sequence w) at ?ended))"
    unfolding release_next_rows
  proof (rule plan_step.offer)
    show "abs_row (end_item PCompleted at e w) \<in> set (map abs_row ?ended)" using e(2) by (simp del: abs_end_item)
    show "pr_state v = PBlocked" if "v \<in> set (map abs_row ?ended)" "after_row (pi_attempt w) (pi_sequence w) v" for v
      using that e(3) by auto
  qed (simp_all add: ended_row_def)
  with e(1) show ?thesis by (metis converse_rtranclp_into_rtranclp r_into_rtranclp)
qed

lemma fail_items:
  assumes "plan_ok (map abs_row items)" "w \<in> set items" "pi_id w = i" "pi_state w = PClaimed"
  shows "plan_step\<^sup>*\<^sup>* (map abs_row items) (map abs_row (cancel_later (pi_attempt w) (pi_sequence w) at
    (update_where (\<lambda>v. pi_id v = i) (end_item PFailed at e) items)))"
proof -
  let ?ended = "update_where (\<lambda>v. pi_id v = i) (end_item PFailed at e) items"
  note e = end_claimed[where st = PFailed and at = at and e = e, OF assms _ refl, simplified]
  have "plan_step (map abs_row ?ended) (map abs_row (cancel_later (pi_attempt w) (pi_sequence w) at ?ended))"
    unfolding cancel_later_rows[OF e(4)]
  proof (rule plan_step.cancel_later)
    show "abs_row (end_item PFailed at e w) \<in> set (map abs_row ?ended)" using e(2) by (simp del: abs_end_item)
  qed (simp_all add: ended_row_def)
  with e(1) show ?thesis by (metis converse_rtranclp_into_rtranclp r_into_rtranclp)
qed

lemma finish_phase_sim:
  assumes ok: "ledger_ok s" and f: "finishPhaseWork now pc completed detail s = Inr ((), t)"
  shows "sim s t"
proof -
  from f obtain c w where w: "find (held_item c) (phase_items s) = Some w"
    and t: "t = s\<lparr>phase_items := wake_phase_waiters (pi_project w) (pi_phase w) now
        (let ended = update_where (\<lambda>v. pi_id v = pw_id c) (end_item (if completed then PCompleted else PFailed) now (TrimSpace detail)) (phase_items s)
         in if completed then release_next (pi_attempt w) (pi_sequence w) now ended
            else cancel_later (pi_attempt w) (pi_sequence w) now ended),
      reservations := update_where (\<lambda>r. rr_attempt r = pi_attempt w \<and> rr_active r) (\<lambda>r. r\<lparr>rr_phase := ''waiting''\<rparr>) (reservations s)\<rparr>"
    by (auto simp: finishPhaseWork_def Let_def split: option.splits if_splits)
  have i: "w \<in> set (phase_items s)" "pi_id w = pw_id c" "pi_state w = PClaimed"
    using find_SomeD[OF w] by (auto simp: held_item_def)
  have "plan_step\<^sup>*\<^sup>* (abs_plan s) (abs_plan t)"
    using complete_items[OF ledger_okD(2)[OF ok, unfolded abs_plan_def] i, of now "TrimSpace detail"]
      fail_items[OF ledger_okD(2)[OF ok, unfolded abs_plan_def] i, of now "TrimSpace detail"]
    by (simp add: t abs_plan_def wake_rows Let_def)
  moreover have "abs_claims t = abs_claims s" by (simp add: t abs_claims_def)
  ultimately show ?thesis by (simp add: sim_def)
qed

section \<open>Ending the attempt and its job\<close>

lemma terminal_claim:
  assumes "lockTerminalPhaseClaim now c s = Inr u"
  obtains w a l where "w \<in> set (phase_items s)" "held_live now c w" "pi_attempt w = pw_attempt c"
    "a \<in> set (build_attempts s)" "ba_id a = pw_attempt c" "ba_fence a = pw_attempt_fence c"
    "l \<in> set (worker_leases s)" "wl_attempt l = pw_attempt c" "wl_fence l = pw_attempt_fence c" "wl_expires l > now"
    "attempt_runnable now (pw_attempt c) s"
proof -
  note result = that
  from assms obtain w a l where "w \<in> set (phase_items s)" "held_live now c w" "pi_attempt w = pw_attempt c"
    and a: "lookup_by ba_id (pw_attempt c) (build_attempts s) = Some a" "ba_fence a = pw_attempt_fence c"
    and l: "lookup_by wl_attempt (pw_attempt c) (worker_leases s) = Some l" "wl_fence l = pw_attempt_fence c" "wl_expires l > now"
    and "attempt_runnable now (pw_attempt c) s"
    by (auto simp: lockTerminalPhaseClaim_def list_ex_iff split: if_splits option.splits)
  with lookup_by_Some[OF a(1)] lookup_by_Some[OF l(1)] show thesis using result by blast
qed

lemma finish_attempt_views: "views_kept s (finish_attempt_row c st d at s)"
  by (rule views_keptI) (simp_all add: finish_attempt_row_def map_update_where)

lemma finish_job_views:
  "abs_claims (finish_job_row job st doc dg d at s) = (abs_claims s)\<lparr>cl_jobs := set_state job st (cl_jobs (abs_claims s))\<rparr>"
  "abs_plan (finish_job_row job st doc dg d at s) = abs_plan s"
proof -
  have "map (\<lambda>j. (bj_id j, bj_state j)) (build_jobs (finish_job_row job st doc dg d at s)) =
      set_state job st (map (\<lambda>j. (bj_id j, bj_state j)) (build_jobs s))"
    unfolding finish_job_row_def by (simp add: jobs_set_state)
  then show "abs_claims (finish_job_row job st doc dg d at s) =
      (abs_claims s)\<lparr>cl_jobs := set_state job st (cl_jobs (abs_claims s))\<rparr>"
    by (simp add: abs_claims_def finish_job_row_def)
qed (simp add: abs_plan_def finish_job_row_def)

lemma release_lease_views:
  "abs_claims (release_phase_lease c s) = (abs_claims s)\<lparr>cl_leases :=
     filter (\<lambda>l. \<not> (le_attempt l = pw_attempt c \<and> le_fence l = pw_attempt_fence c)) (cl_leases (abs_claims s))\<rparr>"
  "abs_plan (release_phase_lease c s) = abs_plan s"
  by (simp_all add: release_phase_lease_def abs_claims_def abs_plan_def filter_map comp_def)

lemma finish_tx:
  assumes "finishPhaseAttemptTx c status doc dg at detail s = Inr t"
  obtains s1 where "settleAttemptUsage (pw_attempt c) (''job_'' @ bs_status status) (bs_status status) at
      (finish_attempt_row c (bs_status status) detail at s) = Inr s1"
    "count_where (claimed_attempt c) (build_attempts s) = 1" "count_where (\<lambda>j. bj_id j = pw_job c) (build_jobs s1) = 1"
    "t = revokeWorkerGatewayAttempt (pw_attempt c) (''job_'' @ bs_status status) at
      (releaseArtifactBudgetReservation (pw_attempt c) (''job_'' @ bs_status status)
        (releaseResourceReservation (pw_attempt c) (''job_'' @ bs_status status) at
          (release_phase_lease c (finish_job_row (pw_job c) (bs_status status) doc dg detail at s1))))"
  using assms that unfolding finishPhaseAttemptTx_def Let_def by (auto simp: bind_result_Inr split: if_splits)

lemma finish_tx_sim:
  assumes ok: "ledger_ok s" and lk: "lockTerminalPhaseClaim now c s = Inr u"
    and s0: "abs_claims s0 = abs_claims s" "build_attempts s0 = build_attempts s"
    and f: "finishPhaseAttemptTx c status doc dg at detail s0 = Inr t"
  shows "claim_step (abs_claims s) (abs_claims t)" "abs_plan t = abs_plan s0"
proof -
  from f obtain s1 where s1: "settleAttemptUsage (pw_attempt c) (''job_'' @ bs_status status) (bs_status status) at
      (finish_attempt_row c (bs_status status) detail at s0) = Inr s1"
    and one: "count_where (claimed_attempt c) (build_attempts s0) = 1"
    and t: "t = revokeWorkerGatewayAttempt (pw_attempt c) (''job_'' @ bs_status status) at
      (releaseArtifactBudgetReservation (pw_attempt c) (''job_'' @ bs_status status)
        (releaseResourceReservation (pw_attempt c) (''job_'' @ bs_status status) at
          (release_phase_lease c (finish_job_row (pw_job c) (bs_status status) doc dg detail at s1))))"
    by (rule finish_tx)
  note v = views_keptD[OF views_kept_trans[OF finish_attempt_views settle_views[OF s1]]]
  have ct: "abs_claims t = (abs_claims s)\<lparr>cl_jobs := set_state (pw_job c) (bs_status status) (cl_jobs (abs_claims s)),
      cl_leases := filter (\<lambda>l. \<not> (le_attempt l = pw_attempt c \<and> le_fence l = pw_attempt_fence c)) (cl_leases (abs_claims s))\<rparr>"
    unfolding t revoke_views release_views release_lease_views finish_job_views v(1) s0(1) by simp
  show "abs_plan t = abs_plan s0" unfolding t revoke_views release_views release_lease_views finish_job_views v(2) ..
  from lk obtain l where l: "l \<in> set (worker_leases s)" "wl_attempt l = pw_attempt c" "wl_fence l = pw_attempt_fence c"
    by (rule terminal_claim)
  from one obtain b where b: "b \<in> set (build_attempts s)" "claimed_attempt c b"
    using count_where_pos[of "claimed_attempt c" "build_attempts s0"] s0(2) by auto
  then have held: "held_job (abs_claims s) (abs_lease l) (pw_job c)"
    using l(2) unfolding held_lease claimed_attempt_def by auto
  show "claim_step (abs_claims s) (abs_claims t)" unfolding ct
  proof (rule claim_step.close)
    fix m assume m: "m \<in> set (cl_leases (abs_claims s))" "\<not> (le_attempt m = pw_attempt c \<and> le_fence m = pw_attempt_fence c)"
    show "\<not> held_job (abs_claims s) m (pw_job c)"
      using claims_exclusive[OF ledger_okD(1)[OF ok] m(1) _ _ held] l m(2) by auto
  qed
qed

lemma finish_item_views [simp]:
  "abs_claims (finish_item c st e at s) = abs_claims s" "build_attempts (finish_item c st e at s) = build_attempts s"
  "phase_items (finish_item c st e at s) = update_where (\<lambda>w. pi_id w = pw_id c) (end_item st at e) (phase_items s)"
  by (simp_all add: finish_item_def abs_claims_def)

lemma finalize_sim:
  assumes ok: "ledger_ok s" and f: "FinalizePhaseWork sd wall now (Some c) previous finished s = Inr ((), t)"
  shows "sim s t"
proof -
  from f obtain status doc dg u s1 where lk: "lockTerminalPhaseClaim now c s = Inr u"
    and s1: "finishPhaseAttemptTx c status doc dg wall [] (finish_item c PCompleted [] wall s) = Inr s1"
    and t: "t = insertJobEvent (pw_job c) ''job.phase_plan_completed'' s1"
    by (auto simp: FinalizePhaseWork_def bind_result_Inr split: option.splits if_splits)
  note fin = finish_tx_sim[OF ok lk finish_item_views(1,2) s1]
  from lk obtain w where w: "w \<in> set (phase_items s)" "held_live now c w" by (rule terminal_claim)
  have "plan_step (abs_plan s) (abs_plan (finish_item c PCompleted [] wall s))"
    using end_claimed(1)[OF ledger_okD(2)[OF ok, unfolded abs_plan_def] w(1) _ _ _ refl, of "pw_id c" PCompleted wall "[]"] w(2)
    by (simp add: abs_plan_def held_live_def held_item_def)
  with fin show ?thesis by (intro sim_steps) (simp_all add: t)
qed

lemma fail_job_sim:
  assumes ok: "ledger_ok s" and g: "\<forall>w \<in> set (phase_items s). pi_id w = pw_id c \<longrightarrow> pi_sequence w = pw_sequence c"
    and f: "FailPhaseWorkAndJob sd wall now (Some c) previous detail s = Inr ((), t)"
  shows "sim s t"
proof -
  let ?s0 = "finish_item c PFailed (failure_text detail) wall s"
  let ?s1 = "?s0\<lparr>phase_items := cancel_later (pw_attempt c) (pw_sequence c) wall (phase_items ?s0)\<rparr>"
  from f obtain status doc dg u s2 where lk: "lockTerminalPhaseClaim now c s = Inr u"
    and s2: "finishPhaseAttemptTx c status doc dg wall (failure_text detail) ?s1 = Inr s2"
    and t: "t = insertJobEvent (pw_job c) ''job.phase_failed'' s2"
    by (auto simp: FailPhaseWorkAndJob_def Let_def bind_result_Inr simp del: finish_item_views split: option.splits)
  have c1: "abs_claims ?s1 = abs_claims s" "build_attempts ?s1 = build_attempts s"
    by (simp_all add: finish_item_def abs_claims_def)
  note fin = finish_tx_sim[OF ok lk c1 s2]
  from lk obtain w where w: "w \<in> set (phase_items s)" "held_live now c w" "pi_attempt w = pw_attempt c"
    by (rule terminal_claim)
  have i: "pi_id w = pw_id c" "pi_state w = PClaimed" using w(2) by (simp_all add: held_live_def held_item_def)
  have "plan_step\<^sup>*\<^sup>* (abs_plan s) (abs_plan ?s1)"
    using fail_items[OF ledger_okD(2)[OF ok, unfolded abs_plan_def] w(1) i, of wall "failure_text detail"] g w(1,3) i(1)
    by (simp add: abs_plan_def)
  with fin show ?thesis by (simp add: sim_def t r_into_rtranclp)
qed

end
