(* ===== verification/Ledger_System.thy ===== *)
theory Ledger_System
  imports Ledger_Phases
begin

text \<open>
  The ledger as one system. Every operation of the job, scheduler and phase stores is a step of
  \<open>job_step\<close>; replicas interleave them in any order, each in its own transaction. Each step simulates the
  contracts of claims and of plans, which gives every reachable state their invariants.
\<close>

section \<open>Steps\<close>

text \<open>A phase claim names the attempt, phase and sequence of its item, as \<^const>\<open>ClaimPhaseWork\<close> returned them.\<close>

definition genuine_claim :: "phase_claim \<Rightarrow> db \<Rightarrow> bool" where
  "genuine_claim c s =
     list_all (\<lambda>w. pi_id w = pw_id c \<longrightarrow>
        pi_attempt w = pw_attempt c \<and> pi_phase w = pw_phase c \<and> pi_sequence w = pw_sequence c) (phase_items s)"

text \<open>
  The operations, each with any arguments. A fenced report never puts a job back into the queue. Anything
  else may write the other tables at any time: capacity, policies, projects, artifacts.
\<close>

inductive job_step :: "db \<Rightarrow> db \<Rightarrow> bool" where
  submit: "createJob sha256 rd sd wall now attemptID (Some q) (Some st) source s0 s = Inr (r, t) \<Longrightarrow> job_step s t"
| transition: "recordTransition sd now newID previous (Some c) s = Inr ((), t) \<Longrightarrow> bs_attempt c \<noteq> [] \<Longrightarrow>
    bs_status c \<noteq> ''queued'' \<Longrightarrow> job_step s t"
| poll: "fst (ClaimNext sha256 sd busy wall now ids sample name lease caps cache s) = Inr (claim, t) \<Longrightarrow>
    fresh_ids ids s \<Longrightarrow> job_step s t"
| renew: "RenewClaim now status lease s = Inr ((), t) \<Longrightarrow> job_step s t"
| cancel: "CancelJob sd now job reason s = Inr (status', t) \<Longrightarrow> job_step s t"
| retry: "RetryJob sd now job s = Inr (status', t) \<Longrightarrow> job_step s t"
| hide: "HideJob now c s = Inr ((), t) \<Longrightarrow> job_step s t"
| retention: "ExpireTerminal before locked n s = (k, t) \<Longrightarrow> job_step s t"
| prune: "PruneStaleWorkers before locked n s = (k, t) \<Longrightarrow> job_step s t"
| activate: "ActivatePhasePlan now status s = Inr ((), t) \<Longrightarrow> job_step s t"
| phase_poll: "ClaimPhaseWork busy now newID sample owner lease labels phases s = Inr (pc, t) \<Longrightarrow> job_step s t"
| renew_phase: "RenewPhaseWork now pc lease s = Inr ((), t) \<Longrightarrow> job_step s t"
| finish_phase: "finishPhaseWork now pc completed detail s = Inr ((), t) \<Longrightarrow> job_step s t"
| finalize: "FinalizePhaseWork sd wall now (Some pc) previous finished s = Inr ((), t) \<Longrightarrow> job_step s t"
| fail_job: "FailPhaseWorkAndJob sd wall now (Some pc) previous detail s = Inr ((), t) \<Longrightarrow>
    genuine_claim pc s \<Longrightarrow> job_step s t"
| outside: "build_jobs t = build_jobs s \<Longrightarrow> build_attempts t = build_attempts s \<Longrightarrow>
    attempt_usage t = attempt_usage s \<Longrightarrow> worker_leases t = worker_leases s \<Longrightarrow>
    phase_items t = phase_items s \<Longrightarrow> job_step s t"

text \<open>Saving a hand-off document writes its own table only.\<close>

lemma save_context_step:
  assumes "SavePhaseExecutionContext now pc v s = Inr ((), t)"
  shows "job_step s t"
proof -
  obtain cs where "t = s\<lparr>phase_contexts := cs\<rparr>"
    using assms by (auto simp: SavePhaseExecutionContext_def bind_result_Inr split: option.splits if_splits)
  then show ?thesis by (intro job_step.outside) simp_all
qed

lemma job_step_sim:
  assumes "job_step s t" "ledger_ok s"
  shows "sim s t"
  using assms
proof (induction rule: job_step.induct)
  case (fail_job sd wall now pc previous detail s t)
  then show ?case by (intro fail_job_sim) (auto simp: genuine_claim_def list_all_iff)
next
  case (outside t s)
  then show ?case by (intro sim_kept views_keptI) simp_all
qed (blast intro: submit_sim transition_sim poll_sim renew_claim_sim cancel_sim retry_sim sim_kept hide_views
    retention_views prune_views activate_views phase_poll_sim renew_phase_sim finish_phase_sim finalize_sim)+

section \<open>Refinement\<close>

definition ledger_spec :: "claims \<times> plan_row list \<Rightarrow> claims \<times> plan_row list \<Rightarrow> bool" where
  "ledger_spec x y =
     (claim_step (fst x) (fst y) \<and> snd y = snd x \<or> fst y = fst x \<and> plan_step (snd x) (snd y))"

lemma ledger_spec_left: "claim_step\<^sup>*\<^sup>* c d \<Longrightarrow> ledger_spec\<^sup>*\<^sup>* (c, p) (d, p)"
proof (induction rule: rtranclp_induct)
  case (step d e)
  then have "ledger_spec (d, p) (e, p)" by (simp add: ledger_spec_def)
  with step.IH show ?case by (rule rtranclp.rtrancl_into_rtrancl)
qed simp

lemma ledger_spec_right: "plan_step\<^sup>*\<^sup>* p q \<Longrightarrow> ledger_spec\<^sup>*\<^sup>* (d, p) (d, q)"
proof (induction rule: rtranclp_induct)
  case (step q r)
  then have "ledger_spec (d, q) (d, r)" by (simp add: ledger_spec_def)
  with step.IH show ?case by (rule rtranclp.rtrancl_into_rtrancl)
qed simp

interpretation ledger: refinement "\<lambda>s. (abs_claims s, abs_plan s)" job_step ledger_spec
  "\<lambda>(c, p). claims_ok c \<and> plan_ok p"
proof
  fix a b assume "ledger_spec a b" "case a of (c, p) \<Rightarrow> claims_ok c \<and> plan_ok p"
  then show "case b of (c, p) \<Rightarrow> claims_ok c \<and> plan_ok p"
    by (auto simp: ledger_spec_def split_beta intro: claim_step_ok plan_step_ok)
next
  fix s t assume st: "job_step s t" and ok: "case (abs_claims s, abs_plan s) of (c, p) \<Rightarrow> claims_ok c \<and> plan_ok p"
  from ok have "ledger_ok s" by (simp add: ledger_ok_def)
  with st have "sim s t" by (rule job_step_sim)
  then show "ledger_spec\<^sup>*\<^sup>* (abs_claims s, abs_plan s) (abs_claims t, abs_plan t)"
    unfolding sim_def using ledger_spec_left ledger_spec_right by (blast intro: rtranclp_trans)
qed

section \<open>Reachable ledgers\<close>

definition ledger_start :: "db \<Rightarrow> bool" where
  "ledger_start s =
     (build_jobs s = [] \<and> build_attempts s = [] \<and> attempt_usage s = [] \<and> worker_leases s = [] \<and> phase_items s = [])"

lemma start_ok: "ledger_start s \<Longrightarrow> ledger_ok s"
  by (simp add: ledger_start_def ledger_ok_def claims_ok_def plan_ok_def abs_plan_def)

lemma steps_ok: "job_step\<^sup>*\<^sup>* s t \<Longrightarrow> ledger_ok s \<Longrightarrow> ledger_ok t"
  using ledger.reachable_ok[of s t] by (simp add: ledger_ok_def)

lemma ledger_reachable: "ledger_start s \<Longrightarrow> job_step\<^sup>*\<^sup>* s t \<Longrightarrow> ledger_ok t"
  using start_ok steps_ok by blast

lemma ledger_spec_plan: "ledger_spec\<^sup>*\<^sup>* x y \<Longrightarrow> plan_step\<^sup>*\<^sup>* (snd x) (snd y)"
proof (induction rule: rtranclp_induct)
  case (step y z)
  then show ?case by (auto simp: ledger_spec_def intro: rtranclp.rtrancl_into_rtrancl)
qed simp

lemma steps_plan: "job_step\<^sup>*\<^sup>* s t \<Longrightarrow> ledger_ok s \<Longrightarrow> plan_step\<^sup>*\<^sup>* (abs_plan s) (abs_plan t)"
  using ledger_spec_plan[OF ledger.reachable_simulates[of s t]] by (simp add: ledger_ok_def)

end
