(* ===== verification/Ledger_Example.thy ===== *)
theory Ledger_Example
  imports Ledger_System
begin

text \<open>
  A concrete run of the ledger: a job is submitted to an empty ledger, claimed by a poll, its plan is
  activated, the provision phase is claimed by an executor and completed. Each state is what the model's
  operation computes from the one before.
\<close>

text \<open>The length limit of a stored error compared as an integer, for evaluation.\<close>

lemma statusDocument_code [code]:
  "statusDocument sd status =
     (case status of
        None \<Rightarrow> Inl (Refused ''nil build status'')
      | Some st \<Rightarrow>
        (let doc = st\<lparr>bs_error := (if int (length (bs_error st)) > 65536
                        then take maxLedgerErrorBytes (bs_error st) @ truncation_note else bs_error st),
                      bs_attempt := [], bs_fence := 0, bs_lease_owner := []\<rparr> in
         Inr (doc, sd doc)))"
  by (simp add: statusDocument_def maxLedgerErrorBytes_def Let_def split: option.split)

section \<open>The states of the run\<close>

definition unlocked :: row_locks where
  "unlocked = \<lparr>lock_fairness = (\<lambda>_. False), lock_job = (\<lambda>_. False), lock_lease = (\<lambda>_. False),
     lock_item = (\<lambda>_. False)\<rparr>"

definition legacy_request :: build_request where
  "legacy_request = example_request\<lparr>br_resolved := None\<rparr>"

definition legacy_labels :: "string list" where
  "legacy_labels = [''context:legacy'', ''phase:provision'']"

definition run_sample :: host_sample where
  "run_sample = \<lparr>hs_info = \<lparr>si_cpu = 10, si_memory = 7, si_disk = 3, si_memory_total = 1, si_disk_total = 1\<rparr>,
     hs_at = 0\<rparr>"

definition run_ids :: claim_ids where
  "run_ids = \<lparr>id_worker = ''w'', id_attempt = ''a'', id_lease = ''l'', id_items = [''i1'', ''i2'', ''i3'', ''i4'']\<rparr>"

definition run_job :: build_job where
  "run_job = example_job\<lparr>bj_request := legacy_request, bj_request_digest := ''d'', bj_status_digest := ''e'',
     bj_required := legacy_labels\<rparr>"

definition run_submitted :: db where
  "run_submitted = example_ledger\<lparr>build_jobs := [run_job], job_events := [(''j1'', ''job.created'')]\<rparr>"

definition run_item :: "string \<Rightarrow> string \<Rightarrow> int \<Rightarrow> phase_item" where
  "run_item i phase n = phase_plan_item ''p'' ''j1'' ''a'' 0 i phase n (n = 10) [''context:legacy'', ''phase:'' @ phase]"

definition run_worker :: worker where
  "run_worker = \<lparr>w_id = ''w'', w_name = ''w'', w_active = True, w_role = ''control-plane-admission'',
     w_labels = legacy_labels, w_pressure = Some 10, w_protocol = 5, w_last_seen = Some 0, w_generation = 1\<rparr>"

definition run_claimed :: db where
  "run_claimed = run_submitted\<lparr>workers := [run_worker],
     worker_leases := [\<lparr>wl_id = ''l'', wl_worker = ''w'', wl_attempt = ''a'', wl_fence = 1, wl_kind = AttemptLease,
       wl_expires = 60000000000\<rparr>],
     build_jobs := [run_job\<lparr>bj_state := ''claimed'', bj_snapshot := example_status\<lparr>bs_status := ''claimed''\<rparr>, bj_revision := 2\<rparr>],
     build_attempts := [example_attempt\<lparr>ba_id := ''a''\<rparr>],
     reservations := [example_reservation\<lparr>rr_attempt := ''a''\<rparr>],
     attempt_usage := [example_usage\<lparr>au_attempt := ''a'', au_cloud_started := None\<rparr>],
     fairness := [(example_row ''p'')\<lparr>sf_admission_vruntime := 10, sf_admission_dispatches := 1\<rparr>],
     phase_items := [run_item ''i1'' ''provision'' 10, run_item ''i2'' ''build'' 20, run_item ''i3'' ''verify'' 30,
       run_item ''i4'' ''publish'' 40],
     worker_decisions := [\<lparr>wd_kind = ''admission'', wd_job = ''j1'', wd_phase = [], wd_worker = ''w'',
       wd_candidates = 1, wd_pressure = 10, wd_failures = 0\<rparr>],
     job_events := [(''j1'', ''job.created''), (''j1'', ''job.claimed''), (''j1'', ''scheduler.fair_dispatch'')]\<rparr>"

definition run_status :: build_status where
  "run_status = example_status\<lparr>bs_status := ''claimed'', bs_attempt := ''a'', bs_fence := 1, bs_lease_owner := ''w''\<rparr>"

definition run_active :: db where
  "run_active = run_claimed\<lparr>phase_items :=
     map (\<lambda>w. w\<lparr>pi_active := True, pi_updated_at := 1\<rparr>) (phase_items run_claimed)\<rparr>"

definition run_phase_claim :: phase_claim where
  "run_phase_claim = \<lparr>pw_id = ''i1'', pw_project = ''p'', pw_job = ''j1'', pw_attempt = ''a'', pw_attempt_fence = 1,
     pw_phase = ''provision'', pw_sequence = 10, pw_fence = 1, pw_owner = ''x'', pw_lease = 30000000002,
     pw_request = legacy_request, pw_status = run_status\<rparr>"

definition run_phase :: db where
  "run_phase = run_active\<lparr>
     workers := [run_worker, run_worker\<lparr>w_id := ''w2'', w_name := ''x'', w_role := ''phase-executor'', w_last_seen := Some 2\<rparr>],
     reservations := [example_reservation\<lparr>rr_attempt := ''a'', rr_phase := ''provision''\<rparr>],
     fairness := [(example_row ''p'')\<lparr>sf_admission_vruntime := 10, sf_admission_dispatches := 1,
       sf_phase_vruntime := 10, sf_phase_dispatches := 1\<rparr>],
     phase_items := (hd (phase_items run_active))\<lparr>pi_state := PClaimed, pi_owner := ''x'', pi_fence := 1,
       pi_lease := Some 30000000002, pi_started_at := Some 2, pi_updated_at := 2\<rparr> # tl (phase_items run_active),
     worker_decisions := worker_decisions run_active @ [\<lparr>wd_kind = ''phase'', wd_job = ''j1'', wd_phase = ''provision'',
       wd_worker = ''w2'', wd_candidates = 2, wd_pressure = 10, wd_failures = 0\<rparr>],
     job_events := job_events run_active @ [(''j1'', ''scheduler.fair_dispatch'')]\<rparr>"

section \<open>The run\<close>

lemma run_labels:
  "NormalizeExecutorCapabilities [''phase:provision'', ''context:legacy''] = Inr legacy_labels"
  by code_simp

lemma run_submit:
  "createJob (\<lambda>_. ''AB'') (\<lambda>_. ''d'') (\<lambda>_. ''e'') 0 0 ''x'' (Some legacy_request) (Some example_status)
     ''api'' example_ledger example_ledger =
   Inr (\<lparr>lc_job = ''j1'', lc_status = example_status, lc_created = True\<rparr>, run_submitted)"
  by code_simp

lemma run_poll:
  "fst (ClaimNext (\<lambda>_. ''AB'') (\<lambda>_. ''e'') unlocked 0 0 run_ids run_sample ''w'' (seconds 60) None [] run_submitted) =
   Inr (Some \<lparr>sc_request = legacy_request, sc_status = run_status\<rparr>, run_claimed)"
  by code_simp

lemma run_activate: "ActivatePhasePlan 1 (Some run_status) run_claimed = Inr ((), run_active)"
  by code_simp

lemma run_claim_phase:
  "ClaimPhaseWork unlocked 2 ''w2'' run_sample ''x'' (seconds 30) [''phase:provision'', ''context:legacy''] [] run_active =
   Inr (Some run_phase_claim, run_phase)"
  by code_simp

lemma example_start: "ledger_start example_ledger"
  by (simp add: ledger_start_def example_ledger_def empty_db_def)

lemma run_fresh: "fresh_ids run_ids run_submitted"
  by code_simp

lemma run_reach_claimed: "job_step\<^sup>*\<^sup>* example_ledger run_claimed"
proof -
  have "job_step example_ledger run_submitted" by (rule job_step.submit[OF run_submit])
  moreover have "job_step run_submitted run_claimed" by (rule job_step.poll[OF run_poll run_fresh])
  ultimately show ?thesis by (meson converse_rtranclp_into_rtranclp r_into_rtranclp)
qed

lemma run_reach_phase: "job_step\<^sup>*\<^sup>* example_ledger run_phase"
proof -
  have "job_step run_claimed run_active" by (rule job_step.activate[OF run_activate])
  moreover have "job_step run_active run_phase" by (rule job_step.phase_poll[OF run_claim_phase])
  ultimately show ?thesis using run_reach_claimed by (meson rtranclp.rtrancl_into_rtrancl)
qed

end
