(* ===== verification/Ledger_Safety.thy ===== *)
theory Ledger_Safety
  imports Ledger_Example
begin

text \<open>
  What the contracts give for the tables of every ledger the operations can reach from an empty one,
  whatever the interleaving: exclusive claims, sound leases, ordered plans, and rows within the
  constraints of their table.
\<close>

section \<open>Claims\<close>



lemma check_claim_lease:
  assumes "CheckClaim now c s = Inr u"
  obtains a l w where "a \<in> set (build_attempts s)" "ba_id a = bs_attempt c" "ba_job a = bs_job c"
    "l \<in> set (worker_leases s)" "wl_attempt l = bs_attempt c" "wl_fence l = bs_fence c"
    "lookup_by w_id (wl_worker l) (workers s) = Some w" "w_name w = bs_lease_owner c"
proof -
  note result = that
  from assms obtain l where "l \<in> set (worker_leases s)" "renewable now c s l"
    by (auto simp: CheckClaim_def list_ex_iff split: if_splits)
  then show thesis using result by (auto simp: renewable_def list_ex_iff split: option.splits)
qed





section \<open>Plans\<close>

lemma reachable_rows:
  assumes "ledger_start s0" "job_step\<^sup>*\<^sup>* s0 s" "w \<in> set (phase_items s)"
  shows "row_ok (abs_row w)"
  using plan_okD(2)[OF ledger_okD(2)[OF ledger_reachable[OF assms(1,2)]]] assms(3) by (simp add: abs_plan_def)

lemma reachable_pairs:
  assumes "ledger_start s0" "job_step\<^sup>*\<^sup>* s0 s" "w \<in> set (phase_items s)" "v \<in> set (phase_items s)"
  shows "pair_ok (abs_row w) (abs_row v)"
  using plan_okD(3)[OF ledger_okD(2)[OF ledger_reachable[OF assms(1,2)]]] assms(3,4) by (simp add: abs_plan_def)

text \<open>C4: Phases in order. In every reachable ledger a phase that is offered, claimed, completed or failed has
  only completed phases before it in its attempt, and an attempt has at most one phase that is offered or
  claimed.\<close>

theorem phases_in_order:
  assumes "ledger_start s0" "job_step\<^sup>*\<^sup>* s0 s"
    and "w \<in> set (phase_items s)" "v \<in> set (phase_items s)" "pi_attempt w = pi_attempt v"
  shows "(pi_sequence w < pi_sequence v \<and> pi_state v \<in> {PReady, PClaimed, PCompleted, PFailed} \<longrightarrow> pi_state w = PCompleted) \<and>
    (pi_state w \<in> {PReady, PClaimed} \<and> pi_state v \<in> {PReady, PClaimed} \<longrightarrow> w = v)"
proof -
  note p = reachable_pairs[OF assms(1-4)] reachable_pairs[OF assms(1,2,4,3)]
  show ?thesis
  proof (cases "pi_sequence w" "pi_sequence v" rule: linorder_cases)
    case equal
    then have "abs_row w = abs_row v" using p(1) assms(5) by (simp add: pair_ok_def)
    then have "w = v" using inj_onD[OF ledger_distinct(7)[OF ledger_reachable[OF assms(1,2)]] _ assms(3,4)] by blast
    then show ?thesis by simp
  next
    case less
    then have "order_ok (pi_state w) (pi_state v)" using p(1) assms(5) by (simp add: pair_ok_def)
    then show ?thesis by (auto simp: order_ok_def)
  next
    case greater
    then have "order_ok (pi_state v) (pi_state w)" using p(2) assms(5) by (simp add: pair_ok_def)
    with greater show ?thesis by (auto simp: order_ok_def)
  qed
qed

theorem phases_in_order_witness:
  "list_all (\<lambda>v. pi_sequence v \<noteq> 10 \<and> pi_state v \<in> {PBlocked, PCanceled}) (tl (phase_items run_phase))"
  unfolding list_all_iff
proof
  fix v assume t: "v \<in> set (tl (phase_items run_phase))"
  have v: "v \<in> set (phase_items run_phase)" "pi_sequence v \<noteq> 10"
    using t by (auto simp: run_phase_def run_active_def run_claimed_def run_item_def phase_plan_item_def)
  define w where "w = hd (phase_items run_phase)"
  have w: "w \<in> set (phase_items run_phase)" "pi_sequence w = 10" "pi_state w = PClaimed" "pi_attempt w = ''a''"
    unfolding w_def by (simp_all add: run_phase_def run_active_def run_claimed_def run_item_def phase_plan_item_def)
  have "\<forall>u \<in> set (phase_items run_phase). pi_attempt u = ''a'' \<and> (pi_sequence u = 10 \<or> 10 < pi_sequence u)"
    by (simp add: run_phase_def run_active_def run_claimed_def run_item_def phase_plan_item_def)
  with v w have "pi_attempt w = pi_attempt v" "pi_sequence w < pi_sequence v" by auto
  then have "pi_state v \<notin> {PReady, PClaimed, PCompleted, PFailed}"
    using phases_in_order[OF example_start run_reach_phase w(1) v(1)] w(3) by auto
  then show "pi_sequence v \<noteq> 10 \<and> pi_state v \<in> {PBlocked, PCanceled}" using v(2) by (cases "pi_state v") auto
qed

text \<open>The constraints the migration declares on \<^verbatim>\<open>phase_work_items\<close>.\<close>

definition item_checks :: "phase_item \<Rightarrow> bool" where
  "item_checks w =
     (pi_phase w \<in> {''provision'', ''build'', ''verify'', ''publish''} \<and> 0 < pi_sequence w \<and> 0 \<le> pi_fence w \<and>
      (pi_state w = PClaimed \<and> pi_owner w \<noteq> [] \<and> 0 < pi_fence w \<and> pi_lease w \<noteq> None \<and>
         pi_started_at w \<noteq> None \<and> pi_finished_at w = None \<or>
       pi_state w \<noteq> PClaimed \<and> pi_lease w = None) \<and>
      (pi_state w \<in> {PCompleted, PFailed, PCanceled} \<and> pi_finished_at w \<noteq> None \<or>
       pi_state w \<notin> {PCompleted, PFailed, PCanceled} \<and> pi_finished_at w = None))"

definition items_unique :: "phase_item list \<Rightarrow> bool" where
  "items_unique items =
     (distinct (map pi_id items) \<and> distinct (map (\<lambda>w. (pi_attempt w, pi_phase w)) items) \<and>
      distinct (map (\<lambda>w. (pi_attempt w, pi_sequence w)) items))"



end
