(* ===== verification/Phase_Safety.thy ===== *)
theory Phase_Safety
  imports Ledger_Example
begin

text \<open>
  What the phase store guarantees to its executors: a lost claim is refused by every operation from then
  on, a saved hand-off document is what the next claimant reads, and ending an attempt from its plan
  releases everything it held.
\<close>

section \<open>Lost claims\<close>

definition claim_lost :: "phase_claim \<Rightarrow> db \<Rightarrow> bool" where
  "claim_lost c s =
     (list_ex (\<lambda>w. pi_id w = pw_id c) (phase_items s) \<and>
      list_all (\<lambda>w. pi_id w = pw_id c \<longrightarrow>
          pi_fence w > pw_fence c \<or> pi_fence w = pw_fence c \<and> pi_state w \<noteq> PClaimed) (phase_items s))"

lemma claim_lost_row: "claim_lost c s \<longleftrightarrow> row_lost (pw_id c) (pw_fence c) (abs_plan s)"
  by (auto simp: claim_lost_def row_lost_def abs_plan_def list_all_iff list_ex_iff image_image image_iff) metis

lemma claim_lost_steps:
  assumes "ledger_ok s" "claim_lost c s" "job_step\<^sup>*\<^sup>* s t"
  shows "claim_lost c t"
  using row_lost_steps[OF steps_plan[OF assms(3,1)]] assms(2) by (simp add: claim_lost_row)

lemma claim_lost_not_held:
  assumes "claim_lost c s" "w \<in> set (phase_items s)"
  shows "\<not> held_item c w"
  using assms by (auto simp: claim_lost_def held_item_def list_all_iff)

lemma claim_lost_lock:
  assumes "claim_lost c s"
  shows "isl (lockTerminalPhaseClaim now c s)"
  using claim_lost_not_held[OF assms] by (auto simp: lockTerminalPhaseClaim_def list_ex_iff held_live_def)

lemma ended_locked:
  "FinalizePhaseWork sd wall now (Some c) previous finished s = Inr x \<Longrightarrow> \<exists>u. lockTerminalPhaseClaim now c s = Inr u"
  "FailPhaseWorkAndJob sd wall now (Some c) previous detail s = Inr x \<Longrightarrow> \<exists>u. lockTerminalPhaseClaim now c s = Inr u"
  by (auto simp: FinalizePhaseWork_def FailPhaseWorkAndJob_def Let_def bind_result_Inr split: option.splits if_splits)

lemma ended_isl:
  assumes "isl (lockTerminalPhaseClaim now c s)"
  shows "isl (FinalizePhaseWork sd wall now (Some c) previous finished s)"
    "isl (FailPhaseWorkAndJob sd wall now (Some c) previous detail s)"
  using assms ended_locked by (metis sum.collapse(2) sum.disc(2))+

text \<open>C3: A lost claim stays lost. Once the item of a phase claim was reclaimed, claimed again under a higher
  fence, finished or canceled, then in every ledger reachable from there its holder can no longer renew,
  complete or fail the phase, save or load the hand-off document, or end the attempt and its job: every
  such call returns an error.\<close>

theorem lost_phase_claim_refused:
  assumes "ledger_start s0" "job_step\<^sup>*\<^sup>* s0 s" "claim_lost c s" "job_step\<^sup>*\<^sup>* s t"
  shows "isl (RenewPhaseWork now (Some c) lease t) \<and> isl (CompletePhaseWork now (Some c) t) \<and>
    isl (FailPhaseWork now (Some c) detail t) \<and> isl (SavePhaseExecutionContext now (Some c) (Some v) t) \<and>
    isl (LoadPhaseExecutionContext now (Some c) t) \<and> isl (FinalizePhaseWork sd wall now (Some c) previous finished t) \<and>
    isl (FailPhaseWorkAndJob sd wall now (Some c) previous detail t)"
proof -
  have lost: "claim_lost c t" using claim_lost_steps[OF ledger_reachable[OF assms(1,2)] assms(3,4)] .
  note free = claim_lost_not_held[OF lost]
  have find: "find (held_item c) (phase_items t) = None" "find (context_writable now c t) (phase_items t) = None"
    "find (\<lambda>w. held_live now c w \<and> pi_attempt w = pw_attempt c) (phase_items t) = None"
    using free by (auto simp: find_None_iff context_writable_def held_live_def)
  have "\<not> list_ex (held_live now c) (phase_items t)" using free by (auto simp: list_ex_iff held_live_def)
  then have "isl (RenewPhaseWork now (Some c) lease t)" by (simp add: RenewPhaseWork_def)
  moreover have "isl (CompletePhaseWork now (Some c) t)" "isl (FailPhaseWork now (Some c) detail t)"
    "isl (LoadPhaseExecutionContext now (Some c) t)"
    using find by (simp_all add: CompletePhaseWork_def FailPhaseWork_def finishPhaseWork_def LoadPhaseExecutionContext_def)
  moreover have "isl (SavePhaseExecutionContext now (Some c) (Some v) t)"
    using find by (cases "validatePhaseContext v") (simp_all add: SavePhaseExecutionContext_def)
  ultimately show ?thesis using ended_isl[OF claim_lost_lock[OF lost]] by blast
qed

definition run_completed :: db where
  "run_completed = committed (CompletePhaseWork 3 (Some run_phase_claim) run_phase) run_phase"

theorem lost_phase_claim_refused_witness:
  "isl (RenewPhaseWork 4 (Some run_phase_claim) (seconds 30) run_completed) \<and>
   \<not> isl (RenewPhaseWork 3 (Some run_phase_claim) (seconds 30) run_phase)"
proof -
  have "\<not> isl (CompletePhaseWork 3 (Some run_phase_claim) run_phase)" by code_simp
  then have "CompletePhaseWork 3 (Some run_phase_claim) run_phase = Inr ((), run_completed)"
    unfolding run_completed_def by (cases "CompletePhaseWork 3 (Some run_phase_claim) run_phase") auto
  then have "job_step run_phase run_completed" unfolding CompletePhaseWork_def by (rule job_step.finish_phase)
  then have r: "job_step\<^sup>*\<^sup>* example_ledger run_completed" using run_reach_phase by (rule rtranclp.rtrancl_into_rtrancl[rotated])
  have "claim_lost run_phase_claim run_completed" unfolding run_completed_def by code_simp
  moreover have "\<not> isl (RenewPhaseWork 3 (Some run_phase_claim) (seconds 30) run_phase)" by code_simp
  ultimately show ?thesis
    using lost_phase_claim_refused[OF example_start r _ rtranclp.rtrancl_refl, of run_phase_claim 4 "seconds 30"] by blast
qed

section \<open>The hand-off document\<close>


definition run_context :: phase_context where
  "run_context = empty_context\<lparr>px_worker := ''vm-1'', px_artifacts := [''a.gpkg.tar'']\<rparr>"


section \<open>Ending an attempt\<close>

lemma closed_items:
  assumes ok: "ledger_ok s" and w: "w \<in> set (phase_items s)" "pi_state w = PClaimed" "pi_id w = i"
    and v: "v \<in> set (update_where (\<lambda>w. pi_id w = i) (end_item st at e) (phase_items s))" "pi_attempt v = pi_attempt w"
    and st: "st \<in> {PCompleted, PFailed}"
  shows "\<not> item_open v \<or> pi_sequence v > pi_sequence w \<and> pi_state v = PBlocked"
proof -
  note p = ledger_okD(2)[OF ok, unfolded abs_plan_def]
  have rw: "abs_row w \<in> set (map abs_row (phase_items s))" using w(1) by simp
  from v(1) show ?thesis
  proof (cases rule: in_update_whereE)
    case kept
    then have rv: "abs_row v \<in> set (map abs_row (phase_items s))" by simp
    have "pi_sequence v \<noteq> pi_sequence w"
    proof
      assume "pi_sequence v = pi_sequence w"
      then have "abs_row v = abs_row w" using same_sequence_unique[OF p rw rv] v(2) by simp
      from arg_cong[OF this, of pr_id] show False using kept(2) w(3) by simp
    qed
    then consider "pi_sequence v < pi_sequence w" | "pi_sequence v > pi_sequence w" by linarith
    then show ?thesis
    proof cases
      case 1
      then show ?thesis using order_rows[OF p rv rw] v(2) w(2) by (simp add: order_ok_def item_open_def)
    next
      case 2
      then show ?thesis using later_blocked[OF p rw _ rv] v(2) w(2) by (simp add: after_row_def)
    qed
  next
    case (changed q)
    then show ?thesis using st by (auto simp: end_item_def item_open_def)
  qed
qed

lemma attempt_released_items:
  assumes "attempt_released a (s\<lparr>phase_items := ws\<rparr>)" "\<forall>w \<in> set (phase_items s). pi_attempt w = a \<longrightarrow> \<not> item_open w"
  shows "attempt_released a s"
  using assms by (simp add: attempt_released_def)

lemma end_released:
  assumes "\<forall>w \<in> set (phase_items s). pi_attempt w = a \<longrightarrow> \<not> item_open w"
    "\<forall>u \<in> set (attempt_usage s). au_attempt u = a \<longrightarrow> \<not> au_active u"
    "\<forall>l \<in> set (worker_leases s). wl_attempt l \<noteq> a"
  shows "attempt_released a (revokeWorkerGatewayAttempt a r at
    (releaseArtifactBudgetReservation a r (releaseResourceReservation a r at s)))" (is "attempt_released a ?t")
proof -
  have "release_attempt a r at s =
      ?t\<lparr>phase_items := phase_items (cancelPhaseWorkItems a r at s)\<rparr>"
    by (simp add: release_attempt_def revokeWorkerGatewayAttempt_def cancelPhaseWorkItems_def
        releaseArtifactBudgetReservation_def releaseResourceReservation_def)
  from release_attempt_released[OF assms(2,3), of r at, unfolded this] show ?thesis
  proof (rule attempt_released_items)
    have "phase_items ?t = phase_items s"
      by (simp add: revokeWorkerGatewayAttempt_def releaseArtifactBudgetReservation_def releaseResourceReservation_def)
    then show "\<forall>w \<in> set (phase_items ?t). pi_attempt w = a \<longrightarrow> \<not> item_open w" using assms(1) by simp
  qed
qed

lemma finish_tx_released:
  assumes ok: "ledger_ok s" and lk: "lockTerminalPhaseClaim now c s = Inr u"
    and s0: "worker_leases s0 = worker_leases s"
    and free: "\<forall>w \<in> set (phase_items s0). pi_attempt w = pw_attempt c \<longrightarrow> \<not> item_open w"
    and f: "finishPhaseAttemptTx c status doc dg at detail s0 = Inr t"
  shows "attempt_released (pw_attempt c) t"
    "\<exists>j \<in> set (build_jobs t). bj_id j = pw_job c"
    "\<forall>j \<in> set (build_jobs t). bj_id j = pw_job c \<longrightarrow> bj_state j = bs_status status \<and> bj_completed_at j = Some at"
proof -
  from f obtain s1 where s1: "settleAttemptUsage (pw_attempt c) (''job_'' @ bs_status status) (bs_status status) at
      (finish_attempt_row c (bs_status status) detail at s0) = Inr s1"
    and one: "count_where (\<lambda>j. bj_id j = pw_job c) (build_jobs s1) = 1"
    and t: "t = revokeWorkerGatewayAttempt (pw_attempt c) (''job_'' @ bs_status status) at
      (releaseArtifactBudgetReservation (pw_attempt c) (''job_'' @ bs_status status)
        (releaseResourceReservation (pw_attempt c) (''job_'' @ bs_status status) at
          (release_phase_lease c (finish_job_row (pw_job c) (bs_status status) doc dg detail at s1))))"
    by (rule finish_tx)
  let ?s2 = "release_phase_lease c (finish_job_row (pw_job c) (bs_status status) doc dg detail at s1)"
  have f2: "phase_items ?s2 = phase_items s0" "attempt_usage ?s2 = attempt_usage s1"
    "worker_leases ?s2 = filter (\<lambda>l. \<not> (wl_attempt l = pw_attempt c \<and> wl_fence l = pw_attempt_fence c)) (worker_leases s)"
    using settle_fields[OF s1] s0
    by (simp_all add: release_phase_lease_def finish_job_row_def finish_attempt_row_def)
  from lk obtain a where a: "a \<in> set (build_attempts s)" "ba_id a = pw_attempt c" "ba_fence a = pw_attempt_fence c"
    by (rule terminal_claim)
  have "wl_fence l = pw_attempt_fence c" if l: "l \<in> set (worker_leases s)" "wl_attempt l = pw_attempt c" for l
  proof -
    have "lease_ok (abs_claims s) (abs_lease l)" using claims_okD(5)[OF ledger_okD(1)[OF ok]] l(1) by simp
    then obtain b where b: "b \<in> set (build_attempts s)" "ba_id b = pw_attempt c" "ba_fence b = wl_fence l"
      using l(2) unfolding lease_ok_def by auto
    then have "b = a" using distinct_key_eq[OF ledger_distinct(2)[OF ok] b(1) a(1)] a(2) by simp
    with a(3) b(3) show ?thesis by simp
  qed
  then have "\<forall>l \<in> set (worker_leases ?s2). wl_attempt l \<noteq> pw_attempt c" unfolding f2(3) by auto
  moreover have "\<forall>u \<in> set (attempt_usage ?s2). au_attempt u = pw_attempt c \<longrightarrow> \<not> au_active u"
    unfolding f2(2) settle_rows[OF s1] by (rule update_where_all) auto
  ultimately show "attempt_released (pw_attempt c) t" unfolding t using free f2(1) by (intro end_released) simp_all
  have jobs: "build_jobs t = build_jobs (finish_job_row (pw_job c) (bs_status status) doc dg detail at s1)"
    by (simp add: t revokeWorkerGatewayAttempt_def releaseArtifactBudgetReservation_def releaseResourceReservation_def
        release_phase_lease_def)
  obtain j where "j \<in> set (build_jobs s1)" "bj_id j = pw_job c" using one count_where_pos[of "\<lambda>j. bj_id j = pw_job c" "build_jobs s1"] by auto
  then have "pw_job c \<in> bj_id ` set (build_jobs s1)" by force
  moreover have "map bj_id (build_jobs t) = map bj_id (build_jobs s1)"
    unfolding jobs by (simp add: finish_job_row_def map_update_where)
  ultimately show "\<exists>j \<in> set (build_jobs t). bj_id j = pw_job c" by (metis (no_types, lifting) imageE list.set_map)
  show "\<forall>j \<in> set (build_jobs t). bj_id j = pw_job c \<longrightarrow> bj_state j = bs_status status \<and> bj_completed_at j = Some at"
    unfolding jobs finish_job_row_def by (auto simp: set_update_where)
qed

text \<open>What both ends of an attempt leave behind.\<close>

definition attempt_ended :: "phase_claim \<Rightarrow> time \<Rightarrow> db \<Rightarrow> bool" where
  "attempt_ended c at t =
     (attempt_released (pw_attempt c) t \<and> (\<exists>j \<in> set (build_jobs t). bj_id j = pw_job c) \<and>
      (\<forall>j \<in> set (build_jobs t). bj_id j = pw_job c \<longrightarrow>
         bj_state j \<in> {''completed'', ''failed''} \<and> bj_completed_at j = Some at))"

lemma attempt_ended_event [simp]: "attempt_ended c at (insertJobEvent i e t) = attempt_ended c at t"
  by (simp add: attempt_ended_def attempt_released_def)

lemma finish_tx_ended:
  assumes "ledger_ok s" "lockTerminalPhaseClaim now c s = Inr u" "worker_leases s0 = worker_leases s"
    and "\<And>w. w \<in> set (phase_items s0) \<Longrightarrow> pi_attempt w = pw_attempt c \<Longrightarrow> \<not> item_open w"
    and "finishPhaseAttemptTx c status doc dg at detail s0 = Inr t" "bs_status status \<in> {''completed'', ''failed''}"
  shows "attempt_ended c at t"
  using finish_tx_released[OF assms(1-3) _ assms(5)] assms(4,6) by (simp add: attempt_ended_def)

lemma terminal_item:
  assumes "ledger_ok s" "genuine_claim c s" "lockTerminalPhaseClaim now c s = Inr u"
  obtains w where "w \<in> set (phase_items s)" "pi_id w = pw_id c" "pi_state w = PClaimed" "pi_attempt w = pw_attempt c"
    "pi_phase w = pw_phase c" "pi_sequence w = pw_sequence c"
proof -
  note result = that
  from assms(3) obtain w where w: "w \<in> set (phase_items s)" "held_live now c w" "pi_attempt w = pw_attempt c"
    by (rule terminal_claim)
  have i: "pi_state w = PClaimed" "pi_id w = pw_id c" using w(2) by (simp_all add: held_live_def held_item_def)
  have "pi_phase w = pw_phase c" "pi_sequence w = pw_sequence c"
    using assms(2) w(1) i(2) by (auto simp: genuine_claim_def list_all_iff)
  with result w i show thesis by blast
qed

lemma finalize_ended:
  assumes ok: "ledger_ok s" and g: "genuine_claim c s" and lk: "lockTerminalPhaseClaim now c s = Inr u"
    and f: "FinalizePhaseWork sd wall now (Some c) previous finished s = Inr ((), t)"
  shows "attempt_ended c wall t"
proof -
  from ok g lk obtain w where w: "w \<in> set (phase_items s)" "pi_id w = pw_id c" "pi_state w = PClaimed"
    "pi_attempt w = pw_attempt c" "pi_phase w = pw_phase c" "pi_sequence w = pw_sequence c" by (rule terminal_item)
  from f obtain st doc dg s1 where st: "pw_phase c = ''publish''" "bs_status st = ''completed''"
    and s1: "finishPhaseAttemptTx c st doc dg wall [] (finish_item c PCompleted [] wall s) = Inr s1"
    and t: "t = insertJobEvent (pw_job c) ''job.phase_plan_completed'' s1"
    by (auto simp: FinalizePhaseWork_def bind_result_Inr split: option.splits if_splits)
  have seq: "pi_sequence v \<le> pi_sequence w" if "v \<in> set (phase_items s)" for v
    using plan_okD(2)[OF ledger_okD(2)[OF ok], of "abs_row v"] plan_okD(2)[OF ledger_okD(2)[OF ok], of "abs_row w"]
      that w(1,5) st(1) by (auto simp: abs_plan_def row_ok_def)
  have "\<not> item_open v" if v: "v \<in> set (phase_items (finish_item c PCompleted [] wall s))" "pi_attempt v = pw_attempt c" for v
  proof -
    have "pi_sequence v \<le> pi_sequence w" using v(1) seq by (auto simp: set_update_where end_item_def)
    then show ?thesis using closed_items[OF ok w(1,3,2), unfolded w(4), OF v[unfolded finish_item_views]] by auto
  qed
  with s1 st(2) show ?thesis unfolding t
    by (auto intro!: finish_tx_ended[OF ok lk _ _ s1] simp: finish_item_def simp del: finish_item_views)
qed

lemma fail_ended:
  assumes ok: "ledger_ok s" and g: "genuine_claim c s" and lk: "lockTerminalPhaseClaim now c s = Inr u"
    and f: "FailPhaseWorkAndJob sd wall now (Some c) previous detail s = Inr ((), t)"
  shows "attempt_ended c wall t"
proof -
  from ok g lk obtain w where w: "w \<in> set (phase_items s)" "pi_id w = pw_id c" "pi_state w = PClaimed"
    "pi_attempt w = pw_attempt c" "pi_phase w = pw_phase c" "pi_sequence w = pw_sequence c" by (rule terminal_item)
  let ?s0 = "finish_item c PFailed (failure_text detail) wall s"
  let ?s1 = "?s0\<lparr>phase_items := cancel_later (pw_attempt c) (pw_sequence c) wall (phase_items ?s0)\<rparr>"
  from f obtain p doc dg s2 where
    s2: "finishPhaseAttemptTx c (p\<lparr>bs_status := ''failed'', bs_error := failure_text detail,
      bs_failed_stage := pw_phase c, bs_updated_at := wall\<rparr>) doc dg wall (failure_text detail) ?s1 = Inr s2"
    and t: "t = insertJobEvent (pw_job c) ''job.phase_failed'' s2"
    by (auto simp: FailPhaseWorkAndJob_def Let_def bind_result_Inr simp del: finish_item_views split: option.splits)
  have items: "phase_items ?s1 = cancel_later (pw_attempt c) (pw_sequence c) wall (phase_items ?s0)" by simp
  have "\<not> item_open v" if v: "v \<in> set (phase_items ?s1)" "pi_attempt v = pw_attempt c" for v
    using v(1)[unfolded items, unfolded cancel_later_def]
  proof (cases rule: in_update_whereE)
    case kept
    from closed_items[OF ok w(1,3,2), unfolded w(4), OF kept(1)[unfolded finish_item_views] v(2)] kept(2) v(2) w(6)
    show ?thesis by (auto simp: item_open_def)
  next
    case (changed x)
    then show ?thesis by (simp add: item_open_def)
  qed
  with s2 show ?thesis unfolding t
    by (auto intro!: finish_tx_ended[OF ok lk _ _ s2] simp: finish_item_def simp del: finish_item_views)
qed

text \<open>C6: Ending an attempt from its plan. In a reachable ledger, when the publish phase finalises or any phase
  fails the job, the job is terminal with that end time in the same transaction, and nothing of the attempt
  is held any more: no lease, reservation, running budget, open phase, artifact reservation, gateway
  session, command or upload.\<close>

theorem phase_end_releases:
  assumes "ledger_start s0" "job_step\<^sup>*\<^sup>* s0 s" "genuine_claim c s"
    and "FinalizePhaseWork sd wall now (Some c) previous finished s = Inr ((), t) \<or>
      FailPhaseWorkAndJob sd wall now (Some c) previous detail s = Inr ((), t)"
  shows "attempt_released (pw_attempt c) t \<and> (\<exists>j \<in> set (build_jobs t). bj_id j = pw_job c) \<and>
    (\<forall>j \<in> set (build_jobs t). bj_id j = pw_job c \<longrightarrow>
       bj_state j \<in> {''completed'', ''failed''} \<and> bj_completed_at j = Some wall)"
proof -
  have ok: "ledger_ok s" using assms(1,2) by (rule ledger_reachable)
  obtain u where "lockTerminalPhaseClaim now c s = Inr u" using assms(4) ended_locked by blast
  then have "attempt_ended c wall t" using assms(3,4) finalize_ended[OF ok] fail_ended[OF ok] by blast
  then show ?thesis by (simp add: attempt_ended_def)
qed

lemma failure_text_code [code]:
  "failure_text detail =
     (let d = TrimSpace detail; x = (if d = [] then ''phase execution failed'' else d) in
      if int (length x) > 65536 then take maxLedgerErrorBytes x else x)"
  by (auto simp: failure_text_def maxLedgerErrorBytes_def Let_def)

theorem phase_end_releases_witness:
  "case FailPhaseWorkAndJob (\<lambda>_. ''e'') 9 4 (Some run_phase_claim) (Some run_status) ''boom'' run_phase of
     Inl _ \<Rightarrow> False
   | Inr (_, t) \<Rightarrow> attempt_released ''a'' t \<and> map bj_state (build_jobs t) = [''failed'']"
proof -
  define r where "r = FailPhaseWorkAndJob (\<lambda>_. ''e'') 9 4 (Some run_phase_claim) (Some run_status) ''boom'' run_phase"
  have "case r of Inl _ \<Rightarrow> False | Inr (_, t) \<Rightarrow> map bj_state (build_jobs t) = [''failed'']" unfolding r_def by code_simp
  then obtain t where t: "r = Inr ((), t)" "map bj_state (build_jobs t) = [''failed'']"
    by (auto split: sum.splits)
  have "genuine_claim run_phase_claim run_phase" by code_simp
  from phase_end_releases[OF example_start run_reach_phase this disjI2[OF t(1)[unfolded r_def]]] t
  show ?thesis unfolding r_def[symmetric] by (simp add: run_phase_claim_def)
qed

end
