(* ===== verification/Scheduler_Safety.thy ===== *)
theory Scheduler_Safety
  imports Ledger_Example
begin

text \<open>
  What a poll guarantees to projects and operators: a claim is only written within every limit of its
  project's policy, the counters of expired leases are exact, and what the worker cache of
  \<^verbatim>\<open>scheduler.go\<close> does to registration.
\<close>

section \<open>A claim that was written\<close>

lemma poll_parts:
  assumes "fst (ClaimNext sha sd busy wall now ids sample name lease caps cache s) = Inr (claim, t)"
  obtains labels w cache' s1 n s2 where
    "schedulerWorker wall now (id_worker ids) name labels sample cache s = (w, cache', s1)"
    "recoverExpiredTx sd busy now schedulerRecoveryBatch s1 = Inr (n, s2)"
    "claimNextTx sha sd busy now ids w name (schedulerLeaseKind labels) lease s2 = Inr (claim, t)"
  using assms unfolding ClaimNext_def
  by (auto simp: bind_result_Inr split: if_splits sum.splits prod.splits option.splits)

lemma plan_inserted_fields:
  assumes "insertPhaseWorkPlan sha ids project job attempt request at s = Inr t"
  shows "reservations t = reservations s" "attempt_usage t = attempt_usage s" "build_jobs t = build_jobs s"
    "project_policies t = project_policies s"
  using assms by (auto simp: insertPhaseWorkPlan_def bind_result_Inr)

lemma persist_written:
  assumes "persistClaim sha sd now ids j resources budget w name kind lease no fence s = Inr (claim, t)"
  shows "reservations t = reservations (insert_reservation (id_attempt ids) (bj_project j) (bj_id j) resources s)"
    "attempt_usage t = attempt_usage (insertAttemptUsage (id_attempt ids) (bj_project j) (bj_id j) budget now s)"
    "project_policies t = project_policies s" "bs_project (sc_status claim) = bj_project j"
    "\<exists>doc dg. build_jobs t = build_jobs (mark_job_claimed now (bj_id j) doc dg s)"
proof -
  let ?s3 = "insertAttemptUsage (id_attempt ids) (bj_project j) (bj_id j) budget now
    (insert_reservation (id_attempt ids) (bj_project j) (bj_id j) resources
      (insert_attempt now (id_attempt ids) (bj_id j) w no fence s))"
  from assms obtain s4 doc dg e where
    s4: "insertPhaseWorkPlan sha (id_items ids) (bj_project j) (bj_id j) (id_attempt ids) (candidate_request j) now ?s3 = Inr s4"
    and t: "t = insertJobEvent (bj_id j) ''job.claimed'' (mark_job_claimed now (bj_id j) doc dg
      (insert_lease (id_lease ids) w (id_attempt ids) fence kind e s4))"
    and c: "sc_status claim = claimed_status now (id_attempt ids) fence name (candidate_status j)"
    unfolding persistClaim_def by (auto simp: Let_def bind_result_Inr)
  note f = plan_inserted_fields[OF s4]
  show "reservations t = reservations (insert_reservation (id_attempt ids) (bj_project j) (bj_id j) resources s)"
    "attempt_usage t = attempt_usage (insertAttemptUsage (id_attempt ids) (bj_project j) (bj_id j) budget now s)"
    "project_policies t = project_policies s"
    by (simp_all add: t mark_job_claimed_def insert_lease_def f insert_attempt_def insert_reservation_def
        insertAttemptUsage_def)
  show "bs_project (sc_status claim) = bj_project j"
    by (simp add: c claimed_status_def candidate_status_def)
  have "build_jobs t = build_jobs (mark_job_claimed now (bj_id j) doc dg s)"
    by (simp add: t mark_job_claimed_def insert_lease_def f insert_attempt_def insert_reservation_def
        insertAttemptUsage_def)
  then show "\<exists>doc dg. build_jobs t = build_jobs (mark_job_claimed now (bj_id j) doc dg s)" by blast
qed

lemma claim_written:
  assumes "claimNextTx sha sd busy now ids w name kind lease s = Inr (Some claim, t)"
  obtains j resources budget s1 doc dg where
    "s1 = ensureProjectFairnessRows s" "j \<in> set (build_jobs s1)" "bs_project (sc_status claim) = bj_project j"
    "lockAndCheckClaimAdmission now (bj_project j) (bj_id j) resources budget s1 = Inr (True, None)"
    "reservations t = reservations (insert_reservation (id_attempt ids) (bj_project j) (bj_id j) resources s1)"
    "attempt_usage t = attempt_usage (insertAttemptUsage (id_attempt ids) (bj_project j) (bj_id j) budget now s1)"
    "project_policies t = project_policies s1" "build_jobs t = build_jobs (mark_job_claimed now (bj_id j) doc dg s1)"
proof -
  note result = that
  obtain k s1 where k: "selectClaimCandidate busy now w s = (Some k, s1)"
    using assms unfolding claimNextTx_def by (auto split: prod.splits option.splits)
  from assms obtain resources budget s0 where
    a: "prepareClaimAccounting now (bj_project (cc_job k)) (bj_id (cc_job k)) (candidate_request (cc_job k)) s1 =
      Inr (Some (resources, budget), s0)"
    unfolding claimNextTx_def k by (auto simp: bind_result_Inr split: option.splits)
  then have s0: "s0 = s1" and l: "lockAndCheckClaimAdmission now (bj_project (cc_job k)) (bj_id (cc_job k)) resources budget s1 =
      Inr (True, None)"
    by (auto simp: prepareClaimAccounting_def bind_result_Inr lockAndCheckClaimAdmission_def Let_def
        split: if_splits option.splits)
  from assms obtain no fence s2 ds s4 y where
    p: "persistClaim sha sd now ids (cc_job k) resources budget w name kind lease no fence s1 = Inr (claim, s2)"
    and d: "recordFairDispatch now (cc_fairness k) ''admission'' (bj_created_at (cc_job k))
      (s2\<lparr>worker_decisions := ds\<rparr>) = Inr (y, s4)"
    and t: "t = insertJobEvent (bj_id (cc_job k)) ''scheduler.fair_dispatch'' s4"
    unfolding claimNextTx_def k by (auto simp: a s0 bind_result_Inr Let_def)
  note w = persist_written[OF p] and r = record_dispatch_fields[OF d]
  from w(5) obtain doc dg where "build_jobs s2 = build_jobs (mark_job_claimed now (bj_id (cc_job k)) doc dg s1)" by blast
  with result[OF candidate_job(1,2)[OF k] w(4) l] w r t show thesis by simp
qed

section \<open>Limits\<close>

lemma admitted_within:
  assumes "lockAndCheckClaimAdmission now project job v b s = Inr (True, None)"
  obtains p where "lookup_by pp_project project (project_policies s) = Some p" "policy_open now p"
    "int (count_where (\<lambda>j. bj_project j = project \<and> bj_id j \<noteq> job \<and> bj_visible j \<and> active_state (bj_state j)) (build_jobs s))
      < pp_max_active_jobs p"
    "int (claimed_count project s) < pp_max_claimed p"
    "VCPUs (used_resources project s) + VCPUs v \<le> pp_max_vcpus p"
    "MemoryMiB (used_resources project s) + MemoryMiB v \<le> pp_max_memory_mib p"
    "DiskGiB (used_resources project s) + DiskGiB v \<le> pp_max_disk_gib p"
    "int64 (used_seconds (utc_day now) project s + MaxRuntimeSeconds b) \<le> pp_max_build_seconds p"
    "int64 (used_cost (utc_day now) project s + ReservedCloudCost b) \<le> pp_max_cloud_cost p"
  using assms by (auto simp: lockAndCheckClaimAdmission_def Let_def not_le not_less split: option.splits if_splits)

text \<open>What the new rows add to the sums of the admission check.\<close>

lemma reservation_added:
  assumes "reservations t = reservations (insert_reservation a project job v s)"
  shows "VCPUs (used_resources project t) = VCPUs (used_resources project s) + VCPUs v"
    "MemoryMiB (used_resources project t) = MemoryMiB (used_resources project s) + MemoryMiB v"
    "DiskGiB (used_resources project t) = DiskGiB (used_resources project s) + DiskGiB v"
    "claimed_count project t = Suc (claimed_count project s)"
  using assms by (simp_all add: used_resources_def insert_reservation_def claimed_count_def count_where_def Let_def)

lemma usage_added:
  assumes "attempt_usage t = attempt_usage (insertAttemptUsage a project job b now s)"
  shows "used_seconds (utc_day now) project t = used_seconds (utc_day now) project s + MaxRuntimeSeconds b"
    "used_cost (utc_day now) project t = used_cost (utc_day now) project s + ReservedCloudCost b"
  using assms by (simp_all add: used_seconds_def used_cost_def insertAttemptUsage_def)

lemma active_after_claim:
  assumes "distinct (map bj_id (build_jobs s))" "build_jobs t = build_jobs (mark_job_claimed now i doc dg s)"
  shows "active_jobs project t \<le>
    Suc (count_where (\<lambda>j. bj_project j = project \<and> bj_id j \<noteq> i \<and> bj_visible j \<and> active_state (bj_state j)) (build_jobs s))"
proof -
  have "distinct (map bj_id xs) \<Longrightarrow>
      count_where (\<lambda>j. bj_project j = project \<and> bj_visible j \<and> active_state (bj_state j)) (update_where (\<lambda>j. bj_id j = i) f xs) \<le>
      (if i \<in> bj_id ` set xs then 1 else 0) +
      count_where (\<lambda>j. bj_project j = project \<and> bj_id j \<noteq> i \<and> bj_visible j \<and> active_state (bj_state j)) xs" for f xs
    by (induction xs) (auto simp: count_where_def update_where_def)
  from this[OF assms(1), of "\<lambda>j. j\<lparr>bj_state := ''claimed'', bj_snapshot := doc, bj_status_digest := dg,
      bj_updated_at := now, bj_terminal_reason := [], bj_revision := bj_revision j + 1\<rparr>"]
  show ?thesis unfolding active_jobs_def assms(2) mark_job_claimed_def by (simp split: if_splits)
qed

text \<open>C9: Claims within the policy. When a poll on a reachable ledger returns a claim, then in the ledger it
  leaves behind the claim's project is open and within every limit of its policy, this claim included:
  visible active jobs, claimed attempts, the reserved vCPUs, memory and disk of all active reservations,
  and the build seconds and cloud cost reserved or charged on the current UTC day, as long as the two
  day sums fit their 64-bit columns.\<close>

theorem claim_within_quota:
  assumes "ledger_start s0" "job_step\<^sup>*\<^sup>* s0 s"
    and "fst (ClaimNext sha sd busy wall now ids sample name lease caps cache s) = Inr (Some claim, t)"
    and "project = bs_project (sc_status claim)"
    and "\<bar>used_seconds (utc_day now) project t\<bar> < 2 ^ 63" "\<bar>used_cost (utc_day now) project t\<bar> < 2 ^ 63"
  shows "\<exists>p. lookup_by pp_project project (project_policies t) = Some p \<and> policy_open now p \<and>
    int (active_jobs project t) \<le> pp_max_active_jobs p \<and> int (claimed_count project t) \<le> pp_max_claimed p \<and>
    VCPUs (used_resources project t) \<le> pp_max_vcpus p \<and> MemoryMiB (used_resources project t) \<le> pp_max_memory_mib p \<and>
    DiskGiB (used_resources project t) \<le> pp_max_disk_gib p \<and>
    used_seconds (utc_day now) project t \<le> pp_max_build_seconds p \<and>
    used_cost (utc_day now) project t \<le> pp_max_cloud_cost p"
proof -
  from assms(3) obtain labels w cache' s1 n s2 where
    s1: "schedulerWorker wall now (id_worker ids) name labels sample cache s = (w, cache', s1)"
    and s2: "recoverExpiredTx sd busy now schedulerRecoveryBatch s1 = Inr (n, s2)"
    and c: "claimNextTx sha sd busy now ids w name (schedulerLeaseKind labels) lease s2 = Inr (Some claim, t)"
    by (rule poll_parts)
  have "ledger_ok s" using assms(1,2) by (rule ledger_reachable)
  then have "ledger_ok s1" using views_keptD[OF scheduler_worker_views[OF s1]] by (simp add: ledger_ok_def)
  with s2 have "ledger_ok s2" using recover_sim sim_ok by blast
  note distinct = ledger_distinct(1)[OF this]
  from c obtain j resources budget s3 doc dg where s3: "s3 = ensureProjectFairnessRows s2"
    and "j \<in> set (build_jobs s3)" and pr: "bs_project (sc_status claim) = bj_project j"
    and adm: "lockAndCheckClaimAdmission now (bj_project j) (bj_id j) resources budget s3 = Inr (True, None)"
    and r: "reservations t = reservations (insert_reservation (id_attempt ids) (bj_project j) (bj_id j) resources s3)"
    and u: "attempt_usage t = attempt_usage (insertAttemptUsage (id_attempt ids) (bj_project j) (bj_id j) budget now s3)"
    and p: "project_policies t = project_policies s3"
    and jobs: "build_jobs t = build_jobs (mark_job_claimed now (bj_id j) doc dg s3)"
    by (rule claim_written)
  have d3: "distinct (map bj_id (build_jobs s3))" using distinct by (simp add: s3)
  note sums = reservation_added[OF r] usage_added[OF u] active_after_claim[OF d3 jobs, of "bj_project j"]
  have "int64 (used_seconds (utc_day now) project t) = used_seconds (utc_day now) project t"
    "int64 (used_cost (utc_day now) project t) = used_cost (utc_day now) project t"
    using assms(5,6) by (intro int64_id; linarith)+
  note wide = this[unfolded assms(4) pr]
  from adm obtain q where q: "lookup_by pp_project (bj_project j) (project_policies s3) = Some q" "policy_open now q"
    "int (count_where (\<lambda>k. bj_project k = bj_project j \<and> bj_id k \<noteq> bj_id j \<and> bj_visible k \<and> active_state (bj_state k))
      (build_jobs s3)) < pp_max_active_jobs q"
    "int (claimed_count (bj_project j) s3) < pp_max_claimed q"
    "VCPUs (used_resources (bj_project j) s3) + VCPUs resources \<le> pp_max_vcpus q"
    "MemoryMiB (used_resources (bj_project j) s3) + MemoryMiB resources \<le> pp_max_memory_mib q"
    "DiskGiB (used_resources (bj_project j) s3) + DiskGiB resources \<le> pp_max_disk_gib q"
    "int64 (used_seconds (utc_day now) (bj_project j) s3 + MaxRuntimeSeconds budget) \<le> pp_max_build_seconds q"
    "int64 (used_cost (utc_day now) (bj_project j) s3 + ReservedCloudCost budget) \<le> pp_max_cloud_cost q"
    by (rule admitted_within)
  have "int (active_jobs (bj_project j) t) \<le> pp_max_active_jobs q" using sums(7) q(3) by linarith
  moreover have "int (claimed_count (bj_project j) t) \<le> pp_max_claimed q" using sums(4) q(4) by linarith
  ultimately show ?thesis unfolding assms(4) pr p
    using q(1,2,5-9)[folded sums(1-3,5,6)] wide by (intro exI[of _ q]) simp
qed

theorem claim_within_quota_witness:
  "int (active_jobs ''p'' run_claimed) \<le> pp_max_active_jobs example_project \<and> active_jobs ''p'' run_claimed = 1 \<and>
   VCPUs (used_resources ''p'' run_claimed) \<le> pp_max_vcpus example_project"
proof -
  have "job_step\<^sup>*\<^sup>* example_ledger run_submitted" using job_step.submit[OF run_submit] by blast
  moreover have "''p'' = bs_project (sc_status \<lparr>sc_request = legacy_request, sc_status = run_status\<rparr>)"
    "\<bar>used_seconds (utc_day 0) ''p'' run_claimed\<bar> < 2 ^ 63" "\<bar>used_cost (utc_day 0) ''p'' run_claimed\<bar> < 2 ^ 63"
    "lookup_by pp_project ''p'' (project_policies run_claimed) = Some example_project" "active_jobs ''p'' run_claimed = 1"
    by code_simp+
  ultimately show ?thesis using claim_within_quota[OF example_start _ run_poll, of "''p''"] by auto
qed

section \<open>The worker cache\<close>

text \<open>Every cached registration was observed before a point of time.\<close>

definition observed_before :: "time \<Rightarrow> worker_cache \<Rightarrow> bool" where
  "observed_before at cache = list_all (\<lambda>(_, c). ObservedAt (snd (cw_key c)) < at) cache"

lemma registered_now:
  assumes "register_worker now i name role labels pressure s = (w, t)"
  shows "\<exists>v \<in> set (workers t). w_name v = name \<and> w_last_seen v = Some now"
proof (cases "lookup_by w_name name (workers s)")
  case None
  with assms show ?thesis by (auto simp: register_worker_def)
next
  case (Some v)
  note v = lookup_by_Some[OF Some]
  from assms Some have t: "workers t = update_where (\<lambda>v. w_name v = name)
      (\<lambda>v. v\<lparr>w_last_seen := Some now, w_role := role, w_labels := labels, w_pressure := Some pressure,
             w_protocol := ExecutorProtocolVersion,
             w_generation := w_generation v +
               (if w_labels v \<noteq> labels \<or> w_role v \<noteq> role \<or> w_protocol v \<noteq> ExecutorProtocolVersion
                then 1 else 0)\<rparr>) (workers s)"
    by (auto simp: register_worker_def)
  show ?thesis unfolding t by (rule bexI[OF _ in_update_whereI[of v]]) (use v in auto)
qed

text \<open>C39: The registration cache is never used. The key a registration is cached under contains the time at
  which the telemetry was observed, so when every cached entry was observed before the sample of the
  current poll, the poll writes the worker row again, whatever the age of the entry; and afterwards every
  entry was observed before any later sample, so this holds for each poll of a process whose clock
  advances.\<close>

theorem worker_cache_never_hits:
  assumes "observed_before (hs_at sample) cache"
    and "schedulerWorker wall now i name labels sample cache s = (w, cache', t)"
  shows "(\<exists>v \<in> set (workers t). w_name v = name \<and> w_last_seen v = Some now) \<and>
    (hs_at sample < later \<longrightarrow> observed_before later cache')"
proof -
  let ?tel = "CaptureExecutorTelemetry sample labels"
  have tel: "ObservedAt ?tel = hs_at sample"
    by (simp add: CaptureExecutorTelemetry_def executorTelemetryFromSystemInfo_def Let_def)
  have "cw_key c \<noteq> (labels, ?tel)" if "map_of cache name = Some c" for c
    using assms(1) map_of_SomeD[OF that] tel by (auto simp: observed_before_def list_all_iff)
  then obtain j where r: "register_worker now j name ''control-plane-admission'' labels (PressureScore ?tel) s = (w, t)"
    and c: "cache' = (name, \<lparr>cw_id = w, cw_heartbeat = wall, cw_key = (labels, ?tel)\<rparr>) # cache"
    using assms(2) by (auto simp: schedulerWorker_def Let_def split: option.splits prod.splits)
  have "observed_before later cache'" if "hs_at sample < later"
    using assms(1) tel that by (auto simp: c observed_before_def list_all_iff)
  with registered_now[OF r] show ?thesis by blast
qed

text \<open>A registration repeated one second later, well within the fifteen seconds.\<close>

theorem worker_cache_never_hits_witness:
  "case schedulerWorker 0 0 ''w'' ''w'' legacy_labels run_sample [] empty_db of (_, cache, s) \<Rightarrow>
   case schedulerWorker (seconds 1) (seconds 1) ''v'' ''w'' legacy_labels (run_sample\<lparr>hs_at := seconds 1\<rparr>) cache s of
     (_, _, t) \<Rightarrow> list_ex (\<lambda>v. w_name v = ''w'' \<and> w_last_seen v = Some (seconds 1)) (workers t)"
proof -
  define r where "r = schedulerWorker 0 0 ''w'' ''w'' legacy_labels run_sample [] empty_db"
  obtain w cache s where r': "r = (w, cache, s)" by (cases r)
  have "case r of (_, cache, s) \<Rightarrow> observed_before (seconds 1) cache" unfolding r_def by code_simp
  then have "observed_before (hs_at (run_sample\<lparr>hs_at := seconds 1\<rparr>)) cache" by (simp add: r')
  moreover obtain w2 cache2 t where
    p: "schedulerWorker (seconds 1) (seconds 1) ''v'' ''w'' legacy_labels (run_sample\<lparr>hs_at := seconds 1\<rparr>) cache s = (w2, cache2, t)"
    by (rule prod_cases3)
  ultimately have "\<exists>v \<in> set (workers t). w_name v = ''w'' \<and> w_last_seen v = Some (seconds 1)"
    using worker_cache_never_hits by blast
  then show ?thesis unfolding r_def[symmetric] r' using p by (simp add: list_ex_iff)
qed

end
