(* ===== verification/Spec2Isabelle.thy ===== *)
theory Spec2Isabelle
  imports Capacity_Actuator Ledger_Safety Phase_Safety Scheduler_Safety
begin

text \<open>
  Portage Engine is the control plane of a build service for Gentoo packages. Several replicas share one
  PostgreSQL database; all coordination between them - who runs which build, which phase of it, which
  machine is created or deleted - goes through short transactions on its tables. This development models
  that shared core: the job ledger, the scheduler, the phase plans, project fairness and budgets, and the
  capacity ledger with its autoscaler and actuator. It proves what the code relies on when replicas crash,
  stall and interleave.

  \<^bold>\<open>How code becomes definitions.\<close> A table is a list of records (\<^verbatim>\<open>Database\<close>; columns of
  \<^verbatim>\<open>src/internal/migrations/sql\<close>), the database a record of tables. A Go method that runs one transaction is
  a function from the database to \<open>Inl error\<close> (rolled back, nothing changes) or \<open>Inr (value, database)\<close>.
  SQL statements are \<^const>\<open>update_where\<close>, \<^const>\<open>count_where\<close>, \<^const>\<open>lookup_by\<close> and \<^const>\<open>order_limit1\<close> on the tables, with
  the statement's conditions. \<^verbatim>\<open>clock_timestamp()\<close> is the argument \<open>now\<close>, \<^verbatim>\<open>time.Now()\<close> the argument \<open>wall\<close>; fresh UUIDs
  are arguments; \<^verbatim>\<open>SKIP LOCKED\<close> is a predicate saying which rows other transactions hold. Functions keep the
  names they have in the source. Integers are unbounded except where 64-bit wrap-around matters
  (\<^const>\<open>int64\<close>). Every function is total and executable; the loops (retention, pruning, waiting) have
  termination proofs instead of fuel, so no bound is chosen anywhere.

  \<^bold>\<open>The theories.\<close>
  \<^item> \<^verbatim>\<open>Prelude\<close>: time, results, tables, the parts of Go's library in use. \<^verbatim>\<open>Database\<close>: rows and tables.
  \<^item> \<^verbatim>\<open>Capabilities\<close> (\<^verbatim>\<open>builder/capabilities.go\<close>): labels, their normal form, pool identities, what a phase
    requires of a worker. Normalisation equals its specification; phase workers belong to the request's pool.
  \<^item> \<^verbatim>\<open>Autoscale\<close> (\<^verbatim>\<open>persistence/autoscale.go\<close>, decision half): bounds, spacing of changes, delay before
    scaling down, convergence of \<^const>\<open>decideAutoscale\<close> over any run.
  \<^item> \<^verbatim>\<open>Capacity_Ledger\<close> (\<^verbatim>\<open>persistence/capacity_actuator.go\<close>), \<^verbatim>\<open>Capacity_Reconcile\<close> (writing half of
    \<^verbatim>\<open>autoscale.go\<close>), \<^verbatim>\<open>Capacity_System\<close> and \<^verbatim>\<open>Capacity_Safety\<close>: all interleavings of actuators and reconcile
    passes as a step relation; one open action per pool, no orphaned machine, fences, the slot budget.
  \<^item> \<^verbatim>\<open>Capacity_Actuator\<close> (\<^verbatim>\<open>capacity/actuator.go\<close>): the loop over the ledger interface, a locale with the
    ledger's laws, interpreted on the modelled ledger beside any other processes. Provider calls are
    justified by the ledger, waiting ends, failures requeue.
  \<^item> \<^verbatim>\<open>Usage_Budgets\<close> (\<^verbatim>\<open>persistence/usage_budgets.go\<close>): runtime contracts, settlement, the failure-storm gate.
  \<^item> \<^verbatim>\<open>Fairness\<close> (\<^verbatim>\<open>persistence/fairness.go\<close>): selection of the next project; weighted fairness as a bound
    on the difference of served virtual time, and starvation.
  \<^item> \<^verbatim>\<open>Jobs\<close>, \<^verbatim>\<open>Job_Safety\<close> (\<^verbatim>\<open>persistence/jobs.go\<close>): idempotent submission within limits, fenced transitions
    and what a terminal one releases, phase capacity, retention.
  \<^item> \<^verbatim>\<open>Scheduler\<close> (\<^verbatim>\<open>persistence/scheduler.go\<close>, the telemetry of \<^verbatim>\<open>builder/sysinfo.go\<close>): polls with
    registration, recovery of expired leases, selection, admission and the written claim; renewal, checks,
    cancel, retry, pruning and the operator view. \<^verbatim>\<open>Scheduler_Safety\<close>: a claim stays within every limit of
    its project; the registration cache is never used.
  \<^item> \<^verbatim>\<open>Phase_Work\<close> (\<^verbatim>\<open>persistence/phase_work.go\<close>, the claim fence of \<^verbatim>\<open>runtime_metadata.go\<close>) and
    \<^verbatim>\<open>Phase_Context\<close> (\<^verbatim>\<open>persistence/phase_context.go\<close>): the four phases of an attempt, their claims, the
    hand-off document and the transactions that end attempt and job. \<^verbatim>\<open>Phase_Safety\<close>: lost claims stay
    refused, the hand-off round trip, complete release at the end.
  \<^item> \<^verbatim>\<open>Claims_Spec\<close>, \<^verbatim>\<open>Plan_Spec\<close>: two abstract contracts - leases of jobs, plans of attempts - as step
    relations with invariants, and the locale of a refinement. \<^verbatim>\<open>Ledger_Views\<close>, \<^verbatim>\<open>Ledger_Steps\<close>,
    \<^verbatim>\<open>Ledger_Claims\<close>, \<^verbatim>\<open>Ledger_Phases\<close>: every operation of the job, scheduler and phase stores simulates steps of
    both contracts on the views \<^const>\<open>abs_claims\<close> and \<^const>\<open>abs_plan\<close>. \<^verbatim>\<open>Ledger_System\<close> joins the operations in
    \<^const>\<open>job_step\<close> and interprets the locale; \<^verbatim>\<open>Ledger_Safety\<close> draws the consequences for the tables of every
    reachable ledger; \<^verbatim>\<open>Ledger_Example\<close> computes a run that the witnesses use.

  \<^bold>\<open>Parameters.\<close> SHA-256 and the digests of documents (any function), providers and error texts of the
  actuator, host samples behind worker telemetry, row locks, UUIDs. A run is assumed to draw UUIDs that are
  not in the tables (\<^const>\<open>fresh_ids\<close>), and a fenced report is assumed not to requeue its job.

  \<^bold>\<open>Not modelled.\<close> Everything that does its work outside the database: build execution and transfers
  (\<^verbatim>\<open>builder/local.go\<close>, \<^verbatim>\<open>executor.go\<close>), the in-memory side of \<^verbatim>\<open>builder/manager.go\<close>, provisioning through
  Terraform and hypervisors (\<^verbatim>\<open>iac\<close>, \<^verbatim>\<open>capacity/pve.go\<close>), HTTP, dashboards and command lines, object storage,
  signing and image building. Of the persistence layer: identity and sessions, the worker gateway except
  for revocation, signing and distcc queues, logs, settings, target history, and read-only status queries.
  Event payloads and display-only columns are left out; a transaction is atomic, so PostgreSQL's
  serialisation failures appear only as the error results callers already handle.
\<close>

end
